(* ===== verification/Prelude.thy ===== *)
theory Prelude
  imports Main "HOL-Library.Word"
begin

text \<open>
  What every component shares: the Go conventions of the program as HOL types.
  A Go \<open>error\<close> is only ever compared with nil and turned into text by the program, so an
  error value is its text. A call that returns \<open>(T, error)\<close> is a \<open>res\<close>; a call that may
  stop the goroutine with a run-time panic is an \<open>outcome\<close>.
\<close>

section \<open>Results, panics and the collections of facts\<close>

type_synonym error = string

datatype 'a res = Ok 'a | Err error

datatype 'a outcome = Done 'a | Panic

type_synonym byte = "8 word"
type_synonym bytes = "8 word list"
type_synonym address = "160 word"
type_synonym u64 = "64 word"

named_theorems wire_simps "defining equations of the wire types and handlers"
named_theorems list_arith "facts on lists and their lengths used across components"

fun is_ok :: "'a res \<Rightarrow> bool" where
  "is_ok (Ok _) = True"
| "is_ok (Err _) = False"

text \<open>\<open>x, _ := f()\<close>: the error is dropped, and the zero value stands for the result.\<close>

fun ok_or :: "'a \<Rightarrow> 'a res \<Rightarrow> 'a" where
  "ok_or _ (Ok x) = x"
| "ok_or d (Err _) = d"

text \<open>A call that returned a value: no panic and no error.\<close>

fun returned :: "'a res outcome \<Rightarrow> bool" where
  "returned (Done r) = is_ok r"
| "returned Panic = False"

lemma is_ok_iff: "is_ok r \<longleftrightarrow> (\<exists>x. r = Ok x)"
  by (cases r) auto

lemma not_is_ok_iff: "\<not> is_ok r \<longleftrightarrow> (\<exists>e. r = Err e)"
  by (cases r) auto

lemma returned_iff: "returned r \<longleftrightarrow> (\<exists>x. r = Done (Ok x))"
  by (cases r rule: returned.cases) (auto simp: is_ok_iff)

section \<open>Lists\<close>

text \<open>\<open>strings.Join\<close>.\<close>

fun join :: "string \<Rightarrow> string list \<Rightarrow> string" where
  "join sep [] = []"
| "join sep [x] = x"
| "join sep (x # xs) = x @ sep @ join sep xs"

lemma join_Cons: "xs \<noteq> [] \<Longrightarrow> join sep (x # xs) = x @ sep @ join sep xs"
  by (cases xs) auto

lemma filter_join [list_arith]:
  assumes "\<forall>x \<in> set xs. list_all P x" and "list_all (\<lambda>c. \<not> P c) sep"
  shows "filter P (join sep xs) = concat xs"
  using assms
proof (induction sep xs rule: join.induct)
  case (3 sep x y xs)
  then show ?case by (auto simp: list_all_iff filter_empty_conv)
qed (auto simp: list_all_iff)

lemma find_SomeD: "find P xs = Some x \<Longrightarrow> x \<in> set xs \<and> P x"
  by (induction xs) (auto split: if_splits)

end
