(* ===== verification/Go_Numbers.thy ===== *)
theory Go_Numbers
  imports Prelude "HOL-Library.Signed_Division"
begin

text \<open>
  The part of \<open>math/big\<close> and \<open>strconv\<close> the program uses: decimal text of integers
  (\<open>Int.String\<close>, \<open>Int.SetString(s, 10)\<close>), big-endian bytes (\<open>Int.SetBytes\<close>), truncated
  division (\<open>Int.Quo\<close>), and \<open>strconv.Atoi\<close>. The contract between the code that prints an
  amount and the code that reads it back is the locale \<open>decimal_codec\<close>.
\<close>

section \<open>Decimal text\<close>

definition digit_char :: "nat \<Rightarrow> char" where
  "digit_char d = char_of (48 + d)"

definition is_digit :: "char \<Rightarrow> bool" where
  "is_digit c \<longleftrightarrow> 48 \<le> (of_char c :: nat) \<and> (of_char c :: nat) \<le> 57"

definition digit_val :: "char \<Rightarrow> nat" where
  "digit_val c = of_char c - 48"

fun nat_text :: "nat \<Rightarrow> string" where
  "nat_text n = (if n < 10 then [digit_char n] else nat_text (n div 10) @ [digit_char (n mod 10)])"

declare nat_text.simps [simp del]

fun digits_val :: "nat \<Rightarrow> string \<Rightarrow> nat" where
  "digits_val a [] = a"
| "digits_val a (c # cs) = digits_val (10 * a + digit_val c) cs"

definition parse_digits :: "string \<Rightarrow> nat option" where
  "parse_digits s = (if s \<noteq> [] \<and> list_all is_digit s then Some (digits_val 0 s) else None)"

definition big_String :: "int \<Rightarrow> string" where
  "big_String i = (if i < 0 then CHR ''-'' # nat_text (nat (- i)) else nat_text (nat i))"

definition big_SetString :: "string \<Rightarrow> int option" where
  "big_SetString s =
     (case s of
        [] \<Rightarrow> None
      | c # cs \<Rightarrow>
          if c = CHR ''-'' then map_option (\<lambda>n. - int n) (parse_digits cs)
          else if c = CHR ''+'' then map_option int (parse_digits cs)
          else map_option int (parse_digits s))"

text \<open>A nil \<open>*big.Int\<close> prints as \<open><nil>\<close>.\<close>

definition bigp_String :: "int option \<Rightarrow> string" where
  "bigp_String p = (case p of None \<Rightarrow> ''<nil>'' | Some i \<Rightarrow> big_String i)"

definition big_Quo :: "int \<Rightarrow> int \<Rightarrow> int" where
  "big_Quo a b = a sdiv b"

definition big_SetBytes :: "bytes \<Rightarrow> int" where
  "big_SetBytes bs = foldl (\<lambda>a b. 256 * a + uint b) 0 bs"

text \<open>\<open>Int.Uint64\<close>: the low 64 bits of the magnitude.\<close>

definition big_Uint64 :: "int \<Rightarrow> u64" where
  "big_Uint64 i = word_of_int (abs i)"

text \<open>
  \<open>strconv.Atoi\<close> on a 64-bit platform: the value and whether an error is returned. A syntax
  error returns 0, a value out of range the nearest bound.
\<close>

definition strconv_Atoi :: "string \<Rightarrow> int \<times> bool" where
  "strconv_Atoi s =
     (case big_SetString s of
        None \<Rightarrow> (0, True)
      | Some i \<Rightarrow>
          if 2 ^ 63 \<le> i then (2 ^ 63 - 1, True)
          else if i < - (2 ^ 63) then (- (2 ^ 63), True)
          else (i, False))"

section \<open>Lemmas\<close>

lemma is_digit_digit_char [simp]: "d < 10 \<Longrightarrow> is_digit (digit_char d)"
  by (simp add: is_digit_def digit_char_def)

lemma digit_val_digit_char [simp]: "d < 10 \<Longrightarrow> digit_val (digit_char d) = d"
  by (simp add: digit_val_def digit_char_def)

lemma nat_text_not_Nil [simp]: "nat_text n \<noteq> []"
  by (subst nat_text.simps) simp

lemma nat_text_digits: "list_all is_digit (nat_text n)"
proof (induction n rule: nat_text.induct)
  case (1 n)
  then show ?case by (subst nat_text.simps) auto
qed

lemma digits_val_append: "digits_val a (s @ t) = digits_val (digits_val a s) t"
  by (induction s arbitrary: a) auto

lemma digits_val_nat_text: "digits_val 0 (nat_text n) = n"
proof (induction n rule: nat_text.induct)
  case (1 n)
  then show ?case by (subst nat_text.simps) (auto simp: digits_val_append)
qed

lemma parse_digits_nat_text [simp]: "parse_digits (nat_text n) = Some n"
  by (simp add: parse_digits_def nat_text_digits digits_val_nat_text)

lemma sign_not_digit [simp]: "\<not> is_digit (CHR ''-'')" "\<not> is_digit (CHR ''+'')" "\<not> is_digit (CHR '','')"
  by (simp_all add: is_digit_def)

lemma nat_text_Cons_digit: "nat_text n = c # cs \<Longrightarrow> is_digit c"
  using nat_text_digits [of n] by simp

lemma big_SetString_nat_text: "big_SetString (nat_text n) = Some (int n)"
proof (cases "nat_text n")
  case (Cons c cs)
  then have "is_digit c" by (rule nat_text_Cons_digit)
  then have "c \<noteq> CHR ''-''" "c \<noteq> CHR ''+''" by auto
  with Cons show ?thesis
    using parse_digits_nat_text [of n] by (simp add: big_SetString_def)
qed simp

lemma big_SetString_String: "big_SetString (big_String i) = Some i"
  by (auto simp: big_String_def big_SetString_nat_text) (simp add: big_SetString_def)

lemma big_SetString_Some_iff:
  "(\<exists>i. big_SetString s = Some i) \<longleftrightarrow>
     (\<exists>sg ds. s = sg @ ds \<and> (sg = [] \<or> sg = ''-'' \<or> sg = ''+'') \<and> ds \<noteq> [] \<and> list_all is_digit ds)"
  (is "?l \<longleftrightarrow> ?r")
proof
  assume ?l
  then obtain i where i: "big_SetString s = Some i" ..
  then obtain c cs where s: "s = c # cs" by (cases s) (simp_all add: big_SetString_def)
  show ?r
  proof (cases "c = CHR ''-'' \<or> c = CHR ''+''")
    case True
    with i s have "parse_digits cs \<noteq> None" by (auto simp: big_SetString_def)
    then have "cs \<noteq> [] \<and> list_all is_digit cs" by (auto simp: parse_digits_def split: if_splits)
    with True s show ?thesis by (intro exI [of _ "[c]"] exI [of _ cs]) auto
  next
    case False
    with i s have "parse_digits s \<noteq> None" by (auto simp: big_SetString_def)
    then have "s \<noteq> [] \<and> list_all is_digit s" by (auto simp: parse_digits_def split: if_splits)
    then show ?thesis by (intro exI [of _ "[]"] exI [of _ s]) auto
  qed
next
  assume ?r
  then obtain sg ds where s: "s = sg @ ds" and sg: "sg = [] \<or> sg = ''-'' \<or> sg = ''+''"
    and ds: "ds \<noteq> []" "list_all is_digit ds" by blast
  then have "parse_digits ds = Some (digits_val 0 ds)" by (simp add: parse_digits_def)
  with s sg ds show ?l
    by (cases ds) (auto simp: big_SetString_def)
qed

lemma big_String_digits_nonneg: "0 \<le> i \<Longrightarrow> list_all is_digit (big_String i)"
  by (simp add: big_String_def nat_text_digits)

section \<open>The decimal contract\<close>

locale decimal_codec =
  fixes enc :: "int \<Rightarrow> string" and dec :: "string \<Rightarrow> int option"
  assumes dec_enc: "dec (enc i) = Some i"
begin

lemma enc_inject: "enc i = enc j \<longleftrightarrow> i = j"
  using dec_enc by (metis option.inject)

lemma enc_dec_canonical: "dec s = Some i \<Longrightarrow> dec (enc i) = dec s"
  by (simp add: dec_enc)

text \<open>Two parties that compare printed numbers compare the numbers.\<close>

lemma compare_text: "dec s = Some i \<Longrightarrow> s = enc j \<Longrightarrow> i = j"
  by (simp add: dec_enc)

end

interpretation big: decimal_codec big_String big_SetString
  by unfold_locales (rule big_SetString_String)

end
