(* ===== verification/Amounts.thy ===== *)
theory Amounts
  imports Go_Numbers
begin

text \<open>
  How amounts are written for people: \<open>wfusd\<close> and \<open>fmtWFUSD\<close> of internal/demo/demo.go and
  \<open>humanWFUSD\<close> of internal/webui/server.go. Amounts travel as decimal text in base units;
  the token has six decimals. \<open>group_loop\<close> is the loop both functions run to cut the digits
  into groups of three, and \<open>thousands\<close> that loop with its final join.
\<close>

section \<open>Definitions\<close>

function group_loop :: "string \<Rightarrow> string list \<Rightarrow> string list" where
  "group_loop q parts =
     (if 3 < length q
      then group_loop (take (length q - 3) q) (drop (length q - 3) q # parts)
      else q # parts)"
  by pat_completeness auto
termination
  by (relation "measure (\<lambda>(q, _). length q)") auto

declare group_loop.simps [simp del]

definition thousands :: "string \<Rightarrow> string" where
  "thousands q = join '','' (group_loop q [])"

definition humanWFUSD :: "int \<Rightarrow> string" where
  "humanWFUSD v = thousands (big_String (big_Quo v 1000000))"

text \<open>\<open>wfusd\<close> drops the flag of \<open>SetString\<close>, so a bad literal makes \<open>n\<close> nil and \<open>n.Mul\<close> panics.\<close>

definition wfusd :: "string \<Rightarrow> string outcome" where
  "wfusd whole =
     (case big_SetString whole of
        None \<Rightarrow> Panic
      | Some n \<Rightarrow> Done (big_String (n * 1000000)))"

definition fmtWFUSD :: "string \<Rightarrow> string" where
  "fmtWFUSD base =
     (let n = (case big_SetString base of None \<Rightarrow> 0 | Some n \<Rightarrow> n)
      in thousands (big_String (big_Quo n 1000000)) @ '' WFUSD'')"

section \<open>Lemmas\<close>

text \<open>The text of a group of digits: the groups in front are short or three long.\<close>

definition grouped :: "string list \<Rightarrow> bool" where
  "grouped gs \<longleftrightarrow> gs \<noteq> [] \<and> length (hd gs) \<le> 3 \<and> (\<forall>g \<in> set (tl gs). length g = 3)"

lemma group_loop_long:
  "3 < length q \<Longrightarrow>
     group_loop q parts = group_loop (take (length q - 3) q) (drop (length q - 3) q # parts)"
  by (subst group_loop.simps) (simp only: if_True)

lemma group_loop_short: "\<not> 3 < length q \<Longrightarrow> group_loop q parts = q # parts"
  by (subst group_loop.simps) (simp only: if_False)

lemma concat_group_loop: "concat (group_loop q parts) = q @ concat parts"
proof (induction q parts rule: group_loop.induct)
  case (1 q parts)
  show ?case
  proof (cases "3 < length q")
    case True
    from "1.IH" [OF True] show ?thesis
      unfolding group_loop_long [OF True] by (simp flip: append_assoc)
  qed (simp add: group_loop_short)
qed

lemma grouped_group_loop:
  "\<forall>g \<in> set parts. length g = 3 \<Longrightarrow> grouped (group_loop q parts)"
proof (induction q parts rule: group_loop.induct)
  case (1 q parts)
  show ?case
  proof (cases "3 < length q")
    case True
    with "1.prems" have "\<forall>g \<in> set (drop (length q - 3) q # parts). length g = 3" by simp
    from "1.IH" [OF True this] show ?thesis unfolding group_loop_long [OF True] .
  next
    case False
    with "1.prems" show ?thesis by (simp add: group_loop_short grouped_def)
  qed
qed

lemma group_loop_head: "q \<noteq> [] \<Longrightarrow> hd (group_loop q parts) \<noteq> []"
proof (induction q parts rule: group_loop.induct)
  case (1 q parts)
  show ?case
  proof (cases "3 < length q")
    case True
    then have "take (length q - 3) q \<noteq> []" by auto
    from "1.IH" [OF True this] show ?thesis unfolding group_loop_long [OF True] .
  next
    case False
    with "1.prems" show ?thesis by (simp add: group_loop_short)
  qed
qed

lemma ungroup_thousands:
  assumes "list_all (\<lambda>c. c \<noteq> CHR '','') q"
  shows "filter (\<lambda>c. c \<noteq> CHR '','') (thousands q) = q"
proof -
  have c: "concat (group_loop q []) = q" by (simp add: concat_group_loop)
  with assms have "list_all (\<lambda>c. c \<noteq> CHR '','') (concat (group_loop q []))" by simp
  then have "\<forall>g \<in> set (group_loop q []). list_all (\<lambda>c. c \<noteq> CHR '','') g"
    unfolding list_all_iff by auto
  then have "filter (\<lambda>c. c \<noteq> CHR '','') (thousands q) = concat (group_loop q [])"
    unfolding thousands_def by (rule filter_join) simp
  with c show ?thesis by simp
qed

lemma big_String_no_comma: "list_all (\<lambda>c. c \<noteq> CHR '','') (big_String i)"
proof -
  have "list_all (\<lambda>c. c \<noteq> CHR '','') (nat_text n)" for n
    using nat_text_digits [of n] by (auto simp: list_all_iff)
  then show ?thesis by (simp add: big_String_def)
qed

lemma ungroup_human: "filter (\<lambda>c. c \<noteq> CHR '','') (humanWFUSD v) = big_String (big_Quo v 1000000)"
  unfolding humanWFUSD_def by (rule ungroup_thousands) (rule big_String_no_comma)

lemma big_Quo_nonneg: "0 \<le> v \<Longrightarrow> big_Quo v 1000000 = v div 1000000"
  by (cases "v = 0") (simp_all add: big_Quo_def signed_divide_int_def)

lemma big_Quo_mult: "big_Quo (n * 1000000) 1000000 = n"
  by (simp add: big_Quo_def signed_divide_int_def abs_mult sgn_mult) (metis mult.commute abs_sgn abs_mult_sgn)

section \<open>Properties\<close>

text \<open>
  Reading back what a person sees: with its commas removed, the text \<open>humanWFUSD\<close> shows
  for a balance parses to the whole tokens of that balance, and what the display drops is less
  than one token.
\<close>

lemma humanWFUSD_reads_back:
  assumes "0 \<le> v"
  shows "\<exists>w. big_SetString (filter (\<lambda>c. c \<noteq> CHR '','') (humanWFUSD v)) = Some w
           \<and> w * 1000000 \<le> v \<and> v < (w + 1) * 1000000"
proof (intro exI conjI)
  show "big_SetString (filter (\<lambda>c. c \<noteq> CHR '','') (humanWFUSD v)) = Some (v div 1000000)"
    using assms by (simp add: ungroup_human big_Quo_nonneg big.dec_enc)
qed presburger+

end
