(* ===== verification/Go_Json.thy ===== *)
theory Go_Json
  imports Go_Numbers "HOL-Library.List_Lexorder" "HOL-Library.Char_ord"
begin

text \<open>
  The part of \<open>encoding/json\<close> the services use, on JSON values: decoding a value into a Go
  struct (fields matched by exact name first and then by Go's case folding, unknown members
  skipped, \<open>null\<close> a no-op, a value of the wrong type remembered as the error while decoding
  goes on) and encoding maps (keys sorted). The lexical level, from text to values, is not
  modelled: a message body is a JSON value or a text that is none.
\<close>

section \<open>Values and bodies\<close>

text \<open>A number is kept as its literal, so integers print exactly.\<close>

datatype json =
    JNull
  | JBool bool
  | JNum string
  | JStr string
  | JArr "json list"
  | JObj "(string \<times> json) list"

datatype body = Json json | Text string

text \<open>The destination of a decode and the Go value it holds.\<close>

datatype schema =
    SStr
  | SInt
  | SSlice schema
  | SStruct "(string \<times> schema) list"

datatype dval =
    DStr string
  | DInt int
  | DSlice "dval list"
  | DStruct "(string \<times> dval) list"

datatype json_error = JSyntax | JType

fun zero_val :: "schema \<Rightarrow> dval" and zero_fields :: "(string \<times> schema) list \<Rightarrow> (string \<times> dval) list" where
  "zero_val SStr = DStr []"
| "zero_val SInt = DInt 0"
| "zero_val (SSlice s) = DSlice []"
| "zero_val (SStruct fs) = DStruct (zero_fields fs)"
| "zero_fields [] = []"
| "zero_fields ((n, s) # fs) = (n, zero_val s) # zero_fields fs"

section \<open>Field names\<close>

text \<open>
  \<open>foldName\<close>: ASCII letters to upper case, and the two other code points whose case orbit
  holds an ASCII letter, the Kelvin sign (E2 84 AA) and the long s (C5 BF). Other bytes never
  fold to ASCII, and every field name of the program is ASCII.
\<close>

definition upper_char :: "char \<Rightarrow> char" where
  "upper_char c = (let n = (of_char c :: nat) in if 97 \<le> n \<and> n \<le> 122 then char_of (n - 32) else c)"

fun fold_name :: "string \<Rightarrow> string" where
  "fold_name [] = []"
| "fold_name (a # s) =
     (case s of
        b # t \<Rightarrow>
          if a = CHR 0xC5 \<and> b = CHR 0xBF then CHR ''S'' # fold_name t
          else (case t of
                  c # u \<Rightarrow>
                    if a = CHR 0xE2 \<and> b = CHR 0x84 \<and> c = CHR 0xAA then CHR ''K'' # fold_name u
                    else upper_char a # fold_name s
                | [] \<Rightarrow> upper_char a # fold_name s)
      | [] \<Rightarrow> [upper_char a])"

definition match_field :: "(string \<times> schema) list \<Rightarrow> string \<Rightarrow> (string \<times> schema) option" where
  "match_field fs k =
     (case find (\<lambda>(n, _). n = k) fs of
        Some f \<Rightarrow> Some f
      | None \<Rightarrow> find (\<lambda>(n, _). fold_name n = fold_name k) fs)"

fun get_field :: "string \<Rightarrow> (string \<times> dval) list \<Rightarrow> dval option" where
  "get_field n [] = None"
| "get_field n ((m, v) # vs) = (if n = m then Some v else get_field n vs)"

fun set_field :: "string \<Rightarrow> dval \<Rightarrow> (string \<times> dval) list \<Rightarrow> (string \<times> dval) list" where
  "set_field n x [] = []"
| "set_field n x ((m, v) # vs) = (if n = m then (m, x) # vs else (m, v) # set_field n x vs)"

section \<open>Decoding\<close>

text \<open>\<open>decode s j v\<close> decodes \<open>j\<close> over the value \<open>v\<close>: the new value, and whether a type error was met.\<close>

function (sequential) decode :: "schema \<Rightarrow> json \<Rightarrow> dval \<Rightarrow> dval \<times> bool"
  and decode_elems :: "schema \<Rightarrow> json list \<Rightarrow> dval list \<times> bool"
  and decode_members :: "(string \<times> schema) list \<Rightarrow> (string \<times> json) list \<Rightarrow> (string \<times> dval) list
         \<Rightarrow> (string \<times> dval) list \<times> bool" where
  "decode (SSlice s) JNull v = (DSlice [], False)"
| "decode s JNull v = (v, False)"
| "decode SStr (JStr t) v = (DStr t, False)"
| "decode SInt (JNum t) v =
     (case strconv_Atoi t of (i, err) \<Rightarrow> if err then (v, True) else (DInt i, False))"
| "decode (SSlice s) (JArr js) v =
     (case decode_elems s js of (ds, err) \<Rightarrow> (DSlice ds, err))"
| "decode (SStruct fs) (JObj kvs) (DStruct vs) =
     (case decode_members fs kvs vs of (vs', err) \<Rightarrow> (DStruct vs', err))"
| "decode s j v = (v, True)"
| "decode_elems s [] = ([], False)"
| "decode_elems s (j # js) =
     (case decode s j (zero_val s) of (d, e1) \<Rightarrow>
        (case decode_elems s js of (ds, e2) \<Rightarrow> (d # ds, e1 \<or> e2)))"
| "decode_members fs [] vs = (vs, False)"
| "decode_members fs ((k, j) # kvs) vs =
     (case match_field fs k of
        None \<Rightarrow> decode_members fs kvs vs
      | Some (n, s) \<Rightarrow>
          (case get_field n vs of
             None \<Rightarrow> decode_members fs kvs vs
           | Some v \<Rightarrow>
               (case decode s j v of (v', e1) \<Rightarrow>
                  (case decode_members fs kvs (set_field n v' vs) of (vs', e2) \<Rightarrow> (vs', e1 \<or> e2)))))"
  by pat_completeness auto
termination
  by (relation "measure (\<lambda>x. case x of
        Inl (s, j, v) \<Rightarrow> size j
      | Inr (Inl (s, js)) \<Rightarrow> size_list size js
      | Inr (Inr (fs, kvs, vs)) \<Rightarrow> size_list (size_prod (\<lambda>_. 0) size) kvs)") auto

text \<open>\<open>Decode(&v)\<close> of a body into a fresh variable.\<close>

definition decode_body :: "schema \<Rightarrow> body \<Rightarrow> dval \<times> json_error option" where
  "decode_body s b =
     (case b of
        Text _ \<Rightarrow> (zero_val s, Some JSyntax)
      | Json j \<Rightarrow> (case decode s j (zero_val s) of (v, err) \<Rightarrow> (v, if err then Some JType else None)))"

text \<open>Reading the fields of the decoded struct.\<close>

fun str_field :: "string \<Rightarrow> dval \<Rightarrow> string" where
  "str_field n (DStruct vs) = (case get_field n vs of Some (DStr t) \<Rightarrow> t | _ \<Rightarrow> [])"
| "str_field n _ = []"

fun int_field :: "string \<Rightarrow> dval \<Rightarrow> int" where
  "int_field n (DStruct vs) = (case get_field n vs of Some (DInt i) \<Rightarrow> i | _ \<Rightarrow> 0)"
| "int_field n _ = 0"

fun struct_field :: "string \<Rightarrow> dval \<Rightarrow> dval" where
  "struct_field n (DStruct vs) = (case get_field n vs of Some v \<Rightarrow> v | None \<Rightarrow> DStruct [])"
| "struct_field n _ = DStruct []"

section \<open>Encoding\<close>

text \<open>\<open>json.Marshal\<close> of a map: the members in the order of their keys.\<close>

definition jmap :: "(string \<times> json) list \<Rightarrow> json" where
  "jmap kvs = JObj (sort_key fst kvs)"

definition jint :: "int \<Rightarrow> json" where
  "jint i = JNum (big_String i)"

lemma match_field_exact: "find (\<lambda>(n, _). n = k) fs = Some f \<Longrightarrow> match_field fs k = Some f"
  by (simp add: match_field_def)

lemma decode_body_Text [simp]: "decode_body s (Text t) = (zero_val s, Some JSyntax)"
  by (simp add: decode_body_def)

end
