(* ===== verification/Chainx.thy ===== *)
theory Chainx
  imports Prelude
begin

text \<open>
  internal/chainx/abis.go: the contract ABIs the deposit service calls, as the tables their
  JSON literals denote, and the signature text of an entry, from which the 4-byte selector is
  computed by the ABI library.
\<close>

section \<open>ABI types and entries\<close>

datatype abi_type = AddressTy | UintTy nat | BoolTy | StringTy

record abi_arg =
  arg_name :: string
  arg_type :: abi_type
  arg_indexed :: bool

datatype abi_entry =
    AbiFunction (entry_name: string) (state_mut: string) (inputs: "abi_arg list") (outputs: "abi_arg list")
  | AbiEvent (entry_name: string) (inputs: "abi_arg list")

type_synonym abi = "abi_entry list"

abbreviation arg :: "string \<Rightarrow> abi_type \<Rightarrow> abi_arg" where
  "arg n t \<equiv> \<lparr>arg_name = n, arg_type = t, arg_indexed = False\<rparr>"

abbreviation indexed_arg :: "string \<Rightarrow> abi_type \<Rightarrow> abi_arg" where
  "indexed_arg n t \<equiv> \<lparr>arg_name = n, arg_type = t, arg_indexed = True\<rparr>"

section \<open>The four ABIs\<close>

definition TokenAuthority_abi :: abi where
  "TokenAuthority_abi =
     [AbiFunction ''mint'' ''nonpayable''
        [arg ''stablecoin'' AddressTy, arg ''to'' AddressTy, arg ''amount'' (UintTy 256)] [],
      AbiFunction ''burn'' ''nonpayable''
        [arg ''stablecoin'' AddressTy, arg ''amount'' (UintTy 256)] []]"

definition DepositToken_abi :: abi where
  "DepositToken_abi =
     [AbiFunction ''transfer'' ''nonpayable''
        [arg ''to'' AddressTy, arg ''amount'' (UintTy 256)] [arg '''' BoolTy],
      AbiFunction ''balanceOf'' ''view'' [arg ''account'' AddressTy] [arg '''' (UintTy 256)],
      AbiFunction ''totalSupply'' ''view'' [] [arg '''' (UintTy 256)],
      AbiFunction ''name'' ''view'' [] [arg '''' StringTy],
      AbiFunction ''symbol'' ''view'' [] [arg '''' StringTy],
      AbiFunction ''decimals'' ''view'' [] [arg '''' (UintTy 8)]]"

definition ReserveLedger_abi :: abi where
  "ReserveLedger_abi = [AbiFunction ''totalSupply'' ''view'' [] [arg '''' (UintTy 256)]]"

definition AuthRegistry_abi :: abi where
  "AuthRegistry_abi =
     [AbiFunction ''modifyPolicyWhitelist'' ''nonpayable''
        [arg ''policyId'' (UintTy 64), arg ''account'' AddressTy, arg ''allowed'' BoolTy] [],
      AbiFunction ''isAuthorized'' ''view''
        [arg ''policyId'' (UintTy 64), arg ''account'' AddressTy] [arg '''' BoolTy]]"

section \<open>Signature text\<close>

fun type_text :: "abi_type \<Rightarrow> string" where
  "type_text AddressTy = ''address''"
| "type_text (UintTy n) =
     (if n = 8 then ''uint8'' else if n = 64 then ''uint64'' else if n = 256 then ''uint256'' else ''uint'')"
| "type_text BoolTy = ''bool''"
| "type_text StringTy = ''string''"

definition sig_text :: "abi_entry \<Rightarrow> string" where
  "sig_text e = entry_name e @ ''('' @ join '','' (map (type_text \<circ> arg_type) (inputs e)) @ '')''"

definition abi_lookup :: "abi \<Rightarrow> string \<Rightarrow> abi_entry option" where
  "abi_lookup a n = find (\<lambda>e. entry_name e = n) a"

end
