(* ===== verification/Lib.thy ===== *)
theory Lib
  imports Go_Json Chainx
begin

text \<open>
  The third-party library as a parameter. \<open>lib\<close> is a record of the go-ethereum functions the
  program calls (common, hexutil, crypto, core/types, accounts/abi) and of three texts
  of the standard library (\<open>%q\<close> quoting, the text of a JSON error and the raw text of a body); private keys and signed
  transactions are the opaque types \<open>'sk\<close> and \<open>'stx\<close>. What a theorem relies on is one of the
  named hypotheses below, each a documented fact of the library.
\<close>

section \<open>Data exchanged with the library\<close>

text \<open>Go's \<open>any\<close>, as far as ABI packing and unpacking produce it.\<close>

datatype any =
    ANil
  | AAddress address
  | ABigInt int
  | ABool bool
  | AUint8 "8 word"
  | AUint64 u64
  | AString string

record DynamicFeeTx =
  tx_ChainID :: int
  tx_Nonce :: u64
  tx_To :: address
  tx_Value :: int
  tx_Data :: bytes
  tx_GasTipCap :: int
  tx_GasFeeCap :: int
  tx_Gas :: u64

record ('sk, 'stx) lib =
  \<comment> \<open>common, hexutil\<close>
  HexToAddress :: "string \<Rightarrow> address"
  AddressHex :: "address \<Rightarrow> string"
  BytesToAddress :: "bytes \<Rightarrow> address"
  HexToHash :: "string \<Rightarrow> bytes"
  HashHex :: "bytes \<Rightarrow> string"
  hexutilDecode :: "string \<Rightarrow> bytes res"
  hexutilEncode :: "bytes \<Rightarrow> string"
  Bytes2Hex :: "bytes \<Rightarrow> string"
  \<comment> \<open>crypto\<close>
  HexToECDSA :: "string \<Rightarrow> 'sk res"
  PubkeyToAddress :: "'sk \<Rightarrow> address"
  cryptoSign :: "bytes \<Rightarrow> 'sk \<Rightarrow> bytes res"
  Keccak256 :: "bytes \<Rightarrow> bytes"
  \<comment> \<open>core/types, with the signer \<open>LatestSignerForChainID(1337)\<close>\<close>
  SignerHash :: "DynamicFeeTx \<Rightarrow> bytes"
  WithSignature :: "DynamicFeeTx \<Rightarrow> bytes \<Rightarrow> 'stx res"
  Sender :: "'stx \<Rightarrow> address res"
  StxHash :: "'stx \<Rightarrow> bytes"
  StxTo :: "'stx \<Rightarrow> address option"
  StxData :: "'stx \<Rightarrow> bytes"
  StxValue :: "'stx \<Rightarrow> int"
  StxNonce :: "'stx \<Rightarrow> u64"
  StxType :: "'stx \<Rightarrow> byte"
  StxGas :: "'stx \<Rightarrow> u64"
  \<comment> \<open>accounts/abi\<close>
  Pack :: "abi \<Rightarrow> string \<Rightarrow> any list \<Rightarrow> bytes res"
  Unpack :: "abi \<Rightarrow> string \<Rightarrow> bytes \<Rightarrow> any list res"
  MethodById :: "abi \<Rightarrow> bytes \<Rightarrow> abi_entry res"
  EventByID :: "abi \<Rightarrow> bytes \<Rightarrow> abi_entry res"
  ArgsUnpack :: "abi_arg list \<Rightarrow> bytes \<Rightarrow> any list res"
  \<comment> \<open>diagnostics texts\<close>
  quote :: "string \<Rightarrow> string"
  jsonErrText :: "json_error \<Rightarrow> string"
  bodyText :: "body \<Rightarrow> string"

section \<open>Named hypotheses\<close>

text \<open>\<open>hexutil\<close>: \<open>Encode\<close> writes 0x and two digits per byte, \<open>Decode\<close> reads that form back.\<close>

definition hexutil_ok :: "('sk, 'stx) lib \<Rightarrow> bool" where
  "hexutil_ok L \<longleftrightarrow>
     (\<forall>b. hexutilDecode L (hexutilEncode L b) = Ok b) \<and>
     (\<forall>s b. hexutilDecode L s = Ok b \<longrightarrow> length s = 2 + 2 * length b)"

text \<open>\<open>Address.Hex\<close> is read back by \<open>HexToAddress\<close>.\<close>

definition address_hex_ok :: "('sk, 'stx) lib \<Rightarrow> bool" where
  "address_hex_ok L \<longleftrightarrow> (\<forall>a. HexToAddress L (AddressHex L a) = a)"

text \<open>A signing hash is 32 bytes, and a signature is 65 bytes when the hash is.\<close>

definition signer_ok :: "('sk, 'stx) lib \<Rightarrow> bool" where
  "signer_ok L \<longleftrightarrow> (\<forall>tx. length (SignerHash L tx) = 32)"

lemma hexutil_decode_encode: "hexutil_ok L \<Longrightarrow> hexutilDecode L (hexutilEncode L b) = Ok b"
  by (simp add: hexutil_ok_def)

lemma hexutil_decode_length: "hexutil_ok L \<Longrightarrow> hexutilDecode L s = Ok b \<Longrightarrow> length s = 2 + 2 * length b"
  by (simp add: hexutil_ok_def)

lemma address_hex_round: "address_hex_ok L \<Longrightarrow> HexToAddress L (AddressHex L a) = a"
  by (simp add: address_hex_ok_def)

end
