(* ===== verification/Http.thy ===== *)
theory Http
  imports Go_Json
begin

text \<open>
  The part of \<open>net/http\<close> the services use: requests, responses, the \<open>ServeMux\<close> patterns
  "METHOD /path" (a GET pattern also serves HEAD; a known path with another method is 405, an
  unknown path 404), and the two writers every server of the program has. Path cleaning and
  redirects are not modelled.
\<close>

record request =
  rq_method :: string
  rq_path :: string
  rq_query :: "string \<Rightarrow> string"
  rq_body :: body

record response =
  rs_status :: nat
  rs_body :: body

text \<open>An outgoing request: the whole URL instead of a path.\<close>

record http_req =
  hq_method :: string
  hq_url :: string
  hq_body :: body

datatype 'h route = Route 'h | NotAllowed | NotFound

definition pattern_method :: "string \<Rightarrow> string \<Rightarrow> bool" where
  "pattern_method p m \<longleftrightarrow> m = p \<or> (p = ''GET'' \<and> m = ''HEAD'')"

definition mux_find :: "(string \<times> string \<times> 'h) list \<Rightarrow> request \<Rightarrow> 'h route" where
  "mux_find mux r =
     (case find (\<lambda>(m, p, _). p = rq_path r \<and> pattern_method m (rq_method r)) mux of
        Some (_, _, h) \<Rightarrow> Route h
      | None \<Rightarrow> if \<exists>x \<in> set mux. fst (snd x) = rq_path r then NotAllowed else NotFound)"

definition not_found :: response where
  "not_found = \<lparr>rs_status = 404, rs_body = Text ''404 page not found''\<rparr>"

definition not_allowed :: response where
  "not_allowed = \<lparr>rs_status = 405, rs_body = Text ''Method Not Allowed''\<rparr>"

definition writeJSON :: "nat \<Rightarrow> json \<Rightarrow> response" where
  "writeJSON status v = \<lparr>rs_status = status, rs_body = Json v\<rparr>"

definition writeErr :: "nat \<Rightarrow> string \<Rightarrow> response" where
  "writeErr status msg = writeJSON status (jmap [(''error'', JStr msg)])"

lemma rs_status_writeJSON [simp]: "rs_status (writeJSON s v) = s"
  by (simp add: writeJSON_def)

lemma rs_status_writeErr [simp]: "rs_status (writeErr s m) = s"
  by (simp add: writeErr_def)

lemma writeErr_neq_ok: "s \<noteq> 200 \<Longrightarrow> writeErr s m \<noteq> writeJSON 200 v"
  by (metis rs_status_writeErr rs_status_writeJSON)

end
