(* ===== verification/Go_Strings.thy ===== *)
theory Go_Strings
  imports Prelude "HOL-Library.Sublist"
begin

text \<open>
  The functions of \<open>strings\<close> the program uses on byte strings: \<open>Split\<close> at a one-byte separator,
  \<open>TrimSpace\<close> and \<open>Repeat\<close>. White space is Unicode's, as the UTF-8 encodings of its code points.
\<close>

fun strings_Split :: "char \<Rightarrow> string \<Rightarrow> string list" where
  "strings_Split sep [] = [[]]"
| "strings_Split sep (c # cs) =
     (if c = sep then [] # strings_Split sep cs
      else case strings_Split sep cs of
             [] \<Rightarrow> [[c]]
           | x # xs \<Rightarrow> (c # x) # xs)"

text \<open>\<open>unicode.IsSpace\<close>: six ASCII characters, U+0085, U+00A0, U+1680, U+2000 to U+200A,
  U+2028, U+2029, U+202F, U+205F, U+3000.\<close>

definition space_runes :: "string list" where
  "space_runes =
     [[CHR 0x09], [CHR 0x0A], [CHR 0x0B], [CHR 0x0C], [CHR 0x0D], [CHR 0x20],
      [CHR 0xC2, CHR 0x85], [CHR 0xC2, CHR 0xA0], [CHR 0xE1, CHR 0x9A, CHR 0x80],
      [CHR 0xE2, CHR 0x80, CHR 0x80], [CHR 0xE2, CHR 0x80, CHR 0x81], [CHR 0xE2, CHR 0x80, CHR 0x82],
      [CHR 0xE2, CHR 0x80, CHR 0x83], [CHR 0xE2, CHR 0x80, CHR 0x84], [CHR 0xE2, CHR 0x80, CHR 0x85],
      [CHR 0xE2, CHR 0x80, CHR 0x86], [CHR 0xE2, CHR 0x80, CHR 0x87], [CHR 0xE2, CHR 0x80, CHR 0x88],
      [CHR 0xE2, CHR 0x80, CHR 0x89], [CHR 0xE2, CHR 0x80, CHR 0x8A], [CHR 0xE2, CHR 0x80, CHR 0xA8],
      [CHR 0xE2, CHR 0x80, CHR 0xA9], [CHR 0xE2, CHR 0x80, CHR 0xAF], [CHR 0xE2, CHR 0x81, CHR 0x9F],
      [CHR 0xE3, CHR 0x80, CHR 0x80]]"

text \<open>Removing, from the front, the encodings \<open>rs\<close>; every entry is non-empty.\<close>

function trim_front :: "string list \<Rightarrow> string \<Rightarrow> string" where
  "trim_front rs s =
     (case find (\<lambda>r. r \<noteq> [] \<and> prefix r s) rs of
        None \<Rightarrow> s
      | Some r \<Rightarrow> trim_front rs (drop (length r) s))"
  by pat_completeness auto
termination
proof (relation "measure (\<lambda>(_, s). length s)", goal_cases)
  case (2 rs s r)
  then have "r \<noteq> [] \<and> prefix r s" by (auto dest: find_SomeD)
  then have "0 < length r" and "length r \<le> length s" by (auto simp: prefix_length_le)
  then have "length s - length r < length s" by linarith
  then show ?case by simp
qed simp

declare trim_front.simps [simp del]

definition strings_TrimSpace :: "string \<Rightarrow> string" where
  "strings_TrimSpace s =
     rev (trim_front (map rev space_runes) (rev (trim_front space_runes s)))"

definition strings_Repeat :: "string \<Rightarrow> nat \<Rightarrow> string" where
  "strings_Repeat s n = concat (replicate n s)"

text \<open>\<open>strings.TrimRight\<close> with a cutset of one ASCII character.\<close>

definition strings_TrimRight :: "char \<Rightarrow> string \<Rightarrow> string" where
  "strings_TrimRight c s = rev (dropWhile (\<lambda>x. x = c) (rev s))"

lemma strings_Split_not_Nil [simp]: "strings_Split sep s \<noteq> []"
  by (induction s) (auto split: list.splits)

lemma join_strings_Split: "join [sep] (strings_Split sep s) = s"
proof (induction s)
  case (Cons c s)
  then show ?case by (cases "strings_Split sep s") (auto simp: join_Cons, cases "tl (strings_Split sep s)", auto)
qed simp

lemma strings_Split_no_sep: "sep \<notin> set s \<Longrightarrow> strings_Split sep s = [s]"
  by (induction s) auto

lemma strings_Split_piece: "sep \<notin> set s \<Longrightarrow> strings_Split sep (s @ sep # t) = s # strings_Split sep t"
  by (induction s) auto

lemma strings_Split_join:
  "ls \<noteq> [] \<Longrightarrow> \<forall>l \<in> set ls. sep \<notin> set l \<Longrightarrow> strings_Split sep (join [sep] ls) = ls"
proof (induction ls)
  case (Cons l ls)
  then show ?case by (cases ls) (simp_all add: strings_Split_no_sep strings_Split_piece join_Cons)
qed simp

text \<open>Lines that each end in the separator, of which the last has text, are split into themselves.\<close>

lemma split_trimmed_lines:
  assumes "ls \<noteq> []" and "\<forall>l \<in> set ls. sep \<notin> set l" and "last ls \<noteq> []"
  shows "strings_Split sep (strings_TrimRight sep (concat (map (\<lambda>l. l @ [sep]) ls))) = ls"
proof -
  have cat: "concat (map (\<lambda>l. l @ [sep]) ls) = join [sep] ls @ [sep]"
    using assms(1) by (induction ls rule: list_nonempty_induct) (simp_all add: join_Cons)
  have "\<exists>u. join [sep] ls = u @ last ls"
    using assms(1) by (induction ls rule: list_nonempty_induct) (auto simp: join_Cons)
  then obtain u where u: "join [sep] ls = u @ last ls" by blast
  obtain v c where "last ls = v @ [c]" using assms(3) by (cases "last ls" rule: rev_cases) auto
  moreover have "c \<noteq> sep" using assms(2) last_in_set [OF assms(1)] calculation by force
  ultimately have "strings_TrimRight sep (join [sep] ls @ [sep]) = join [sep] ls"
    by (simp add: strings_TrimRight_def u)
  with cat strings_Split_join [OF assms(1,2)] show ?thesis by simp
qed

lemma trim_front_none: "find (\<lambda>r. r \<noteq> [] \<and> prefix r s) rs = None \<Longrightarrow> trim_front rs s = s"
  by (subst trim_front.simps) simp

end
