(* ===== verification/Go_Url.thy ===== *)
theory Go_Url
  imports Go_Numbers Go_Strings
begin

text \<open>
  When \<open>net/url.Parse\<close> of Go 1.23, the version of go.mod, accepts a URL. The program builds its
  outgoing requests with \<open>http.NewRequestWithContext\<close> and drops the error: with a constant
  method and a context the only error left is the one of \<open>Parse\<close>, and the request is nil then.
  The parts of the URL itself are not needed, so each function here is the check its namesake
  of \<open>net/url\<close> makes.
\<close>

section \<open>Splitting\<close>

text \<open>\<open>strings.Cut\<close> at a one-byte separator, and the cut at its last occurrence.\<close>

definition strings_Cut :: "char \<Rightarrow> string \<Rightarrow> string \<times> string" where
  "strings_Cut c s = (takeWhile (\<lambda>x. x \<noteq> c) s, tl (dropWhile (\<lambda>x. x \<noteq> c) s))"

definition cut_last :: "char \<Rightarrow> string \<Rightarrow> (string \<times> string) option" where
  "cut_last c s =
     (if c \<in> set s
      then Some (rev (tl (dropWhile (\<lambda>x. x \<noteq> c) (rev s))), rev (takeWhile (\<lambda>x. x \<noteq> c) (rev s)))
      else None)"

text \<open>\<open>strings.Index\<close>.\<close>

fun strings_Index :: "string \<Rightarrow> string \<Rightarrow> nat option" where
  "strings_Index p [] = (if p = [] then Some 0 else None)"
| "strings_Index p (c # cs) = (if prefix p (c # cs) then Some 0 else map_option Suc (strings_Index p cs))"

section \<open>Bytes and escapes\<close>

definition is_letter :: "char \<Rightarrow> bool" where
  "is_letter c \<longleftrightarrow> (let n = of_char c :: nat in 65 \<le> n \<and> n \<le> 90 \<or> 97 \<le> n \<and> n \<le> 122)"

definition is_ctl :: "char \<Rightarrow> bool" where
  "is_ctl c \<longleftrightarrow> (let n = of_char c :: nat in n < 32 \<or> n = 127)"

definition ishex :: "char \<Rightarrow> bool" where
  "ishex c \<longleftrightarrow> (let n = of_char c :: nat in is_digit c \<or> 65 \<le> n \<and> n \<le> 70 \<or> 97 \<le> n \<and> n \<le> 102)"

definition unhex :: "char \<Rightarrow> nat" where
  "unhex c = (let n = of_char c in if n \<le> 57 then n - 48 else if n \<le> 70 then n - 55 else n - 87)"

text \<open>\<open>shouldEscape\<close> in a host, negated: an ASCII byte a host may hold as it is.\<close>

definition host_byte :: "char \<Rightarrow> bool" where
  "host_byte c \<longleftrightarrow> is_letter c \<or> is_digit c \<or> c \<in> set ''!$&()*+,;=:[]<>-_.~'' \<or> c = CHR 0x27 \<or> c = CHR 0x22"

definition userinfo_byte :: "char \<Rightarrow> bool" where
  "userinfo_byte c \<longleftrightarrow> is_letter c \<or> is_digit c \<or> c \<in> set ''-._:~!$&()*+,;=%@'' \<or> c = CHR 0x27"

text \<open>
  \<open>unescape\<close>: every percent sign starts an escape of two hexadecimal digits that the mode
  allows, and every other byte is one the mode allows.
\<close>

fun unescapes :: "(char \<Rightarrow> char \<Rightarrow> bool) \<Rightarrow> (char \<Rightarrow> bool) \<Rightarrow> string \<Rightarrow> bool" where
  "unescapes esc plain [] = True"
| "unescapes esc plain (c # cs) =
     (if c = CHR ''%''
      then (case cs of a # b # r \<Rightarrow> ishex a \<and> ishex b \<and> esc a b \<and> unescapes esc plain r | _ \<Rightarrow> False)
      else plain c \<and> unescapes esc plain cs)"

definition unescapes_path :: "string \<Rightarrow> bool" where
  "unescapes_path = unescapes (\<lambda>_ _. True) (\<lambda>_. True)"

definition unescapes_host :: "string \<Rightarrow> bool" where
  "unescapes_host = unescapes (\<lambda>a b. 8 \<le> unhex a \<or> [a, b] = ''25'') (\<lambda>c. 128 \<le> (of_char c :: nat) \<or> host_byte c)"

definition unescapes_zone :: "string \<Rightarrow> bool" where
  "unescapes_zone = unescapes
     (\<lambda>a b. [a, b] = ''25'' \<or> [a, b] = ''20'' \<or> host_byte (char_of (16 * unhex a + unhex b)))
     (\<lambda>c. 128 \<le> (of_char c :: nat) \<or> host_byte c)"

section \<open>The parser\<close>

text \<open>\<open>getScheme\<close>: None for "missing protocol scheme", else the scheme, or none, and the rest.\<close>

fun getScheme_loop :: "string \<Rightarrow> string \<Rightarrow> string \<Rightarrow> (string \<times> string) option" where
  "getScheme_loop raw seen [] = Some ([], raw)"
| "getScheme_loop raw seen (c # cs) =
     (if is_letter c then getScheme_loop raw (seen @ [c]) cs
      else if is_digit c \<or> c \<in> set ''+-.''
      then (if seen = [] then Some ([], raw) else getScheme_loop raw (seen @ [c]) cs)
      else if c = CHR '':'' then (if seen = [] then None else Some (seen, cs))
      else Some ([], raw))"

definition getScheme :: "string \<Rightarrow> (string \<times> string) option" where
  "getScheme raw = getScheme_loop raw [] raw"

definition validOptionalPort :: "string \<Rightarrow> bool" where
  "validOptionalPort p \<longleftrightarrow> (case p of [] \<Rightarrow> True | c # ds \<Rightarrow> c = CHR '':'' \<and> list_all is_digit ds)"

definition parseHost :: "string \<Rightarrow> bool" where
  "parseHost host \<longleftrightarrow>
     (if prefix ''['' host
      then (case cut_last (CHR '']'') host of
              None \<Rightarrow> False
            | Some (literal, colonPort) \<Rightarrow>
                validOptionalPort colonPort \<and>
                (case strings_Index ''%25'' literal of
                   Some z \<Rightarrow> unescapes_host (take z literal) \<and> unescapes_zone (drop z literal) \<and>
                             unescapes_host (CHR '']'' # colonPort)
                 | None \<Rightarrow> unescapes_host host))
      else (case cut_last (CHR '':'') host of
              Some (_, port) \<Rightarrow> list_all is_digit port \<and> unescapes_host host
            | None \<Rightarrow> unescapes_host host))"

definition parseAuthority :: "string \<Rightarrow> bool" where
  "parseAuthority authority \<longleftrightarrow>
     (case cut_last (CHR ''@'') authority of
        None \<Rightarrow> parseHost authority
      | Some (userinfo, host) \<Rightarrow>
          parseHost host \<and> list_all userinfo_byte userinfo \<and>
          (case strings_Cut (CHR '':'') userinfo of (user, password) \<Rightarrow>
             unescapes_path user \<and> unescapes_path password))"

definition parse_hierarchy :: "bool \<Rightarrow> string \<Rightarrow> bool" where
  "parse_hierarchy has_scheme rest \<longleftrightarrow>
     (if \<not> prefix ''/'' rest
      then has_scheme \<or> CHR '':'' \<notin> set (fst (strings_Cut (CHR ''/'') rest)) \<and> unescapes_path rest
      else if (has_scheme \<or> \<not> prefix ''///'' rest) \<and> prefix ''//'' rest
      then parseAuthority (takeWhile (\<lambda>c. c \<noteq> CHR ''/'') (drop 2 rest)) \<and>
           unescapes_path (dropWhile (\<lambda>c. c \<noteq> CHR ''/'') (drop 2 rest))
      else unescapes_path rest)"

definition url_parses :: "string \<Rightarrow> bool" where
  "url_parses raw \<longleftrightarrow>
     (case strings_Cut (CHR ''#'') raw of (u, frag) \<Rightarrow>
        list_all (\<lambda>c. \<not> is_ctl c) u \<and>
        (case getScheme u of
           None \<Rightarrow> False
         | Some (scheme, rest) \<Rightarrow> parse_hierarchy (scheme \<noteq> []) (fst (strings_Cut (CHR ''?'') rest))) \<and>
        unescapes_path frag)"

section \<open>Lemmas\<close>

lemmas url_simps = url_parses_def strings_Cut_def getScheme_def is_letter_def is_digit_def is_ctl_def
  parse_hierarchy_def parseAuthority_def parseHost_def cut_last_def unescapes_path_def unescapes_host_def
  unescapes_zone_def host_byte_def userinfo_byte_def validOptionalPort_def ishex_def unhex_def Let_def

text \<open>A query adds nothing that is checked, but for control characters and a fragment.\<close>

lemma getScheme_query:
  "getScheme_loop (raw @ CHR ''?'' # q) seen (cs @ CHR ''?'' # q) =
     map_option (\<lambda>(sch, rest). (sch, rest @ CHR ''?'' # q)) (getScheme_loop raw seen cs)"
  by (induction cs arbitrary: seen) (simp_all add: is_letter_def is_digit_def Let_def)

lemma getScheme_rest: "getScheme_loop raw seen cs = Some (sch, rest) \<Longrightarrow> set rest \<subseteq> set raw \<union> set cs"
  by (induction cs arbitrary: seen) (auto split: if_splits)

lemma strings_Cut_none: "c \<notin> set s \<Longrightarrow> strings_Cut c s = (s, [])"
  by (induction s) (auto simp: strings_Cut_def)

lemma strings_Cut_at: "c \<notin> set s \<Longrightarrow> strings_Cut c (s @ c # t) = (s, t)"
  by (induction s) (auto simp: strings_Cut_def)

lemma url_parses_query:
  assumes "url_parses u" and "CHR ''#'' \<notin> set u" and "CHR ''?'' \<notin> set u"
    and "CHR ''#'' \<notin> set q" and "list_all (\<lambda>c. \<not> is_ctl c) q"
  shows "url_parses (u @ CHR ''?'' # q)"
proof -
  from assms(1) obtain sch rest where g: "getScheme u = Some (sch, rest)" and ctl: "list_all (\<lambda>c. \<not> is_ctl c) u"
    and h: "parse_hierarchy (sch \<noteq> []) (fst (strings_Cut (CHR ''?'') rest))"
    by (auto simp: url_parses_def strings_Cut_none [OF assms(2)] split: option.splits)
  from g assms(3) have rest: "CHR ''?'' \<notin> set rest" using getScheme_rest unfolding getScheme_def by blast
  have "getScheme (u @ CHR ''?'' # q) = Some (sch, rest @ CHR ''?'' # q)"
    using g by (simp add: getScheme_def getScheme_query)
  moreover have "CHR ''#'' \<notin> set (u @ CHR ''?'' # q)" using assms(2,4) by simp
  moreover have "\<not> is_ctl (CHR ''?'')" by (simp add: is_ctl_def Let_def)
  ultimately show ?thesis
    using h ctl assms(5)
    by (simp add: url_parses_def strings_Cut_none strings_Cut_at rest unescapes_path_def del: append.simps)
qed

text \<open>The URLs of a configuration: a host name, a port, and a path or a query behind them.\<close>

lemma url_parses_examples:
  "url_parses ''http://localhost:7401/sign''" "url_parses ''http://localhost:8401/balance?account=0xf39F''"
  "url_parses ''http://u:p@[fe80::1%25en0]:80/''" "url_parses ''localhost:7401/sign''" "url_parses ''/sign''"
  "url_parses ''HTTP://bank-a.example''" "url_parses ''*''" "url_parses ''mailto:x%zz''"
  by (simp_all add: url_simps)

lemma url_parses_refused:
  "\<not> url_parses ''http://localhost:port/sign''" "\<not> url_parses '':7401/sign''" "\<not> url_parses ''127.0.0.1:7401/sign''"
  "\<not> url_parses ''http://[::1/''" "\<not> url_parses ''http://a b/''" "\<not> url_parses ''http://h/%zz''"
  "\<not> url_parses ''http://h/#%2''" "\<not> url_parses (''http://h/'' @ [CHR 0x0A])" "\<not> url_parses ''http://h%41/''"
  by (simp_all add: url_simps)

end
