(* ===== verification/World.thy ===== *)
theory World
  imports Lib Http Go_Url
begin

text \<open>
  The outside of a service: the chain client (\<open>ethclient\<close>) and the HTTP client are a record of
  functions over an unknown environment of type \<open>'e\<close> (the node, the other processes, time), so a
  theorem about a service holds for every behaviour of its peers. Each call also appends an
  event to a trace, which is how theorems speak of what a service sent and in which order.
\<close>

section \<open>What the chain client returns\<close>

record header =
  hd_BaseFee :: "int option"
  hd_Time :: u64

record log_rec =
  lg_Address :: address
  lg_Topics :: "bytes list"
  lg_Data :: bytes

text \<open>The block number and the gas price are pointers, nil when the node leaves them out.\<close>

record receipt =
  rc_Status :: u64
  rc_BlockNumber :: "int option"
  rc_BlockHash :: bytes
  rc_GasUsed :: u64
  rc_EffectiveGasPrice :: "int option"
  rc_Logs :: "log_rec list"

record 'stx block =
  bk_Number :: u64
  bk_Hash :: bytes
  bk_Time :: u64
  bk_Transactions :: "'stx list"

record call_msg =
  cm_From :: address
  cm_To :: address
  cm_Data :: bytes

text \<open>\<open>types.ReceiptStatusSuccessful\<close>.\<close>

definition ReceiptStatusSuccessful :: u64 where
  "ReceiptStatusSuccessful = 1"

section \<open>The clients\<close>

record ('e, 'stx) net =
  PendingNonceAt :: "address \<Rightarrow> 'e \<Rightarrow> u64 res \<times> 'e"
  HeaderByNumber :: "'e \<Rightarrow> header res \<times> 'e"
  HeaderByHash :: "bytes \<Rightarrow> 'e \<Rightarrow> header option res \<times> 'e"
  EstimateGas :: "call_msg \<Rightarrow> 'e \<Rightarrow> u64 res \<times> 'e"
  SendTransaction :: "'stx \<Rightarrow> 'e \<Rightarrow> unit res \<times> 'e"
  WaitMined :: "'stx \<Rightarrow> 'e \<Rightarrow> receipt res \<times> 'e"
  CallContract :: "call_msg \<Rightarrow> 'e \<Rightarrow> bytes res \<times> 'e"
  BlockNumber :: "'e \<Rightarrow> u64 res \<times> 'e"
  BlockByNumber :: "int \<Rightarrow> 'e \<Rightarrow> 'stx block res \<times> 'e"
  TransactionByHash :: "bytes \<Rightarrow> 'e \<Rightarrow> ('stx \<times> bool) res \<times> 'e"
  TransactionReceipt :: "bytes \<Rightarrow> 'e \<Rightarrow> receipt option res \<times> 'e"
  HttpDo :: "http_req \<Rightarrow> 'e \<Rightarrow> response res \<times> 'e"

datatype 'stx event =
    ENonce address
  | EHead
  | EHeadByHash bytes
  | EEstimate call_msg
  | ESend 'stx
  | EWait 'stx
  | ECall call_msg
  | EBlockNumber
  | EBlock int
  | ETx bytes
  | EReceipt bytes
  | EHttp http_req
  | ESleep nat
  | ESpawn string "string list"
  | EKill string
  | EPrint string

record ('e, 'stx) world =
  w_env :: 'e
  w_trace :: "'stx event list"

text \<open>An HTTP handler: the request and the world, a response or a panic, the world after it.\<close>

type_synonym ('e, 'stx) handler = "request \<Rightarrow> ('e, 'stx) world \<Rightarrow> response outcome \<times> ('e, 'stx) world"

definition net_call :: "'stx event \<Rightarrow> ('e \<Rightarrow> 'a \<times> 'e) \<Rightarrow> ('e, 'stx) world \<Rightarrow> 'a \<times> ('e, 'stx) world" where
  "net_call ev f w =
     (case f (w_env w) of (r, e') \<Rightarrow> (r, \<lparr>w_env = e', w_trace = w_trace w @ [ev]\<rparr>))"

text \<open>
  \<open>http.NewRequestWithContext\<close> with its error dropped, then \<open>Do\<close>: for a URL that does not parse
  the request is nil, and setting a header on it or sending it panics before anything is sent.
\<close>

definition http_call :: "('e, 'stx) net \<Rightarrow> http_req \<Rightarrow> ('e, 'stx) world
    \<Rightarrow> response res outcome \<times> ('e, 'stx) world" where
  "http_call N req w =
     (if url_parses (hq_url req)
      then (case net_call (EHttp req) (HttpDo N req) w of (r, w) \<Rightarrow> (Done r, w))
      else (Panic, w))"

lemma http_call_parses:
  "url_parses (hq_url q) \<Longrightarrow> http_call N q w =
     (Done (fst (net_call (EHttp q) (HttpDo N q) w)), snd (net_call (EHttp q) (HttpDo N q) w))"
  by (simp add: http_call_def split: prod.split)

lemma http_call_Panic: "\<not> url_parses (hq_url q) \<Longrightarrow> http_call N q w = (Panic, w)"
  by (simp add: http_call_def)

section \<open>Traces\<close>

text \<open>\<open>emits w w' es\<close>: between \<open>w\<close> and \<open>w'\<close> the events \<open>es\<close> happened, in this order.\<close>

definition emits :: "('e, 'stx) world \<Rightarrow> ('e, 'stx) world \<Rightarrow> 'stx event list \<Rightarrow> bool" where
  "emits w w' es \<longleftrightarrow> w_trace w' = w_trace w @ es"

lemma emits_refl [simp, intro]: "emits w w []"
  by (simp add: emits_def)

lemma emits_trans: "emits w v es \<Longrightarrow> emits v u fs \<Longrightarrow> emits w u (es @ fs)"
  by (simp add: emits_def)

lemma net_call_emits: "net_call ev f w = (r, w') \<Longrightarrow> emits w w' [ev]"
  by (auto simp: net_call_def emits_def split: prod.splits)

lemma http_call_emits:
  "http_call N q w = (Done r, w') \<Longrightarrow> url_parses (hq_url q) \<and> emits w w' [EHttp q]"
  "http_call N q w = (Panic, w') \<Longrightarrow> \<not> url_parses (hq_url q) \<and> w' = w"
  by (auto simp: http_call_def dest: net_call_emits split: prod.splits if_splits)

lemma http_call_Done:
  "http_call N q w = (Done r, w') \<Longrightarrow> url_parses (hq_url q) \<and> net_call (EHttp q) (HttpDo N q) w = (r, w')"
  by (auto simp: http_call_def split: prod.splits if_splits)

lemma emits_unique: "emits w w' es \<Longrightarrow> emits w w' fs \<Longrightarrow> es = fs"
  by (simp add: emits_def)

definition sent :: "'stx event list \<Rightarrow> 'stx list" where
  "sent es = List.map_filter (\<lambda>e. case e of ESend t \<Rightarrow> Some t | _ \<Rightarrow> None) es"

definition http_sent :: "'stx event list \<Rightarrow> http_req list" where
  "http_sent es = List.map_filter (\<lambda>e. case e of EHttp q \<Rightarrow> Some q | _ \<Rightarrow> None) es"

lemma sent_simps [simp]:
  "sent [] = []" "sent (ESend t # es) = t # sent es"
  "sent (ENonce a # es) = sent es" "sent (EHead # es) = sent es" "sent (EEstimate m # es) = sent es"
  "sent (EWait t # es) = sent es" "sent (ECall m # es) = sent es" "sent (EHttp q # es) = sent es"
  "sent (EHeadByHash b # es) = sent es" "sent (EBlockNumber # es) = sent es" "sent (EBlock i # es) = sent es"
  "sent (ETx b # es) = sent es" "sent (EReceipt b # es) = sent es" "sent (ESleep k # es) = sent es"
  "sent (ESpawn p vs # es) = sent es" "sent (EPrint t' # es) = sent es" "sent (EKill p # es) = sent es"
  "sent (es @ fs) = sent es @ sent fs"
  by (simp_all add: sent_def map_filter_simps) (simp add: List.map_filter_def)

lemma http_sent_simps [simp]:
  "http_sent [] = []" "http_sent (EHttp q # es) = q # http_sent es"
  "http_sent (ENonce a # es) = http_sent es" "http_sent (EHead # es) = http_sent es"
  "http_sent (EEstimate m # es) = http_sent es" "http_sent (ESend t # es) = http_sent es"
  "http_sent (EWait t # es) = http_sent es" "http_sent (ECall m # es) = http_sent es"
  "http_sent (EHeadByHash b # es) = http_sent es" "http_sent (EBlockNumber # es) = http_sent es"
  "http_sent (EBlock i # es) = http_sent es" "http_sent (ETx b # es) = http_sent es"
  "http_sent (EReceipt b # es) = http_sent es" "http_sent (ESleep k # es) = http_sent es"
  "http_sent (ESpawn p vs # es) = http_sent es" "http_sent (EPrint t' # es) = http_sent es"
  "http_sent (EKill p # es) = http_sent es"
  "http_sent (es @ fs) = http_sent es @ http_sent fs"
  by (simp_all add: http_sent_def map_filter_simps) (simp add: List.map_filter_def)

end
