(* ===== verification/Go_Path.thy ===== *)
theory Go_Path
  imports Go_Strings
begin

text \<open>
  The functions of \<open>path/filepath\<close> the program uses, on Unix: \<open>Clean\<close>, \<open>Dir\<close> and \<open>Join\<close>. A path is
  cleaned by its elements: empty ones and \<open>.\<close> disappear, \<open>..\<close> removes the element before it, and
  is dropped at the root.
\<close>

definition clean_step :: "bool \<Rightarrow> string \<Rightarrow> string list \<Rightarrow> string list" where
  "clean_step rooted c out =
     (if c = [] \<or> c = ''.'' then out
      else if c = ''..''
      then (case out of
              [] \<Rightarrow> if rooted then [] else [c]
            | x # xs \<Rightarrow> if x = ''..'' then c # out else xs)
      else c # out)"

definition filepath_Clean :: "string \<Rightarrow> string" where
  "filepath_Clean path =
     (let rooted = prefix ''/'' path;
          elems = rev (fold (clean_step rooted) (strings_Split (CHR ''/'') path) []);
          out = (if rooted then ''/'' else []) @ join ''/'' elems
      in if out = [] then ''.'' else out)"

definition filepath_Dir :: "string \<Rightarrow> string" where
  "filepath_Dir path = filepath_Clean (rev (dropWhile (\<lambda>c. c \<noteq> CHR ''/'') (rev path)))"

definition filepath_Join :: "string list \<Rightarrow> string" where
  "filepath_Join elems =
     (case dropWhile (\<lambda>e. e = []) elems of
        [] \<Rightarrow> []
      | es \<Rightarrow> filepath_Clean (join ''/'' es))"

section \<open>Absolute paths\<close>

text \<open>An element that cleaning keeps, and the absolute path with given elements.\<close>

definition plain :: "string \<Rightarrow> bool" where
  "plain c \<longleftrightarrow> c \<noteq> [] \<and> CHR ''/'' \<notin> set c \<and> c \<noteq> ''.'' \<and> c \<noteq> ''..''"

definition abs_path :: "string list \<Rightarrow> string" where
  "abs_path cs = CHR ''/'' # join ''/'' cs"

lemma join_append:
  "xs \<noteq> [] \<Longrightarrow> ys \<noteq> [] \<Longrightarrow> join sep (xs @ ys) = join sep xs @ sep @ join sep ys"
  by (induction xs rule: list_nonempty_induct) (auto simp: join_Cons)

lemma Clean_abs_path:
  assumes "\<forall>c \<in> set cs. CHR ''/'' \<notin> set c"
  shows "filepath_Clean (abs_path cs) = abs_path (rev (fold (clean_step True) cs []))"
proof (cases "cs = []")
  case False
  with assms have "strings_Split (CHR ''/'') (join ''/'' cs) = cs" by (simp add: strings_Split_join)
  then show ?thesis by (simp add: filepath_Clean_def abs_path_def clean_step_def Let_def)
qed (simp add: filepath_Clean_def abs_path_def clean_step_def Let_def)

lemma fold_plain: "\<forall>c \<in> set cs. plain c \<Longrightarrow> fold (clean_step r) cs out = rev cs @ out"
  by (induction cs arbitrary: out) (auto simp: clean_step_def plain_def)

lemma Clean_plain: "\<forall>c \<in> set cs. plain c \<Longrightarrow> filepath_Clean (abs_path cs) = abs_path cs"
  by (subst Clean_abs_path) (auto simp: fold_plain plain_def)

text \<open>\<open>Join\<close> with an absolute path first.\<close>

lemma Join_abs:
  assumes "cs \<noteq> []" and "es \<noteq> []" and "\<forall>c \<in> set (cs @ es). CHR ''/'' \<notin> set c"
  shows "filepath_Join (abs_path cs # es) = abs_path (rev (fold (clean_step True) (cs @ es) []))"
proof -
  have "join ''/'' (abs_path cs # es) = abs_path (cs @ es)"
    using assms(1,2) by (simp add: join_Cons abs_path_def join_append)
  with Clean_abs_path [OF assms(3)] show ?thesis by (simp add: filepath_Join_def abs_path_def)
qed

lemma Join_plain:
  assumes "cs \<noteq> []" and "es \<noteq> []" and "\<forall>c \<in> set (cs @ es). plain c"
  shows "filepath_Join (abs_path cs # es) = abs_path (cs @ es)"
proof -
  have "\<forall>c \<in> set (cs @ es). CHR ''/'' \<notin> set c" using assms(3) by (simp add: plain_def)
  from Join_abs [OF assms(1,2) this] show ?thesis using assms(3) by (simp add: fold_plain)
qed

text \<open>\<open>Dir\<close> drops the last element.\<close>

lemma Dir_plain:
  assumes "cs \<noteq> []" and "\<forall>c \<in> set cs. plain c" and "CHR ''/'' \<notin> set f"
  shows "filepath_Dir (abs_path (cs @ [f])) = abs_path cs"
proof -
  have "dropWhile (\<lambda>c. c \<noteq> CHR ''/'') (rev f @ CHR ''/'' # u) = CHR ''/'' # u" for u
    using assms(3) by (subst dropWhile_append2) auto
  then have "rev (dropWhile (\<lambda>c. c \<noteq> CHR ''/'') (rev (abs_path (cs @ [f])))) = abs_path (cs @ [[]])"
    using assms(1) by (simp add: abs_path_def join_append)
  moreover have "\<forall>c \<in> set (cs @ [[]]). CHR ''/'' \<notin> set c" using assms(2) by (simp add: plain_def)
  ultimately show ?thesis
    using assms(2) by (simp add: filepath_Dir_def Clean_abs_path fold_plain) (simp add: clean_step_def)
qed

end
