(* ===== verification/Config.thy ===== *)
theory Config
  imports Lib Go_Path
begin

text \<open>
  internal/config/config.go: the public configuration. The environment is a function from
  variable names to values (the empty string when a variable is unset, as \<open>os.Getenv\<close>).
\<close>

type_synonym env = "string \<Rightarrow> string"

definition envOr :: "env \<Rightarrow> string \<Rightarrow> string \<Rightarrow> string" where
  "envOr env k d = (let v = env k in if v \<noteq> [] then v else d)"

definition RPCURL :: "env \<Rightarrow> string" where
  "RPCURL env = envOr env ''RPC_URL'' ''http://localhost:8545''"

definition ChainID :: int where
  "ChainID = 1337"

definition WFUSDDecimals :: nat where
  "WFUSDDecimals = 6"

type_synonym role = string

definition RoleIssuer :: role where
  "RoleIssuer = ''issuer''"

definition RoleHolder :: role where
  "RoleHolder = ''holder''"

record bank =
  bank_ID :: string
  bank_Label :: string
  bank_Role :: role
  bank_KeyID :: string
  bank_Address :: address
  bank_SigningRouterURL :: string
  bank_DepositSvcURL :: string
  bank_SigningRouterPort :: int
  bank_DepositSvcPort :: int

text \<open>The middle dot of the labels is the UTF-8 pair C2 B7.\<close>

definition middle_dot :: string where
  "middle_dot = [CHR 0xC2, CHR 0xB7]"

definition BankA :: "('sk, 'stx) lib \<Rightarrow> env \<Rightarrow> bank" where
  "BankA L env = \<lparr>
     bank_ID = ''bank-a'',
     bank_Label = ''Bank A '' @ middle_dot @ '' Issuer'',
     bank_Role = RoleIssuer,
     bank_KeyID = ''key://bank-a/issuer'',
     bank_Address = HexToAddress L ''0xf39Fd6e51aad88F6F4ce6aB8827279cffFb92266'',
     bank_SigningRouterURL = envOr env ''BANKA_SIGNING_ROUTER_URL'' ''http://localhost:7401'',
     bank_DepositSvcURL = envOr env ''BANKA_DEPOSIT_URL'' ''http://localhost:8401'',
     bank_SigningRouterPort = 7401,
     bank_DepositSvcPort = 8401\<rparr>"

definition BankB :: "('sk, 'stx) lib \<Rightarrow> env \<Rightarrow> bank" where
  "BankB L env = \<lparr>
     bank_ID = ''bank-b'',
     bank_Label = ''Bank B '' @ middle_dot @ '' Holder'',
     bank_Role = RoleHolder,
     bank_KeyID = ''key://bank-b/holder'',
     bank_Address = HexToAddress L ''0x70997970C51812dc3A010C7d01b50e0d17dc79C8'',
     bank_SigningRouterURL = envOr env ''BANKB_SIGNING_ROUTER_URL'' ''http://localhost:7402'',
     bank_DepositSvcURL = envOr env ''BANKB_DEPOSIT_URL'' ''http://localhost:8402'',
     bank_SigningRouterPort = 7402,
     bank_DepositSvcPort = 8402\<rparr>"

definition Merchant :: "('sk, 'stx) lib \<Rightarrow> address" where
  "Merchant L = HexToAddress L ''0x3C44CdDdB6a900fa2b585dd299e03d12FA4293BC''"

definition Banks :: "('sk, 'stx) lib \<Rightarrow> env \<Rightarrow> string \<rightharpoonup> bank" where
  "Banks L env = [bank_ID (BankA L env) \<mapsto> BankA L env, bank_ID (BankB L env) \<mapsto> BankB L env]"

record deployment =
  dep_AuthRegistry :: address
  dep_ReserveLedger :: address
  dep_TokenAuthority :: address
  dep_TokenHandler :: address
  dep_DepositToken :: address
  dep_TransferPolicyID :: u64
  dep_RLMintPolicyID :: u64
  dep_SCMintPolicyID :: u64
  dep_ChainID :: u64

text \<open>
  \<open>repoRoot\<close>: \<open>file\<close> is the path of the source file config.go, as the compiler recorded it.
\<close>

definition repoRoot :: "string \<Rightarrow> string" where
  "repoRoot file = filepath_Clean (filepath_Join [filepath_Dir file, ''..'', ''..''])"

text \<open>
  \<open>LoadDeployment\<close>: the path from the environment or the repository, the file, the decode.
  The file system (\<open>readFile\<close>) and \<open>json.Unmarshal\<close> into \<open>Deployment\<close>, whose address fields
  go-ethereum decodes, are arguments.
\<close>

definition LoadDeployment ::
    "env \<Rightarrow> string \<Rightarrow> (string \<Rightarrow> body res) \<Rightarrow> (body \<Rightarrow> deployment res) \<Rightarrow> deployment res" where
  "LoadDeployment env file readFile unmarshal =
     (let path = envOr env ''DEPLOYMENT_JSON''
                   (filepath_Join [repoRoot file, ''contracts'', ''deployments'', ''besu.json''])
      in case readFile path of
           Err e \<Rightarrow> Err (''read '' @ path @ '': '' @ e @ '' (deploy the contracts first '' @
                        [CHR 0xE2, CHR 0x80, CHR 0x94] @ '' see README)'')
         | Ok raw \<Rightarrow>
             (case unmarshal raw of
                Err e \<Rightarrow> Err (''parse '' @ path @ '': '' @ e)
              | Ok d \<Rightarrow> Ok d))"

lemma envOr_unset [simp]: "env k = [] \<Longrightarrow> envOr env k d = d"
  by (simp add: envOr_def)

lemma Banks_iff:
  "Banks L env i = Some b \<longleftrightarrow>
     (i = ''bank-a'' \<and> b = BankA L env) \<or> (i = ''bank-b'' \<and> b = BankB L env)"
  by (auto simp: Banks_def BankA_def BankB_def)

text \<open>The sources of a checkout at \<open>root\<close> give \<open>root\<close> back.\<close>

lemma repoRoot_of_config:
  assumes "root \<noteq> []" and "\<forall>c \<in> set root. plain c"
  shows "repoRoot (abs_path (root @ [''internal'', ''config'', ''config.go''])) = abs_path root"
proof -
  have "filepath_Dir (abs_path ((root @ [''internal'', ''config'']) @ [''config.go''])) =
      abs_path (root @ [''internal'', ''config''])"
    using assms(2) by (intro Dir_plain) (simp_all add: plain_def)
  moreover have "filepath_Join [abs_path (root @ [''internal'', ''config'']), ''..'', ''..''] =
      abs_path (rev (fold (clean_step True) ((root @ [''internal'', ''config'']) @ [''..'', ''..'']) []))"
    using assms(2) by (intro Join_abs) (auto simp: plain_def)
  ultimately show ?thesis
    using assms Clean_plain [of root] by (simp add: repoRoot_def fold_plain clean_step_def)
qed

text \<open>
  C38. Where the addresses come from: with DEPLOYMENT_JSON set, the file it names, wherever the
  process was built; otherwise contracts/deployments/besu.json of the checkout the process was
  built from, the file the deployment script writes. That file and no other is read, and loading
  fails exactly when it is not read or does not parse.
\<close>

theorem deployment_comes_from_the_checkout:
  assumes "root \<noteq> []" and "\<forall>c \<in> set root. plain c"
  shows "let load = LoadDeployment env (abs_path (root @ [''internal'', ''config'', ''config.go''])) readFile unmarshal;
             file = (if env ''DEPLOYMENT_JSON'' \<noteq> [] then env ''DEPLOYMENT_JSON''
                     else abs_path (root @ [''contracts'', ''deployments'', ''besu.json'']))
         in (\<forall>d. load = Ok d \<longleftrightarrow> (\<exists>raw. readFile file = Ok raw \<and> unmarshal raw = Ok d)) \<and>
            (is_ok load \<longleftrightarrow> (\<exists>raw. readFile file = Ok raw \<and> is_ok (unmarshal raw)))"
proof -
  have "filepath_Join [abs_path root, ''contracts'', ''deployments'', ''besu.json''] =
      abs_path (root @ [''contracts'', ''deployments'', ''besu.json''])"
    using assms by (intro Join_plain) (auto simp: plain_def)
  then show ?thesis
    by (simp add: LoadDeployment_def envOr_def repoRoot_of_config [OF assms] split: res.split)
qed

text \<open>A file system with one file, and its parsed contents.\<close>

definition one_file :: "string \<Rightarrow> string \<Rightarrow> body res" where
  "one_file f = (\<lambda>g. if g = f then Ok (Text []) else Err ''no such file'')"

definition sample_file :: "deployment" where
  "sample_file = \<lparr>dep_AuthRegistry = 1, dep_ReserveLedger = 2, dep_TokenAuthority = 3, dep_TokenHandler = 4,
     dep_DepositToken = 5, dep_TransferPolicyID = 2, dep_RLMintPolicyID = 3, dep_SCMintPolicyID = 4,
     dep_ChainID = 1337\<rparr>"

text \<open>Both cases: without the variable, and with it, when the checkout's own file is not read.\<close>

theorem deployment_comes_from_the_checkout_witness:
  "LoadDeployment (\<lambda>_. []) ''/demo/internal/config/config.go''
     (one_file ''/demo/contracts/deployments/besu.json'') (\<lambda>_. Ok sample_file) = Ok sample_file \<and>
   LoadDeployment (\<lambda>v. if v = ''DEPLOYMENT_JSON'' then ''/etc/besu.json'' else []) ''/demo/internal/config/config.go''
     (one_file ''/etc/besu.json'') (\<lambda>_. Ok sample_file) = Ok sample_file \<and>
   \<not> is_ok (LoadDeployment (\<lambda>v. if v = ''DEPLOYMENT_JSON'' then ''/etc/besu.json'' else []) ''/demo/internal/config/config.go''
     (one_file ''/demo/contracts/deployments/besu.json'') (\<lambda>_. Ok sample_file))"
  using deployment_comes_from_the_checkout [of "[''demo'']" "\<lambda>_. []"
      "one_file ''/demo/contracts/deployments/besu.json''" "\<lambda>_. Ok sample_file"]
    deployment_comes_from_the_checkout [of "[''demo'']" "\<lambda>v. if v = ''DEPLOYMENT_JSON'' then ''/etc/besu.json'' else []"
      "one_file ''/etc/besu.json''" "\<lambda>_. Ok sample_file"]
    deployment_comes_from_the_checkout [of "[''demo'']" "\<lambda>v. if v = ''DEPLOYMENT_JSON'' then ''/etc/besu.json'' else []"
      "one_file ''/demo/contracts/deployments/besu.json''" "\<lambda>_. Ok sample_file"]
  by (simp add: abs_path_def plain_def Let_def one_file_def)

end
