(* ===== verification/Sample_Lib.thy ===== *)
theory Sample_Lib
  imports Config
begin

text \<open>
  A concrete library, so that the witnesses apply each theorem to computable functions: hex text
  as \<open>hexutil\<close> writes it, keys that are their hex text, a signature that carries the hash and
  the key, calldata that carries the method's first characters and 32 bytes per argument. It
  satisfies the named hypotheses of \<open>Lib\<close>; nothing outside the witnesses uses it.
\<close>

section \<open>Hex text\<close>

definition hex_char :: "nat \<Rightarrow> char" where
  "hex_char n = (if n < 10 then char_of (48 + n) else char_of (87 + n))"

definition hex_val :: "char \<Rightarrow> nat option" where
  "hex_val c =
     (let n = (of_char c :: nat)
      in if 48 \<le> n \<and> n \<le> 57 then Some (n - 48)
         else if 97 \<le> n \<and> n \<le> 102 then Some (n - 87)
         else if 65 \<le> n \<and> n \<le> 70 then Some (n - 55)
         else None)"

fun hex_bytes :: "bytes \<Rightarrow> string" where
  "hex_bytes [] = []"
| "hex_bytes (b # bs) = hex_char (unat b div 16) # hex_char (unat b mod 16) # hex_bytes bs"

fun unhex :: "string \<Rightarrow> bytes option" where
  "unhex [] = Some []"
| "unhex [_] = None"
| "unhex (a # b # s) =
     (case (hex_val a, hex_val b, unhex s) of
        (Some x, Some y, Some bs) \<Rightarrow> Some (word_of_nat (16 * x + y) # bs)
      | _ \<Rightarrow> None)"

definition sample_decode :: "string \<Rightarrow> bytes res" where
  "sample_decode s =
     (if take 2 s = ''0x''
      then (case unhex (drop 2 s) of Some bs \<Rightarrow> Ok bs | None \<Rightarrow> Err ''invalid hex string'')
      else Err ''hex string without 0x prefix'')"

fun hex_fixed :: "nat \<Rightarrow> nat \<Rightarrow> string" where
  "hex_fixed 0 n = []"
| "hex_fixed (Suc w) n = hex_fixed w (n div 16) @ [hex_char (n mod 16)]"

definition hex_nat :: "string \<Rightarrow> nat" where
  "hex_nat s = foldl (\<lambda>a c. 16 * a + (case hex_val c of Some v \<Rightarrow> v | None \<Rightarrow> 0)) 0 s"

lemma hex_val_char [simp]: "n < 16 \<Longrightarrow> hex_val (hex_char n) = Some n"
  by (auto simp: hex_val_def hex_char_def Let_def)

lemma unhex_hex_bytes: "unhex (hex_bytes bs) = Some bs"
proof (induction bs)
  case (Cons b bs)
  have "unat b < 256" using unsigned_less [where ?'a = nat, of b] by simp
  then have "unat b div 16 < 16" and "unat b mod 16 < 16" by auto
  with Cons show ?case by simp
qed simp

lemma unhex_length: "unhex s = Some bs \<Longrightarrow> length s = 2 * length bs"
  by (induction s arbitrary: bs rule: unhex.induct) (auto split: option.splits)

lemma hex_nat_fixed: "hex_nat (hex_fixed w n) = n mod 16 ^ w"
proof (induction w arbitrary: n)
  case 0
  show ?case by (simp add: hex_nat_def)
next
  case (Suc w)
  have "hex_nat (hex_fixed (Suc w) n) = 16 * (n div 16 mod 16 ^ w) + n mod 16"
    using Suc [of "n div 16"] by (simp add: hex_nat_def)
  also have "\<dots> = n mod 16 ^ Suc w"
    by (simp add: mod_mult2_eq)
  finally show ?case .
qed

lemma hex_fixed_length [simp]: "length (hex_fixed w n) = w"
  by (induction w arbitrary: n) auto

section \<open>The sample library\<close>

definition sample_HexToAddress :: "string \<Rightarrow> address" where
  "sample_HexToAddress s = word_of_nat (hex_nat (if take 2 s = ''0x'' then drop 2 s else s))"

definition sample_AddressHex :: "address \<Rightarrow> string" where
  "sample_AddressHex a = ''0x'' @ hex_fixed 40 (unat a)"

definition key_bytes :: "string \<Rightarrow> bytes" where
  "key_bytes k = map (word_of_nat \<circ> of_char) (take 32 (k @ replicate 32 (CHR ''0'')))"

definition sample_PubkeyToAddress :: "string \<Rightarrow> address" where
  "sample_PubkeyToAddress k =
     (if take 4 k = ''ac09'' then 0xf39Fd6e51aad88F6F4ce6aB8827279cffFb92266
      else if take 4 k = ''59c6'' then 0x70997970C51812dc3A010C7d01b50e0d17dc79C8 else 0)"

definition uint_bytes :: "int \<Rightarrow> bytes" where
  "uint_bytes i = map (\<lambda>k. word_of_int (i div 256 ^ (31 - k))) [0..<32]"

fun any_bytes :: "any \<Rightarrow> bytes" where
  "any_bytes (AAddress a) = uint_bytes (uint a)"
| "any_bytes (ABigInt i) = uint_bytes i"
| "any_bytes (ABool b) = uint_bytes (if b then 1 else 0)"
| "any_bytes (AUint64 n) = uint_bytes (uint n)"
| "any_bytes (AUint8 n) = uint_bytes (uint n)"
| "any_bytes _ = uint_bytes 0"

definition name_bytes :: "string \<Rightarrow> bytes" where
  "name_bytes n = map (word_of_nat \<circ> of_char) (take 4 (n @ ''    ''))"

fun arg_value :: "abi_type \<Rightarrow> bytes \<Rightarrow> any" where
  "arg_value AddressTy bs = AAddress (word_of_int (big_SetBytes bs))"
| "arg_value (UintTy n) bs =
     (if n = 8 then AUint8 (word_of_int (big_SetBytes bs))
      else if n = 64 then AUint64 (word_of_int (big_SetBytes bs))
      else ABigInt (big_SetBytes bs))"
| "arg_value BoolTy bs = ABool (big_SetBytes bs \<noteq> 0)"
| "arg_value StringTy bs = AString (map (char_of \<circ> unat) (filter (\<lambda>b. b \<noteq> 0) bs))"

fun args_values :: "abi_arg list \<Rightarrow> bytes \<Rightarrow> any list res" where
  "args_values [] bs = Ok []"
| "args_values (a # as) bs =
     (if length bs < 32 then Err ''abi: length insufficient''
      else case args_values as (drop 32 bs) of
             Err e \<Rightarrow> Err e
           | Ok vs \<Rightarrow> Ok (arg_value (arg_type a) (take 32 bs) # vs))"

definition sample_lib :: "(string, DynamicFeeTx \<times> bytes) lib" where
  "sample_lib = \<lparr>
     HexToAddress = sample_HexToAddress,
     AddressHex = sample_AddressHex,
     BytesToAddress = (\<lambda>bs. word_of_int (big_SetBytes bs)),
     HexToHash = (\<lambda>s. case sample_decode s of Ok bs \<Rightarrow> bs | Err _ \<Rightarrow> replicate 32 0),
     HashHex = (\<lambda>bs. ''0x'' @ hex_bytes bs),
     hexutilDecode = sample_decode,
     hexutilEncode = (\<lambda>bs. ''0x'' @ hex_bytes bs),
     Bytes2Hex = hex_bytes,
     HexToECDSA = (\<lambda>s. if length s = 64 then Ok s else Err ''invalid length, need 256 bits''),
     PubkeyToAddress = sample_PubkeyToAddress,
     cryptoSign = (\<lambda>h k. if length h = 32 then Ok (h @ key_bytes k @ [0])
                         else Err ''hash is required to be exactly 32 bytes''),
     Keccak256 = (\<lambda>bs. take 32 (bs @ replicate 32 0)),
     SignerHash = (\<lambda>tx. uint_bytes (uint (tx_Nonce tx))),
     WithSignature = (\<lambda>tx sig. if length sig = 65 then Ok (tx, sig) else Err ''wrong size for signature''),
     Sender = (\<lambda>(tx, sig).
        if take 32 (drop 32 sig) = key_bytes ''ac0974bec39a17e36ba4a6b4d238ff94'' then
          Ok 0xf39Fd6e51aad88F6F4ce6aB8827279cffFb92266
        else if take 32 (drop 32 sig) = key_bytes ''59c6995e998f97a5a0044966f0945389'' then
          Ok 0x70997970C51812dc3A010C7d01b50e0d17dc79C8
        else Err ''invalid signature''),
     StxHash = (\<lambda>(tx, sig). take 32 sig),
     StxTo = (\<lambda>(tx, sig). Some (tx_To tx)),
     StxData = (\<lambda>(tx, sig). tx_Data tx),
     StxValue = (\<lambda>(tx, sig). tx_Value tx),
     StxNonce = (\<lambda>(tx, sig). tx_Nonce tx),
     StxType = (\<lambda>_. 2),
     StxGas = (\<lambda>(tx, sig). tx_Gas tx),
     Pack = (\<lambda>a m args.
        case abi_lookup a m of
          None \<Rightarrow> Err ''method not found''
        | Some e \<Rightarrow> if length args = length (inputs e) then Ok (name_bytes m @ concat (map any_bytes args))
                    else Err ''argument count mismatch''),
     Unpack = (\<lambda>a m bs.
        case abi_lookup a m of
          None \<Rightarrow> Err ''method not found''
        | Some e \<Rightarrow> args_values (outputs e) bs),
     MethodById = (\<lambda>a sel.
        case find (\<lambda>e. case e of AbiFunction n _ _ _ \<Rightarrow> name_bytes n = sel | _ \<Rightarrow> False) a of
          Some e \<Rightarrow> Ok e | None \<Rightarrow> Err ''no method with id''),
     EventByID = (\<lambda>a topic.
        case find (\<lambda>e. case e of AbiEvent n _ \<Rightarrow> name_bytes n = take 4 topic | _ \<Rightarrow> False) a of
          Some e \<Rightarrow> Ok e | None \<Rightarrow> Err ''no event with id''),
     ArgsUnpack = args_values,
     quote = (\<lambda>s. [CHR 0x22] @ s @ [CHR 0x22]),
     jsonErrText = (\<lambda>e. case e of JSyntax \<Rightarrow> ''invalid character'' | JType \<Rightarrow> ''json: cannot unmarshal''),
     bodyText = (\<lambda>b. case b of Text t \<Rightarrow> t | Json _ \<Rightarrow> ''{}'')\<rparr>"

text \<open>The environment with no variable set.\<close>

definition empty_env :: env where
  "empty_env = (\<lambda>_. [])"

section \<open>It satisfies the hypotheses\<close>

lemma sample_decode_Ok: "sample_decode s = Ok bs \<Longrightarrow> length s = 2 + 2 * length bs"
proof -
  assume a: "sample_decode s = Ok bs"
  then have t: "take 2 s = ''0x''" and u: "unhex (drop 2 s) = Some bs"
    by (auto simp: sample_decode_def split: if_splits option.splits)
  from t have "length (take 2 s) = 2" by simp
  then have "2 \<le> length s" by simp
  with unhex_length [OF u] show ?thesis by simp
qed

lemma sample_hexutil_ok: "hexutil_ok sample_lib"
  by (auto simp: hexutil_ok_def sample_lib_def sample_decode_Ok)
    (simp add: sample_decode_def unhex_hex_bytes)

lemma sample_address_hex_ok: "address_hex_ok sample_lib"
proof -
  have "unat a mod 16 ^ 40 = unat a" for a :: address
    using unsigned_less [where ?'a = nat, of a] by simp
  then show ?thesis
    by (simp add: address_hex_ok_def sample_lib_def sample_HexToAddress_def sample_AddressHex_def
        hex_nat_fixed)
qed

lemma sample_signer_ok: "signer_ok sample_lib"
  by (simp add: signer_ok_def sample_lib_def uint_bytes_def)

end
