(* ===== verification/Demo.thy ===== *)
theory Demo
  imports World Amounts Sample_Lib Go_Path "HOL-Library.State_Monad"
begin

text \<open>
  internal/demo/demo.go and cmd/demo/main.go: the orchestrator. It starts the four services,
  waits until they are healthy, drives the scenario through their HTTP interfaces and prints a
  report with three checks. The code is a long sequence of effects, so it is written in the state
  monad over the world: a request, a pause, a process start and a printed line are its steps,
  recorded in the trace. A step that may panic, as a request to a malformed URL does, returns an
  outcome, and \<open>proceed\<close> goes on after it. The properties are in Demo_Properties.
\<close>

section \<open>Effects\<close>

text \<open>
  What the process asks of its host: the path of its executable, starting and killing
  processes, sleeping (milliseconds). All of them may change the environment.
\<close>

record 'e host =
  hs_Executable :: "string res"
  hs_start :: "string \<Rightarrow> string list \<Rightarrow> 'e \<Rightarrow> unit res \<times> 'e"
  hs_kill :: "string \<Rightarrow> 'e \<Rightarrow> unit \<times> 'e"
  hs_sleep :: "nat \<Rightarrow> 'e \<Rightarrow> unit \<times> 'e"

type_synonym ('e, 'stx, 'a) io = "(('e, 'stx) world, 'a) state"

definition act :: "'stx event \<Rightarrow> ('e \<Rightarrow> 'a \<times> 'e) \<Rightarrow> ('e, 'stx, 'a) io" where
  "act ev f = State (net_call ev f)"

text \<open>A step that may panic, and what follows it: a panic ends the run there.\<close>

definition proceed :: "('e, 'stx, 'a outcome) io \<Rightarrow> ('a \<Rightarrow> ('e, 'stx, 'b outcome) io) \<Rightarrow> ('e, 'stx, 'b outcome) io" where
  "proceed m f = do {
     r \<leftarrow> m;
     (case r of Panic \<Rightarrow> State_Monad.return Panic | Done x \<Rightarrow> f x)
   }"

text \<open>A request built with \<open>http.NewRequestWithContext\<close>, whose error every caller drops, and sent.\<close>

definition http_do :: "('e, 'stx) net \<Rightarrow> http_req \<Rightarrow> ('e, 'stx, response res outcome) io" where
  "http_do N q = State (http_call N q)"

definition printf :: "string \<Rightarrow> ('e, 'stx, unit) io" where
  "printf t = act (EPrint t) (Pair ())"

definition sleep :: "'e host \<Rightarrow> nat \<Rightarrow> ('e, 'stx, unit) io" where
  "sleep H ms = act (ESleep ms) (hs_sleep H ms)"

section \<open>Text\<close>

definition esc :: "string \<Rightarrow> string" where
  "esc s = CHR 0x1B # s"

definition amber :: string where "amber = esc ''[38;5;179m''"
definition teal :: string where "teal = esc ''[38;5;80m''"
definition dim :: string where "dim = esc ''[2m''"
definition bold :: string where "bold = esc ''[1m''"
definition green :: string where "green = esc ''[38;5;71m''"
definition red :: string where "red = esc ''[38;5;167m''"
definition reset :: string where "reset = esc ''[0m''"

definition tint :: "string \<Rightarrow> string \<Rightarrow> string" where
  "tint c s = c @ s @ reset"

text \<open>The characters of the report outside ASCII, in UTF-8.\<close>

definition nl :: string where "nl = [CHR 0x0A]"
definition em_dash :: string where "em_dash = [CHR 0xE2, CHR 0x80, CHR 0x94]"
definition ellipsis :: string where "ellipsis = [CHR 0xE2, CHR 0x80, CHR 0xA6]"
definition arrow :: string where "arrow = [CHR 0xE2, CHR 0x86, CHR 0x92]"
definition rule6 :: string where "rule6 = concat (replicate 6 [CHR 0xE2, CHR 0x95, CHR 0x90])"
definition bar :: string where "bar = [CHR 0xE2, CHR 0x94, CHR 0x80]"
definition check_mark :: string where "check_mark = [CHR 0xE2, CHR 0x9C, CHR 0x93]"
definition cross_mark :: string where "cross_mark = [CHR 0xE2, CHR 0x9C, CHR 0x97]"
definition circled :: "char \<Rightarrow> string" where "circled c = [CHR 0xE2, CHR 0x91, c]"

text \<open>\<open>%-24s\<close> and \<open>%16s\<close>: the width counts code points.\<close>

definition rune_count :: "string \<Rightarrow> nat" where
  "rune_count s = length (filter (\<lambda>c. \<not> (128 \<le> (of_char c :: nat) \<and> (of_char c :: nat) < 192)) s)"

definition pad_right :: "nat \<Rightarrow> string \<Rightarrow> string" where
  "pad_right n s = s @ replicate (n - rune_count s) (CHR '' '')"

definition pad_left :: "nat \<Rightarrow> string \<Rightarrow> string" where
  "pad_left n s = replicate (n - rune_count s) (CHR '' '') @ s"

section \<open>HTTP plumbing\<close>

text \<open>\<open>getJSON\<close> and \<open>postJSON\<close> return the decoded value with the error.\<close>

definition getJSON :: "('sk, 'stx) lib \<Rightarrow> ('e, 'stx) net \<Rightarrow> string \<Rightarrow> schema
    \<Rightarrow> ('e, 'stx, (dval \<times> error option) outcome) io" where
  "getJSON L N url out =
     proceed (http_do N \<lparr>hq_method = ''GET'', hq_url = url, hq_body = Text []\<rparr>) (\<lambda>resp.
       State_Monad.return (Done
         (case resp of
            Err e \<Rightarrow> (zero_val out, Some e)
          | Ok r \<Rightarrow> (case decode_body out (rs_body r) of (v, err) \<Rightarrow> (v, map_option (jsonErrText L) err)))))"

definition error_body :: schema where
  "error_body = SStruct [(''error'', SStr)]"

text \<open>What \<open>postJSON\<close> makes of an answer.\<close>

definition post_answer :: "('sk, 'stx) lib \<Rightarrow> schema \<Rightarrow> response \<Rightarrow> dval \<times> error option" where
  "post_answer L out r =
     (if rs_status r \<noteq> 200
      then (let e = str_field ''error'' (fst (decode_body error_body (rs_body r)))
            in (zero_val out, Some (if e = [] then bodyText L (rs_body r) else e)))
      else (case decode_body out (rs_body r) of (v, err) \<Rightarrow> (v, map_option (jsonErrText L) err)))"

definition postJSON :: "('sk, 'stx) lib \<Rightarrow> ('e, 'stx) net \<Rightarrow> string \<Rightarrow> json \<Rightarrow> schema
    \<Rightarrow> ('e, 'stx, (dval \<times> error option) outcome) io" where
  "postJSON L N url b out =
     proceed (http_do N \<lparr>hq_method = ''POST'', hq_url = url, hq_body = Json b\<rparr>) (\<lambda>resp.
       State_Monad.return (Done
         (case resp of
            Err e \<Rightarrow> (zero_val out, Some e)
          | Ok r \<Rightarrow> post_answer L out r)))"

text \<open>The loop of \<open>waitHealthy\<close>, with the iterations that remain of its 80.\<close>

fun wait_loop :: "('e, 'stx) net \<Rightarrow> 'e host \<Rightarrow> string \<Rightarrow> nat \<Rightarrow> ('e, 'stx, error option outcome) io" where
  "wait_loop N H base 0 =
     State_Monad.return (Done (Some (''service at '' @ base @ '' never became healthy'')))"
| "wait_loop N H base (Suc n) =
     proceed (http_do N \<lparr>hq_method = ''GET'', hq_url = base @ ''/health'', hq_body = Text []\<rparr>) (\<lambda>resp.
       if (case resp of Ok r \<Rightarrow> rs_status r = 200 | Err _ \<Rightarrow> False)
       then State_Monad.return (Done None)
       else do { _ \<leftarrow> sleep H 200; wait_loop N H base n })"

definition waitHealthy :: "('e, 'stx) net \<Rightarrow> 'e host \<Rightarrow> string \<Rightarrow> ('e, 'stx, error option outcome) io" where
  "waitHealthy N H base = wait_loop N H base 80"

fun wait_all :: "('e, 'stx) net \<Rightarrow> 'e host \<Rightarrow> string list \<Rightarrow> ('e, 'stx, error option outcome) io" where
  "wait_all N H [] = State_Monad.return (Done None)"
| "wait_all N H (u # us) =
     proceed (waitHealthy N H u) (\<lambda>e.
       case e of Some x \<Rightarrow> State_Monad.return (Done (Some x)) | None \<Rightarrow> wait_all N H us)"

section \<open>Scenario helpers\<close>

record demo_tx =
  dt_Op :: string
  dt_TxHash :: string
  dt_Status :: string
  dt_BlockNumber :: string
  dt_SignedBy :: string

definition txResult :: schema where
  "txResult = SStruct [(''op'', SStr), (''txHash'', SStr), (''status'', SStr), (''blockNumber'', SStr),
                       (''signedBy'', SStr)]"

definition demo_tx_of :: "dval \<Rightarrow> demo_tx" where
  "demo_tx_of v = \<lparr>dt_Op = str_field ''op'' v, dt_TxHash = str_field ''txHash'' v,
     dt_Status = str_field ''status'' v, dt_BlockNumber = str_field ''blockNumber'' v,
     dt_SignedBy = str_field ''signedBy'' v\<rparr>"

fun slice_elems :: "dval \<Rightarrow> dval list" where
  "slice_elems (DSlice vs) = vs"
| "slice_elems _ = []"

definition tx_line :: "string \<Rightarrow> demo_tx \<Rightarrow> string" where
  "tx_line c t =
     (let mark = (if dt_Status t \<noteq> ''success'' then tint red (cross_mark @ '' reverted'') else tint green check_mark);
          hash = (if 18 < length (dt_TxHash t) then take 18 (dt_TxHash t) @ ellipsis else dt_TxHash t);
          signer = (if 10 < length (dt_SignedBy t) then take 10 (dt_SignedBy t) @ ellipsis else dt_SignedBy t)
      in ''    '' @ mark @ '' '' @ pad_right 24 (dt_Op t) @ '' '' @ dim @ ''blk#'' @ dt_BlockNumber t @ reset @
         ''  '' @ dim @ hash @ reset @ ''  signed by '' @ tint c signer @ nl)"

definition print_tx :: "string \<Rightarrow> demo_tx \<Rightarrow> ('e, 'stx, unit) io" where
  "print_tx c t = printf (tx_line c t)"

fun print_txs :: "string \<Rightarrow> demo_tx list \<Rightarrow> ('e, 'stx, unit) io" where
  "print_txs c [] = State_Monad.return ()"
| "print_txs c (t # ts) = do { _ \<leftarrow> print_tx c t; print_txs c ts }"

definition raw_body :: schema where
  "raw_body = SStruct [(''raw'', SStr)]"

definition demo_balanceOf :: "('sk, 'stx) lib \<Rightarrow> ('e, 'stx) net \<Rightarrow> env \<Rightarrow> string
    \<Rightarrow> ('e, 'stx, string outcome) io" where
  "demo_balanceOf L N env addr =
     proceed (getJSON L N (bank_DepositSvcURL (BankA L env) @ ''/balance?account='' @ addr) raw_body) (\<lambda>p.
       (let raw = str_field ''raw'' (fst p)
        in State_Monad.return (Done (if raw = [] then ''0'' else raw))))"

definition supplies_body :: schema where
  "supplies_body = SStruct [(''token'', SStruct [(''totalSupply'', SStr), (''reserveLedgerSupply'', SStr)])]"

definition bankB_hex :: "('sk, 'stx) lib \<Rightarrow> env \<Rightarrow> string" where
  "bankB_hex L env = AddressHex L (bank_Address (BankB L env))"

definition merchant_hex :: "('sk, 'stx) lib \<Rightarrow> string" where
  "merchant_hex L = AddressHex L (Merchant L)"

definition showBalances :: "('sk, 'stx) lib \<Rightarrow> ('e, 'stx) net \<Rightarrow> env \<Rightarrow> string
    \<Rightarrow> ('e, 'stx, (string \<times> string) outcome) io" where
  "showBalances L N env title =
     proceed (demo_balanceOf L N env (bankB_hex L env)) (\<lambda>bB.
     proceed (demo_balanceOf L N env (merchant_hex L)) (\<lambda>mer.
     proceed (getJSON L N (bank_DepositSvcURL (BankA L env) @ ''/info'') supplies_body) (\<lambda>p.
     (let token = struct_field ''token'' (fst p);
          supply = str_field ''totalSupply'' token;
          rl = str_field ''reserveLedgerSupply'' token
      in do {
        _ \<leftarrow> printf (nl @ bold @ ''  '' @ title @ reset @ nl);
        _ \<leftarrow> printf (''    '' @ tint teal ''Bank B wallet'' @ ''   '' @ pad_left 16 (fmtWFUSD bB) @ ''   '' @
                    dim @ bankB_hex L env @ reset @ nl);
        _ \<leftarrow> printf (''    Merchant          '' @ pad_left 16 (fmtWFUSD mer) @ ''   '' @
                    dim @ merchant_hex L @ reset @ nl);
        _ \<leftarrow> printf (dim @ ''    '' @ bar @ '' deposit-token supply '' @ fmtWFUSD supply @ ''  '' @ middle_dot @
                    ''  ReserveLedger backing '' @ fmtWFUSD rl @ reset @ nl);
        State_Monad.return (Done (supply, rl))
      }))))"

definition wrong_key_req :: "('sk, 'stx) lib \<Rightarrow> env \<Rightarrow> http_req" where
  "wrong_key_req L env =
     \<lparr>hq_method = ''POST'', hq_url = bank_SigningRouterURL (BankA L env) @ ''/sign'',
      hq_body = Json (jmap [(''keyId'', JStr (bank_KeyID (BankB L env))),
                            (''hash'', JStr (''0x'' @ strings_Repeat ''11'' 32))])\<rparr>"

definition signWithWrongKey :: "('sk, 'stx) lib \<Rightarrow> ('e, 'stx) net \<Rightarrow> env \<Rightarrow> ('e, 'stx, nat outcome) io" where
  "signWithWrongKey L N env =
     proceed (http_do N (wrong_key_req L env)) (\<lambda>resp.
       State_Monad.return (Done (case resp of Err _ \<Rightarrow> 0 | Ok r \<Rightarrow> rs_status r)))"

section \<open>Processes\<close>

text \<open>
  What a goroutine started by \<open>spawn\<close> prints of a child's output, from the results of its reads in
  order (the bytes and the error, at most 4096 bytes each): every read is split into lines of its
  own. The list of reads ends where the reader blocks.
\<close>

fun print_lines :: "string \<Rightarrow> string \<Rightarrow> string list \<Rightarrow> ('e, 'stx, unit) io" where
  "print_lines lbl color [] = State_Monad.return ()"
| "print_lines lbl color (l # ls) = do {
     _ \<leftarrow> printf (''  '' @ [CHR 0xE2, CHR 0x94, CHR 0x8A] @ '' '' @ lbl @ '' '' @ color @ l @ reset @ nl);
     print_lines lbl color ls
   }"

fun pipePrefixed :: "(string \<times> error option) list \<Rightarrow> string \<Rightarrow> string \<Rightarrow> ('e, 'stx, unit) io" where
  "pipePrefixed [] lbl color = State_Monad.return ()"
| "pipePrefixed ((buf, err) # reads) lbl color = do {
     _ \<leftarrow> (if buf \<noteq> [] then print_lines lbl color (strings_Split (CHR 0x0A) (strings_TrimRight (CHR 0x0A) buf))
          else State_Monad.return ());
     (if err \<noteq> None then State_Monad.return () else pipePrefixed reads lbl color)
   }"

text \<open>The directory the sibling binaries are looked up in.\<close>

definition binDir :: "'e host \<Rightarrow> string res" where
  "binDir H = (case hs_Executable H of Err e \<Rightarrow> Err e | Ok exe \<Rightarrow> Ok (filepath_Dir exe))"

text \<open>
  \<open>spawn\<close> starts \<open>binDir/bin\<close> with variables added to the environment. The two goroutines that
  copy its output run beside the rest of the demo; they are not part of its trace. The flag says
  whether the process started.
\<close>

definition spawn :: "'e host \<Rightarrow> string \<Rightarrow> string \<Rightarrow> string list \<Rightarrow> ('e, 'stx, string \<times> bool) io" where
  "spawn H dir bin vars = do {
     r \<leftarrow> act (ESpawn (filepath_Join [dir, bin]) vars) (hs_start H (filepath_Join [dir, bin]) vars);
     (case r of
        Ok _ \<Rightarrow> State_Monad.return (bin, True)
      | Err e \<Rightarrow> do {
          _ \<leftarrow> printf (red @ ''  '' @ cross_mark @ '' failed to start '' @ bin @ '': '' @ e @ reset @ nl);
          State_Monad.return (bin, False) })
   }"

abbreviation itoa :: "int \<Rightarrow> string" where
  "itoa i \<equiv> big_String i"

definition spawn_services :: "('sk, 'stx) lib \<Rightarrow> 'e host \<Rightarrow> env \<Rightarrow> string
    \<Rightarrow> ('e, 'stx, (string \<times> bool) list) io" where
  "spawn_services L H env dir =
     (let A = BankA L env; B = BankB L env in do {
        a \<leftarrow> spawn H dir ''signing-router''
               [''PORT='' @ itoa (bank_SigningRouterPort A), ''LABEL=Bank A router'',
                ''ROUTER_KEYS='' @ bank_KeyID A];
        b \<leftarrow> spawn H dir ''signing-router''
               [''PORT='' @ itoa (bank_SigningRouterPort B), ''LABEL=Bank B router'',
                ''ROUTER_KEYS='' @ bank_KeyID B];
        c \<leftarrow> spawn H dir ''deposit-svc'' [''BANK_ID='' @ bank_ID A];
        d \<leftarrow> spawn H dir ''deposit-svc'' [''BANK_ID='' @ bank_ID B];
        State_Monad.return [a, b, c, d]
      })"

fun kill_all :: "'e host \<Rightarrow> (string \<times> bool) list \<Rightarrow> ('e, 'stx, unit) io" where
  "kill_all H [] = State_Monad.return ()"
| "kill_all H ((name, started) # ps) = do {
     _ \<leftarrow> (if started then act (EKill name) (hs_kill H name) else State_Monad.return ());
     kill_all H ps
   }"

section \<open>The scenario\<close>

text \<open>\<open>if err != nil { return err }\<close>.\<close>

definition guard_ok :: "error option \<Rightarrow> ('e, 'stx, error option outcome) io \<Rightarrow> ('e, 'stx, error option outcome) io" where
  "guard_ok err k = (case err of Some e \<Rightarrow> State_Monad.return (Done (Some e)) | None \<Rightarrow> k)"

definition service_urls :: "('sk, 'stx) lib \<Rightarrow> env \<Rightarrow> string list" where
  "service_urls L env =
     [bank_SigningRouterURL (BankA L env), bank_SigningRouterURL (BankB L env),
      bank_DepositSvcURL (BankA L env), bank_DepositSvcURL (BankB L env)]"

definition token_body :: schema where
  "token_body = SStruct [(''token'', SStruct [(''Name'', SStr), (''Symbol'', SStr), (''Decimals'', SInt)])]"

definition print_token :: "dval \<Rightarrow> ('e, 'stx, unit) io" where
  "print_token info =
     (let t = struct_field ''token'' info
      in printf (''  Token: '' @ bold @ str_field ''Name'' t @ reset @ '' ('' @ str_field ''Symbol'' t @ ''), '' @
                 big_String (int_field ''Decimals'' t) @ '' decimals'' @ nl))"

definition onboard_targets :: "('sk, 'stx) lib \<Rightarrow> env \<Rightarrow> (string \<times> string) list" where
  "onboard_targets L env = [(''Bank B wallet'', bankB_hex L env), (''Merchant'', merchant_hex L)]"

fun onboard_loop :: "('sk, 'stx) lib \<Rightarrow> ('e, 'stx) net \<Rightarrow> env \<Rightarrow> (string \<times> string) list
    \<Rightarrow> ('e, 'stx, error option outcome) io" where
  "onboard_loop L N env [] = State_Monad.return (Done None)"
| "onboard_loop L N env ((who, addr) # ts) =
     proceed (postJSON L N (bank_DepositSvcURL (BankA L env) @ ''/authorize'')
                (jmap [(''account'', JStr addr)]) (SSlice txResult)) (\<lambda>p.
       case snd p of
         Some e \<Rightarrow> State_Monad.return (Done (Some e))
       | None \<Rightarrow> do {
           _ \<leftarrow> printf (dim @ ''    onboarded '' @ who @ reset @ nl);
           _ \<leftarrow> print_txs amber (map demo_tx_of (slice_elems (fst p)));
           onboard_loop L N env ts })"

text \<open>Steps 2 and 3: one write through a deposit service, printed.\<close>

definition write_step :: "('sk, 'stx) lib \<Rightarrow> ('e, 'stx) net \<Rightarrow> string \<Rightarrow> string \<Rightarrow> string \<Rightarrow> string
    \<Rightarrow> ('e, 'stx, error option outcome) io" where
  "write_step L N url to amount colour =
     proceed (postJSON L N url (jmap [(''to'', JStr to), (''amount'', JStr amount)]) txResult) (\<lambda>p.
       case snd p of
         Some e \<Rightarrow> State_Monad.return (Done (Some e))
       | None \<Rightarrow> do { _ \<leftarrow> print_tx colour (demo_tx_of (fst p)); State_Monad.return (Done None) })"

definition reconcile_line :: "string \<Rightarrow> string \<Rightarrow> string" where
  "reconcile_line supply rl =
     (if supply = rl
      then ''    '' @ green @ check_mark @ reset @ '' ReserveLedger backing '' @ fmtWFUSD rl @
           '' == deposit-token supply '' @ fmtWFUSD supply @ nl
      else ''    '' @ red @ cross_mark @ reset @ '' backing '' @ fmtWFUSD rl @ '' != supply '' @
           fmtWFUSD supply @ nl)"

definition mint_check_line :: "error option \<Rightarrow> string" where
  "mint_check_line err =
     (case err of
        Some e \<Rightarrow> ''    '' @ green @ check_mark @ reset @ '' Bank B cannot mint '' @ dim @ ''('' @ e @ '')'' @ reset @ nl
      | None \<Rightarrow> ''    '' @ red @ cross_mark @ reset @ '' Bank B was able to mint '' @ em_dash @ '' SHOULD NOT HAPPEN'' @ nl)"

definition key_check_line :: "nat \<Rightarrow> string" where
  "key_check_line code =
     (if code = 403
      then ''    '' @ green @ check_mark @ reset @ '' Bank A'' @ [CHR 0x27] @ ''s router refuses to sign with Bank B'' @
           [CHR 0x27] @ ''s key '' @ dim @ ''(403 '' @ em_dash @ '' key not held)'' @ reset @ nl
      else ''    '' @ red @ cross_mark @ reset @ '' Bank A'' @ [CHR 0x27] @ ''s router signed for Bank B '' @ em_dash @
           '' SHOULD NOT HAPPEN ('' @ nat_text code @ '')'' @ nl)"

text \<open>Step 4: the three checks.\<close>

definition checks :: "('sk, 'stx) lib \<Rightarrow> ('e, 'stx) net \<Rightarrow> env \<Rightarrow> string \<Rightarrow> string \<Rightarrow> ('e, 'stx, unit outcome) io" where
  "checks L N env supply rl = do {
     _ \<leftarrow> printf (nl @ bold @ ''  '' @ circled (CHR 0xA3) @ '' Reconcile & key-isolation checks'' @ reset @ nl);
     _ \<leftarrow> printf (reconcile_line supply rl);
     proceed (postJSON L N (bank_DepositSvcURL (BankB L env) @ ''/mint'')
                (jmap [(''to'', JStr (bankB_hex L env)), (''amount'', JStr ''1'')]) (SStruct [])) (\<lambda>p. do {
     _ \<leftarrow> printf (mint_check_line (snd p));
     proceed (signWithWrongKey L N env) (\<lambda>code. do {
     _ \<leftarrow> printf (key_check_line code);
     _ \<leftarrow> printf (nl @ green @ ''  '' @ check_mark @ '' Demo complete '' @ em_dash @
             '' two banks, two keys, tokens moved in real time.'' @ reset @ nl @ nl);
     State_Monad.return (Done ())
     })})
   }"

text \<open>From the health checks to the end.\<close>

definition scenario :: "('sk, 'stx) lib \<Rightarrow> ('e, 'stx) net \<Rightarrow> 'e host \<Rightarrow> env
    \<Rightarrow> ('e, 'stx, error option outcome) io" where
  "scenario L N H env =
     proceed (wait_all N H (service_urls L env)) (\<lambda>e. guard_ok e (do {
     _ \<leftarrow> sleep H 300;
     proceed (getJSON L N (bank_DepositSvcURL (BankA L env) @ ''/info'') token_body) (\<lambda>info. guard_ok (snd info) (do {
     _ \<leftarrow> print_token (fst info);
     proceed (showBalances L N env ''Opening balances'') (\<lambda>_. do {
     _ \<leftarrow> printf (nl @ amber @ ''  '' @ circled (CHR 0xA0) @ '' Bank A authorizes Bank B'' @ [CHR 0x27] @
                 ''s wallet and the merchant'' @ reset @ nl);
     proceed (onboard_loop L N env (onboard_targets L env)) (\<lambda>e. guard_ok e (do {
     _ \<leftarrow> printf (nl @ amber @ ''  '' @ circled (CHR 0xA1) @ '' Bank A mints '' @ bold @ ''1,000,000 WFUSD'' @
                 (reset @ amber) @ '' '' @ arrow @ '' Bank B'' @ [CHR 0x27] @ ''s wallet'' @ reset @ nl);
     proceed (State_Monad.return (wfusd ''1000000'')) (\<lambda>minted.
     proceed (write_step L N (bank_DepositSvcURL (BankA L env) @ ''/mint'') (bankB_hex L env) minted amber)
       (\<lambda>e. guard_ok e (
     proceed (showBalances L N env ''After mint'') (\<lambda>_. do {
     _ \<leftarrow> printf (nl @ teal @ ''  '' @ circled (CHR 0xA2) @ '' Bank B transfers '' @ bold @ ''250,000 WFUSD'' @
                 (reset @ teal) @ '' '' @ arrow @ '' Merchant (real-time)'' @ reset @ nl);
     proceed (State_Monad.return (wfusd ''250000'')) (\<lambda>moved.
     proceed (write_step L N (bank_DepositSvcURL (BankB L env) @ ''/transfer'') (merchant_hex L) moved teal)
       (\<lambda>e. guard_ok e (
     proceed (showBalances L N env ''After transfer'') (\<lambda>p.
     proceed (checks L N env (fst p) (snd p)) (\<lambda>_.
     State_Monad.return (Done None))))))}))))}))}) }))}))"

definition print_banner :: "('sk, 'stx) lib \<Rightarrow> deployment \<Rightarrow> ('e, 'stx, unit) io" where
  "print_banner L dep = do {
     _ \<leftarrow> printf (nl @ bold @ rule6 @ '' Besu Interbank Deposit-Token Demo '' @ rule6 @ reset @ nl);
     _ \<leftarrow> printf (dim @ ''  chainId '' @ nat_text (unat (dep_ChainID dep)) @ '' '' @ middle_dot @
                 '' deposit token @ '' @ AddressHex L (dep_DepositToken dep) @ reset @ nl);
     printf (dim @ ''  Each bank runs its own signing-router (its key) + deposit-svc (no key).'' @ reset @ nl @ nl)
   }"

definition demo_Run :: "('sk, 'stx) lib \<Rightarrow> ('e, 'stx) net \<Rightarrow> 'e host \<Rightarrow> env \<Rightarrow> deployment res
    \<Rightarrow> ('e, 'stx, error option outcome) io" where
  "demo_Run L N H env load =
     (case load of
        Err e \<Rightarrow> State_Monad.return (Done (Some e))
      | Ok dep \<Rightarrow> do {
          _ \<leftarrow> print_banner L dep;
          (if env ''DEMO_SPAWN'' \<noteq> ''false''
           then (case binDir H of
                   Err e \<Rightarrow> State_Monad.return (Done (Some e))
                 | Ok dir \<Rightarrow> do {
                     procs \<leftarrow> spawn_services L H env dir;
                     r \<leftarrow> scenario L N H env;
                     _ \<leftarrow> kill_all H procs;
                     State_Monad.return r })
           else scenario L N H env)
        })"

text \<open>\<open>main\<close>: the text the process dies with, or success.\<close>

definition demo_main :: "('sk, 'stx) lib \<Rightarrow> ('e, 'stx) net \<Rightarrow> 'e host \<Rightarrow> env \<Rightarrow> deployment res
    \<Rightarrow> ('e, 'stx, error option outcome) io" where
  "demo_main L N H env load = do {
     r \<leftarrow> demo_Run L N H env load;
     State_Monad.return
       (case r of
          Done (Some e) \<Rightarrow> Done (Some (nl @ ''  '' @ cross_mark @ '' '' @ e @ nl))
        | _ \<Rightarrow> r)
   }"

end
