(* ===== verification/Deposit_Service.thy ===== *)
theory Deposit_Service
  imports World Sample_Lib "HOL-Library.Sublist"
begin

text \<open>
  internal/depositsvc/service.go: one bank's deposit service. It builds transactions, has them
  signed by its router over HTTP, broadcasts them and reads the chain; it holds no key. Every
  operation takes the library \<open>L\<close>, the clients \<open>N\<close>, the service and the world, and returns its
  Go result with the world after it.
\<close>

section \<open>State\<close>

record service =
  sv_bank :: bank
  sv_dep :: deployment

record tx_result =
  tr_Op :: string
  tr_TxHash :: string
  tr_Status :: string
  tr_BlockNumber :: string
  tr_GasUsed :: string
  tr_SignedBy :: string

record token_info =
  ti_Name :: string
  ti_Symbol :: string
  ti_Decimals :: "8 word"
  ti_TotalSupply :: string
  ti_ReserveLedgerSupply :: string

section \<open>Asking the router for a signature\<close>

definition sign_answer :: schema where
  "sign_answer = SStruct [(''signature'', SStr), (''address'', SStr), (''error'', SStr)]"

definition sign_http_req :: "('sk, 'stx) lib \<Rightarrow> service \<Rightarrow> bytes \<Rightarrow> http_req" where
  "sign_http_req L s hash =
     \<lparr>hq_method = ''POST'', hq_url = bank_SigningRouterURL (sv_bank s) @ ''/sign'',
      hq_body = Json (jmap [(''keyId'', JStr (bank_KeyID (sv_bank s))),
                            (''hash'', JStr (hexutilEncode L hash))])\<rparr>"

text \<open>What \<open>routerSign\<close> makes of the router's answer.\<close>

definition sign_response :: "('sk, 'stx) lib \<Rightarrow> service \<Rightarrow> response \<Rightarrow> (bytes \<times> string) res" where
  "sign_response L s resp =
     (case decode_body sign_answer (rs_body resp) of
        (_, Some je) \<Rightarrow> Err (''signing-router decode: '' @ jsonErrText L je)
      | (out, None) \<Rightarrow>
          if rs_status resp \<noteq> 200
          then Err (''signing-router '' @ bank_SigningRouterURL (sv_bank s) @ '' refused: '' @
                    nat_text (rs_status resp) @ '' '' @ str_field ''error'' out)
          else (case hexutilDecode L (str_field ''signature'' out) of
                  Err e \<Rightarrow> Err (''signing-router bad signature: '' @ e)
                | Ok sig \<Rightarrow> Ok (sig, str_field ''address'' out)))"

definition routerSign :: "('sk, 'stx) lib \<Rightarrow> ('e, 'stx) net \<Rightarrow> service \<Rightarrow> bytes \<Rightarrow> ('e, 'stx) world
    \<Rightarrow> (bytes \<times> string) res outcome \<times> ('e, 'stx) world" where
  "routerSign L N s hash w =
     (case http_call N (sign_http_req L s hash) w of
        (Panic, w) \<Rightarrow> (Panic, w)
      | (Done (Err e), w) \<Rightarrow> (Done (Err (''signing-router: '' @ e)), w)
      | (Done (Ok resp), w) \<Rightarrow> (Done (sign_response L s resp), w))"

section \<open>Build, sign, assemble, broadcast\<close>

definition unsigned_tx :: "u64 \<Rightarrow> int \<Rightarrow> u64 \<Rightarrow> address \<Rightarrow> bytes \<Rightarrow> DynamicFeeTx" where
  "unsigned_tx nonce baseFee gas to data =
     \<lparr>tx_ChainID = ChainID, tx_Nonce = nonce, tx_To = to, tx_Value = 0, tx_Data = data,
      tx_GasTipCap = 0, tx_GasFeeCap = baseFee, tx_Gas = gas * 2\<rparr>"

definition base_fee :: "header \<Rightarrow> int" where
  "base_fee head = (case hd_BaseFee head of None \<Rightarrow> 0 | Some f \<Rightarrow> f)"

text \<open>Step 4 of the pipeline: assemble the signed transaction, broadcast it, wait for its receipt.\<close>

definition assembleBroadcast :: "('sk, 'stx) lib \<Rightarrow> ('e, 'stx) net \<Rightarrow> string \<Rightarrow> DynamicFeeTx \<Rightarrow> bytes
    \<Rightarrow> string \<Rightarrow> ('e, 'stx) world \<Rightarrow> tx_result res \<times> ('e, 'stx) world" where
  "assembleBroadcast L N op tx sig signer w =
     (case WithSignature L tx sig of
        Err e \<Rightarrow> (Err (''assemble: '' @ e), w)
      | Ok signedTx \<Rightarrow>
     (case net_call (ESend signedTx) (SendTransaction N signedTx) w of
        (Err e, w) \<Rightarrow> (Err (''broadcast: '' @ e), w)
      | (Ok _, w) \<Rightarrow>
     (case net_call (EWait signedTx) (WaitMined N signedTx) w of
        (Err e, w) \<Rightarrow> (Err (''wait mined: '' @ e), w)
      | (Ok receipt, w) \<Rightarrow>
          (Ok \<lparr>tr_Op = op,
               tr_TxHash = HashHex L (StxHash L signedTx),
               tr_Status = (if rc_Status receipt = ReceiptStatusSuccessful then ''success'' else ''reverted''),
               tr_BlockNumber = bigp_String (rc_BlockNumber receipt),
               tr_GasUsed = big_String (uint (rc_GasUsed receipt)),
               tr_SignedBy = signer\<rparr>, w))))"

text \<open>Steps 1 to 3: build the unsigned transaction, compute its signing hash, have it signed.\<close>

definition buildSignBroadcast :: "('sk, 'stx) lib \<Rightarrow> ('e, 'stx) net \<Rightarrow> service \<Rightarrow> string \<Rightarrow> address
    \<Rightarrow> bytes \<Rightarrow> ('e, 'stx) world \<Rightarrow> tx_result res outcome \<times> ('e, 'stx) world" where
  "buildSignBroadcast L N s op to data w =
     (let from = bank_Address (sv_bank s) in
      case net_call (ENonce from) (PendingNonceAt N from) w of
        (Err e, w) \<Rightarrow> (Done (Err (''nonce: '' @ e)), w)
      | (Ok nonce, w) \<Rightarrow>
     (case net_call EHead (HeaderByNumber N) w of
        (Err e, w) \<Rightarrow> (Done (Err (''head: '' @ e)), w)
      | (Ok head, w) \<Rightarrow>
     (let msg = \<lparr>cm_From = from, cm_To = to, cm_Data = data\<rparr> in
      case net_call (EEstimate msg) (EstimateGas N msg) w of
        (est, w) \<Rightarrow>
     (let gas = ok_or 800000 est;
          tx = unsigned_tx nonce (base_fee head) gas to data in
      case routerSign L N s (SignerHash L tx) w of
        (Panic, w) \<Rightarrow> (Panic, w)
      | (Done (Err e), w) \<Rightarrow> (Done (Err e), w)
      | (Done (Ok (sig, signer)), w) \<Rightarrow>
          (case assembleBroadcast L N op tx sig signer w of (r, w) \<Rightarrow> (Done r, w))))))"

section \<open>Writes\<close>

definition requireRole :: "('sk, 'stx) lib \<Rightarrow> service \<Rightarrow> role \<Rightarrow> string \<Rightarrow> error option" where
  "requireRole L s want op =
     (if bank_Role (sv_bank s) \<noteq> want
      then Some (bank_Label (sv_bank s) @ '' ('' @ bank_Role (sv_bank s) @ '') may not perform '' @
                 quote L op @ '' '' @ [CHR 0xE2, CHR 0x80, CHR 0x94] @ '' requires '' @ want)
      else None)"

definition Mint :: "('sk, 'stx) lib \<Rightarrow> ('e, 'stx) net \<Rightarrow> service \<Rightarrow> address \<Rightarrow> int \<Rightarrow> ('e, 'stx) world
    \<Rightarrow> tx_result res outcome \<times> ('e, 'stx) world" where
  "Mint L N s to amount w =
     (case requireRole L s RoleIssuer ''mint'' of
        Some e \<Rightarrow> (Done (Err e), w)
      | None \<Rightarrow>
          (case Pack L TokenAuthority_abi ''mint''
                  [AAddress (dep_DepositToken (sv_dep s)), AAddress to, ABigInt amount] of
             Err e \<Rightarrow> (Done (Err e), w)
           | Ok data \<Rightarrow> buildSignBroadcast L N s ''mint'' (dep_TokenAuthority (sv_dep s)) data w))"

definition authorize_steps :: "service \<Rightarrow> (u64 \<times> string) list" where
  "authorize_steps s =
     [(dep_TransferPolicyID (sv_dep s), ''authorize:transfer''),
      (dep_SCMintPolicyID (sv_dep s), ''authorize:mint-recipient'')]"

fun authorize_loop :: "('sk, 'stx) lib \<Rightarrow> ('e, 'stx) net \<Rightarrow> service \<Rightarrow> address \<Rightarrow> (u64 \<times> string) list
    \<Rightarrow> tx_result list \<Rightarrow> ('e, 'stx) world \<Rightarrow> tx_result list res outcome \<times> ('e, 'stx) world" where
  "authorize_loop L N s account [] out w = (Done (Ok out), w)"
| "authorize_loop L N s account ((policyID, tag) # steps) out w =
     (case Pack L AuthRegistry_abi ''modifyPolicyWhitelist''
             [AUint64 policyID, AAddress account, ABool True] of
        Err e \<Rightarrow> (Done (Err e), w)
      | Ok data \<Rightarrow>
          (case buildSignBroadcast L N s tag (dep_AuthRegistry (sv_dep s)) data w of
             (Panic, w) \<Rightarrow> (Panic, w)
           | (Done (Err e), w) \<Rightarrow> (Done (Err e), w)
           | (Done (Ok res), w) \<Rightarrow> authorize_loop L N s account steps (out @ [res]) w))"

definition Authorize :: "('sk, 'stx) lib \<Rightarrow> ('e, 'stx) net \<Rightarrow> service \<Rightarrow> address \<Rightarrow> ('e, 'stx) world
    \<Rightarrow> tx_result list res outcome \<times> ('e, 'stx) world" where
  "Authorize L N s account w =
     (case requireRole L s RoleIssuer ''authorize'' of
        Some e \<Rightarrow> (Done (Err e), w)
      | None \<Rightarrow> authorize_loop L N s account (authorize_steps s) [] w)"

definition Transfer :: "('sk, 'stx) lib \<Rightarrow> ('e, 'stx) net \<Rightarrow> service \<Rightarrow> address \<Rightarrow> int \<Rightarrow> ('e, 'stx) world
    \<Rightarrow> tx_result res outcome \<times> ('e, 'stx) world" where
  "Transfer L N s to amount w =
     (case Pack L DepositToken_abi ''transfer'' [AAddress to, ABigInt amount] of
        Err e \<Rightarrow> (Done (Err e), w)
      | Ok data \<Rightarrow> buildSignBroadcast L N s ''transfer'' (dep_DepositToken (sv_dep s)) data w)"

section \<open>Reads\<close>

definition call :: "('sk, 'stx) lib \<Rightarrow> ('e, 'stx) net \<Rightarrow> address \<Rightarrow> abi \<Rightarrow> string \<Rightarrow> any list
    \<Rightarrow> ('e, 'stx) world \<Rightarrow> any list res \<times> ('e, 'stx) world" where
  "call L N to a m args w =
     (case Pack L a m args of
        Err e \<Rightarrow> (Err e, w)
      | Ok data \<Rightarrow>
          (let msg = \<lparr>cm_From = 0, cm_To = to, cm_Data = data\<rparr>
           in case net_call (ECall msg) (CallContract N msg) w of
                (Err e, w) \<Rightarrow> (Err e, w)
              | (Ok out, w) \<Rightarrow> (Unpack L a m out, w)))"

fun type_name :: "any \<Rightarrow> string" where
  "type_name ANil = ''<nil>''"
| "type_name (AAddress _) = ''common.Address''"
| "type_name (ABigInt _) = ''*big.Int''"
| "type_name (ABool _) = ''bool''"
| "type_name (AUint8 _) = ''uint8''"
| "type_name (AUint64 _) = ''uint64''"
| "type_name (AString _) = ''string''"

text \<open>\<open>vals[0]\<close> panics on an empty result.\<close>

fun uint_value :: "any list \<Rightarrow> int res outcome" where
  "uint_value [] = Panic"
| "uint_value (ABigInt v # _) = Done (Ok v)"
| "uint_value (AUint8 v # _) = Done (Ok (uint v))"
| "uint_value (v # _) = Done (Err (''readUint: unexpected type '' @ type_name v))"

definition readUint :: "('sk, 'stx) lib \<Rightarrow> ('e, 'stx) net \<Rightarrow> address \<Rightarrow> abi \<Rightarrow> string \<Rightarrow> any list
    \<Rightarrow> ('e, 'stx) world \<Rightarrow> int res outcome \<times> ('e, 'stx) world" where
  "readUint L N to a m args w =
     (case call L N to a m args w of
        (Err e, w) \<Rightarrow> (Done (Err e), w)
      | (Ok vals, w) \<Rightarrow> (uint_value vals, w))"

fun string_value :: "any list \<Rightarrow> string res outcome" where
  "string_value [] = Panic"
| "string_value (AString t # _) = Done (Ok t)"
| "string_value (_ # _) = Done (Ok [])"

definition readString :: "('sk, 'stx) lib \<Rightarrow> ('e, 'stx) net \<Rightarrow> address \<Rightarrow> abi \<Rightarrow> string
    \<Rightarrow> ('e, 'stx) world \<Rightarrow> string res outcome \<times> ('e, 'stx) world" where
  "readString L N to a m w =
     (case call L N to a m [] w of
        (Err e, w) \<Rightarrow> (Done (Err e), w)
      | (Ok vals, w) \<Rightarrow> (string_value vals, w))"

definition BalanceOf :: "('sk, 'stx) lib \<Rightarrow> ('e, 'stx) net \<Rightarrow> service \<Rightarrow> address \<Rightarrow> ('e, 'stx) world
    \<Rightarrow> int res outcome \<times> ('e, 'stx) world" where
  "BalanceOf L N s account w =
     readUint L N (dep_DepositToken (sv_dep s)) DepositToken_abi ''balanceOf'' [AAddress account] w"

text \<open>A \<open>*big.Int\<close> whose error was dropped is nil when the read failed.\<close>

fun ptr :: "int res \<Rightarrow> int option" where
  "ptr (Ok v) = Some v"
| "ptr (Err _) = None"

definition TokenInfo :: "('sk, 'stx) lib \<Rightarrow> ('e, 'stx) net \<Rightarrow> service \<Rightarrow> ('e, 'stx) world
    \<Rightarrow> token_info res outcome \<times> ('e, 'stx) world" where
  "TokenInfo L N s w =
     (let dt = dep_DepositToken (sv_dep s) in
      case readString L N dt DepositToken_abi ''name'' w of
        (Panic, w) \<Rightarrow> (Panic, w)
      | (Done (Err e), w) \<Rightarrow> (Done (Err e), w)
      | (Done (Ok name), w) \<Rightarrow>
     (case readString L N dt DepositToken_abi ''symbol'' w of
        (Panic, w) \<Rightarrow> (Panic, w)
      | (Done symbol, w) \<Rightarrow>
     (case readUint L N dt DepositToken_abi ''decimals'' [] w of
        (Panic, w) \<Rightarrow> (Panic, w)
      | (Done dec, w) \<Rightarrow>
     (case readUint L N dt DepositToken_abi ''totalSupply'' [] w of
        (Panic, w) \<Rightarrow> (Panic, w)
      | (Done supply, w) \<Rightarrow>
     (case readUint L N (dep_ReserveLedger (sv_dep s)) ReserveLedger_abi ''totalSupply'' [] w of
        (Panic, w) \<Rightarrow> (Panic, w)
      | (Done rl, w) \<Rightarrow>
          (case ptr dec of
             None \<Rightarrow> (Panic, w)
           | Some d \<Rightarrow>
               (Done (Ok \<lparr>ti_Name = name, ti_Symbol = ok_or [] symbol,
                          ti_Decimals = ucast (big_Uint64 d),
                          ti_TotalSupply = bigp_String (ptr supply),
                          ti_ReserveLedgerSupply = bigp_String (ptr rl)\<rparr>), w)))))))"

section \<open>Lemmas on the pipeline\<close>

abbreviation est_msg :: "service \<Rightarrow> address \<Rightarrow> bytes \<Rightarrow> call_msg" where
  "est_msg s to data \<equiv> \<lparr>cm_From = bank_Address (sv_bank s), cm_To = to, cm_Data = data\<rparr>"

text \<open>The events of a complete run, for the transaction \<open>tx\<close> and its signed form \<open>stx\<close>.\<close>

definition pipeline_events :: "('sk, 'stx) lib \<Rightarrow> service \<Rightarrow> DynamicFeeTx \<Rightarrow> 'stx \<Rightarrow> 'stx event list" where
  "pipeline_events L s tx stx =
     [ENonce (bank_Address (sv_bank s)), EHead, EEstimate (est_msg s (tx_To tx) (tx_Data tx)),
      EHttp (sign_http_req L s (SignerHash L tx)), ESend stx, EWait stx]"

text \<open>The address a service posts its hashes to is one \<open>net/url\<close> accepts.\<close>

definition router_url_parses :: "service \<Rightarrow> bool" where
  "router_url_parses s \<longleftrightarrow> url_parses (bank_SigningRouterURL (sv_bank s) @ ''/sign'')"

lemma sign_http_req_url [simp]:
  "url_parses (hq_url (sign_http_req L s hash)) = router_url_parses s"
  by (simp add: sign_http_req_def router_url_parses_def)

text \<open>The router answered the request for \<open>hash\<close> with 200 and a body that gives \<open>sig\<close> and \<open>addr\<close>.\<close>

definition router_granted :: "('sk, 'stx) lib \<Rightarrow> ('e, 'stx) net \<Rightarrow> service \<Rightarrow> bytes \<Rightarrow> bytes \<Rightarrow> string \<Rightarrow> bool" where
  "router_granted L N s hash sig addr \<longleftrightarrow>
     (\<exists>e e' resp out. HttpDo N (sign_http_req L s hash) e = (Ok resp, e') \<and> rs_status resp = 200 \<and>
        decode_body sign_answer (rs_body resp) = (out, None) \<and>
        hexutilDecode L (str_field ''signature'' out) = Ok sig \<and> str_field ''address'' out = addr)"

text \<open>A malformed router URL panics before the request; otherwise exactly one request is made.\<close>

lemma routerSign_Panic:
  "routerSign L N s hash w = (Panic, w') \<longleftrightarrow> \<not> router_url_parses s \<and> w' = w"
  by (auto simp: routerSign_def dest!: http_call_emits(2) split: prod.splits outcome.splits res.splits)
    (simp_all add: http_call_def split: prod.splits if_splits)

lemma routerSign_emits:
  "routerSign L N s hash w = (Done r, w') \<Longrightarrow> emits w w' [EHttp (sign_http_req L s hash)]"
  by (auto simp: routerSign_def dest!: http_call_emits(1) split: prod.splits outcome.splits res.splits)

lemma routerSign_Ok:
  assumes "routerSign L N s hash w = (Done (Ok (sig, addr)), w')"
  shows "router_granted L N s hash sig addr"
proof -
  from assms obtain resp where "http_call N (sign_http_req L s hash) w = (Done (Ok resp), w')"
    and r: "sign_response L s resp = Ok (sig, addr)"
    by (auto simp: routerSign_def split: prod.splits outcome.splits res.splits)
  from http_call_Done [OF this(1)] have "\<exists>e e'. HttpDo N (sign_http_req L s hash) e = (Ok resp, e')"
    by (auto simp: net_call_def split: prod.splits)
  with r show ?thesis
    by (auto simp: router_granted_def sign_response_def split: prod.splits option.splits res.splits if_splits)
qed

text \<open>What a result says of the receipt the transaction was mined with.\<close>

definition result_of :: "('sk, 'stx) lib \<Rightarrow> ('e, 'stx) net \<Rightarrow> string \<Rightarrow> 'stx \<Rightarrow> string \<Rightarrow> tx_result \<Rightarrow> bool" where
  "result_of L N op stx addr x \<longleftrightarrow>
     tr_Op x = op \<and> tr_TxHash x = HashHex L (StxHash L stx) \<and> tr_SignedBy x = addr \<and>
     (\<exists>e e' rc. WaitMined N stx e = (Ok rc, e') \<and>
        tr_Status x = (if rc_Status rc = ReceiptStatusSuccessful then ''success'' else ''reverted'') \<and>
        tr_BlockNumber x = bigp_String (rc_BlockNumber rc) \<and>
        tr_GasUsed x = big_String (uint (rc_GasUsed rc)))"

lemma result_ofI:
  "WaitMined N stx e = (Ok rc, e') \<Longrightarrow>
     result_of L N op stx addr
       \<lparr>tr_Op = op, tr_TxHash = HashHex L (StxHash L stx),
        tr_Status = (if rc_Status rc = ReceiptStatusSuccessful then ''success'' else ''reverted''),
        tr_BlockNumber = bigp_String (rc_BlockNumber rc),
        tr_GasUsed = big_String (uint (rc_GasUsed rc)), tr_SignedBy = addr\<rparr>"
  unfolding result_of_def by simp blast

lemma assembleBroadcast_cases:
  assumes "assembleBroadcast L N op tx sig addr w = (r, w')"
  obtains (bad) e where "r = Err e" "w' = w"
  | (unsent) stx e where "WithSignature L tx sig = Ok stx" "r = Err e" "emits w w' [ESend stx]"
  | (waited) stx where "WithSignature L tx sig = Ok stx" "emits w w' [ESend stx, EWait stx]"
      "\<forall>x. r = Ok x \<longrightarrow> result_of L N op stx addr x"
proof (cases "WithSignature L tx sig")
  case (Err e)
  with assms show thesis by (intro bad) (auto simp: assembleBroadcast_def)
next
  case stx: (Ok stx)
  obtain r5 w5 where c5: "net_call (ESend stx) (SendTransaction N stx) w = (r5, w5)" by fastforce
  obtain r6 w6 where c6: "net_call (EWait stx) (WaitMined N stx) w5 = (r6, w6)" by fastforce
  note e5 = net_call_emits [OF c5] and e6 = emits_trans [OF net_call_emits [OF c5] net_call_emits [OF c6]]
  show thesis
  proof (cases r5)
    case (Err e)
    with stx c5 assms have "r = Err (''broadcast: '' @ e)" "w' = w5" by (simp_all add: assembleBroadcast_def)
    with e5 stx show thesis by (intro unsent) auto
  next
    case sent: (Ok u)
    have w': "w' = w6" using stx c5 c6 sent assms by (cases r6) (simp_all add: assembleBroadcast_def)
    from c6 have rc: "r6 = Ok rc \<Longrightarrow> \<exists>e e'. WaitMined N stx e = (Ok rc, e')" for rc
      by (auto simp: net_call_def split: prod.splits)
    have "result_of L N op stx addr x" if "r = Ok x" for x
    proof (cases r6)
      case (Ok rc)
      with stx c5 c6 sent assms that show ?thesis
        using rc by (auto simp: assembleBroadcast_def intro: result_ofI)
    next
      case (Err e)
      with stx c5 c6 sent assms that show ?thesis by (simp add: assembleBroadcast_def)
    qed
    with e6 w' stx show thesis by (intro waited) auto
  qed
qed

text \<open>The reads that precede the signing request.\<close>

lemma buildSignBroadcast_reads:
  assumes "buildSignBroadcast L N s op to data w = (r, w')"
  obtains (failed) e es where "r = Done (Err e)" "emits w w' es"
      "es = [ENonce (bank_Address (sv_bank s))] \<or> es = [ENonce (bank_Address (sv_bank s)), EHead]"
  | (built) nonce head est tx v where
      "tx = unsigned_tx nonce (base_fee head) (ok_or 800000 est) to data"
      "emits w v [ENonce (bank_Address (sv_bank s)), EHead, EEstimate (est_msg s to data)]"
      "(case routerSign L N s (SignerHash L tx) v of
          (Panic, v) \<Rightarrow> (Panic, v)
        | (Done (Err e), v) \<Rightarrow> (Done (Err e), v)
        | (Done (Ok (sig, signer)), v) \<Rightarrow>
            (case assembleBroadcast L N op tx sig signer v of (r, v) \<Rightarrow> (Done r, v))) = (r, w')"
proof -
  let ?a = "bank_Address (sv_bank s)" and ?m = "est_msg s to data"
  obtain r1 w1 where c1: "net_call (ENonce ?a) (PendingNonceAt N ?a) w = (r1, w1)" by fastforce
  obtain r2 w2 where c2: "net_call EHead (HeaderByNumber N) w1 = (r2, w2)" by fastforce
  obtain est w3 where c3: "net_call (EEstimate ?m) (EstimateGas N ?m) w2 = (est, w3)" by fastforce
  note e1 = net_call_emits [OF c1]
  note e2 = emits_trans [OF e1 net_call_emits [OF c2]]
  consider e where "r1 = Err e" | nonce e where "r1 = Ok nonce" "r2 = Err e"
    | nonce head where "r1 = Ok nonce" "r2 = Ok head"
    by (cases r1; cases r2) auto
  then show thesis
  proof cases
    case (1 e)
    with c1 assms have "r = Done (Err (''nonce: '' @ e))" "w' = w1" by (simp_all add: buildSignBroadcast_def)
    with e1 show thesis by (intro failed) auto
  next
    case (2 nonce e)
    with c1 c2 assms have "r = Done (Err (''head: '' @ e))" "w' = w2" by (simp_all add: buildSignBroadcast_def)
    with e2 show thesis by (intro failed) auto
  next
    case (3 nonce head)
    with c1 c2 c3 assms emits_trans [OF e2 net_call_emits [OF c3]] show thesis
      by (intro built [of _ nonce head est w3, OF refl]) (simp_all add: buildSignBroadcast_def Let_def)
  qed
qed

text \<open>
  The four ways a run ends: before signing, with a panic where the router's URL is malformed,
  without a broadcast, or after one.
\<close>

lemma buildSignBroadcast_cases:
  assumes "buildSignBroadcast L N s op to data w = (r, w')"
  obtains (no_tx) e es where "r = Done (Err e)" "emits w w' es"
      "es = [ENonce (bank_Address (sv_bank s))] \<or> es = [ENonce (bank_Address (sv_bank s)), EHead]"
  | (panicked) "r = Panic" "\<not> router_url_parses s"
      "emits w w' [ENonce (bank_Address (sv_bank s)), EHead, EEstimate (est_msg s to data)]"
  | (unsigned) e tx where "r = Done (Err e)" "\<And>stx. emits w w' (take 4 (pipeline_events L s tx stx))"
      "\<exists>nonce head est. tx = unsigned_tx nonce (base_fee head) (ok_or 800000 est) to data"
  | (signed) tx sig addr stx n where
      "\<exists>nonce head est. tx = unsigned_tx nonce (base_fee head) (ok_or 800000 est) to data"
      "WithSignature L tx sig = Ok stx" "router_granted L N s (SignerHash L tx) sig addr"
      "emits w w' (take n (pipeline_events L s tx stx))" "n = 5 \<and> (\<exists>e. r = Done (Err e)) \<or> n = 6 \<and> r \<noteq> Panic"
      "\<forall>x. r = Done (Ok x) \<longrightarrow> result_of L N op stx addr x"
  using assms
proof (cases rule: buildSignBroadcast_reads)
  case (failed e es)
  then show thesis by (rule no_tx)
next
  case (built nonce head est tx v)
  then have tx: "\<exists>nonce head est. tx = unsigned_tx nonce (base_fee head) (ok_or 800000 est) to data" by blast
  obtain r4 w4 where c4: "routerSign L N s (SignerHash L tx) v = (r4, w4)" by fastforce
  have e4: "emits w w4 (take 4 (pipeline_events L s tx stx))" if "r4 = Done q" for stx q
    using emits_trans [OF built(2) routerSign_emits [OF c4 [unfolded that]]]
    by (simp add: pipeline_events_def built(1) unsigned_tx_def)
  consider "r4 = Panic" | e where "r4 = Done (Err e)" | sig addr where "r4 = Done (Ok (sig, addr))"
    by (metis outcome.exhaust res.exhaust prod.exhaust)
  then show thesis
  proof cases
    case 1
    with c4 have "\<not> router_url_parses s" "w4 = v" by (simp_all add: routerSign_Panic)
    with c4 1 built(2,3) show thesis by (intro panicked) auto
  next
    case (2 e)
    with c4 built(3) e4 tx show thesis by (intro unsigned [of e tx]) auto
  next
    case (3 sig addr)
    note e4 = e4 [OF 3]
    have granted: "router_granted L N s (SignerHash L tx) sig addr" using routerSign_Ok c4 3 by blast
    from c4 3 built(3) obtain q where q: "assembleBroadcast L N op tx sig addr w4 = (q, w')" "r = Done q"
      by (auto split: prod.splits)
    from q(1) show thesis
    proof (cases rule: assembleBroadcast_cases)
      case (bad e)
      with q(2) e4 tx show thesis by (intro unsigned [of e tx]) auto
    next
      case (unsent stx e)
      with q(2) emits_trans [OF e4 unsent(3)] tx granted show thesis
        by (intro signed [of tx sig stx addr 5]) (auto simp: pipeline_events_def)
    next
      case (waited stx)
      with q(2) emits_trans [OF e4 waited(2)] tx granted show thesis
        by (intro signed [of tx sig stx addr 6]) (auto simp: pipeline_events_def)
    qed
  qed
qed

text \<open>What every broadcast transaction of the service is.\<close>

definition signed_for :: "('sk, 'stx) lib \<Rightarrow> ('e, 'stx) net \<Rightarrow> service \<Rightarrow> address \<Rightarrow> bytes \<Rightarrow> 'stx \<Rightarrow> bool" where
  "signed_for L N s to data t \<longleftrightarrow>
     (\<exists>tx sig addr. WithSignature L tx sig = Ok t \<and> router_granted L N s (SignerHash L tx) sig addr \<and>
        tx_To tx = to \<and> tx_Data tx = data \<and> tx_ChainID tx = 1337 \<and> tx_Value tx = 0 \<and> tx_GasTipCap tx = 0)"

lemma unsigned_tx_fields [simp]:
  "tx_To (unsigned_tx n f g to data) = to" "tx_Data (unsigned_tx n f g to data) = data"
  "tx_ChainID (unsigned_tx n f g to data) = 1337" "tx_Value (unsigned_tx n f g to data) = 0"
  "tx_GasTipCap (unsigned_tx n f g to data) = 0" "tx_GasFeeCap (unsigned_tx n f g to data) = f"
  "tx_Nonce (unsigned_tx n f g to data) = n" "tx_Gas (unsigned_tx n f g to data) = g * 2"
  by (simp_all add: unsigned_tx_def ChainID_def)

lemma sent_pipeline [simp]:
  "sent (take 4 (pipeline_events L s tx stx)) = []"
  "sent (take 5 (pipeline_events L s tx stx)) = [stx]"
  "sent (take 6 (pipeline_events L s tx stx)) = [stx]"
  "sent (pipeline_events L s tx stx) = [stx]"
  by (simp_all add: pipeline_events_def)

lemma length_pipeline [simp]: "length (pipeline_events L s tx stx) = 6"
  by (simp add: pipeline_events_def)

lemma take6_pipeline [simp]: "take 6 (pipeline_events L s tx stx) = pipeline_events L s tx stx"
  by (simp add: pipeline_events_def)

text \<open>The broadcasts of one run: none, or one that is signed for the call's target and data.\<close>

lemma buildSignBroadcast_sent:
  assumes "buildSignBroadcast L N s op to data w = (r, w')"
  obtains (none) es where "emits w w' es" "sent es = []" "\<not> returned r"
  | (one) es t where "emits w w' es" "sent es = [t]" "signed_for L N s to data t"
      "\<forall>x. r = Done (Ok x) \<longrightarrow> (\<exists>addr. result_of L N op t addr x)"
  using assms
proof (cases rule: buildSignBroadcast_cases)
  case (no_tx e es)
  then show thesis by (intro none [of es]) auto
next
  case panicked
  then show thesis by (intro none) auto
next
  case (unsigned e tx)
  have "emits w w' (take 4 (pipeline_events L s tx undefined))" by (rule unsigned(2))
  with unsigned(1) show thesis by (intro none) auto
next
  case (signed tx sig addr stx n)
  from signed(1) have "tx_To tx = to" "tx_Data tx = data" "tx_ChainID tx = 1337" "tx_Value tx = 0"
    "tx_GasTipCap tx = 0" by auto
  with signed(2,3) have "signed_for L N s to data stx" unfolding signed_for_def by blast
  moreover have "sent (take n (pipeline_events L s tx stx)) = [stx]" using signed(5) by auto
  ultimately show thesis using signed(4,6) by (intro one) auto
qed

text \<open>\<open>t\<close> whitelists \<open>account\<close> on the policy \<open>p\<close>.\<close>

definition whitelists :: "('sk, 'stx) lib \<Rightarrow> ('e, 'stx) net \<Rightarrow> service \<Rightarrow> address \<Rightarrow> u64 \<Rightarrow> 'stx \<Rightarrow> bool" where
  "whitelists L N s account p t \<longleftrightarrow>
     (\<exists>data. Pack L AuthRegistry_abi ''modifyPolicyWhitelist''
               [AUint64 p, AAddress account, ABool True] = Ok data \<and>
             signed_for L N s (dep_AuthRegistry (sv_dep s)) data t)"

lemma authorize_loop_sent:
  assumes "authorize_loop L N s account steps out w = (r, w')"
  shows "\<exists>es k. emits w w' es \<and> k \<le> length steps \<and>
     list_all2 (whitelists L N s account) (map fst (take k steps)) (sent es) \<and>
     (\<forall>rs. r = Done (Ok rs) \<longrightarrow> k = length steps \<and> map tr_Op rs = map tr_Op out @ map snd steps)"
  using assms
proof (induction steps arbitrary: out w)
  case Nil
  then show ?case by (intro exI [of _ "[]"] exI [of _ 0]) auto
next
  case (Cons st steps)
  obtain p tag where st: "st = (p, tag)" by (cases st)
  show ?case
  proof (cases "Pack L AuthRegistry_abi ''modifyPolicyWhitelist'' [AUint64 p, AAddress account, ABool True]")
    case (Err e)
    with Cons.prems st show ?thesis by (intro exI [of _ "[]"] exI [of _ 0]) auto
  next
    case data: (Ok data)
    obtain r1 w1 where b: "buildSignBroadcast L N s tag (dep_AuthRegistry (sv_dep s)) data w = (r1, w1)"
      by fastforce
    show ?thesis
    proof (cases "returned r1")
      case False
      with data b st Cons.prems have r: "\<not> returned r" "w' = w1"
        by (auto split: outcome.splits res.splits)
      from b show ?thesis
      proof (cases rule: buildSignBroadcast_sent)
        case (none es)
        with r show ?thesis by (intro exI [of _ es] exI [of _ 0]) auto
      next
        case (one es t)
        with r data st show ?thesis
          by (intro exI [of _ es] exI [of _ "Suc 0"]) (auto simp: whitelists_def)
      qed
    next
      case True
      then obtain x where Ok: "r1 = Done (Ok x)" by (auto simp: returned_iff)
      from b obtain es t where es: "emits w w1 es" "sent es = [t]"
          "signed_for L N s (dep_AuthRegistry (sv_dep s)) data t" and x: "tr_Op x = tag"
        using Ok by (cases rule: buildSignBroadcast_sent) (auto simp: result_of_def)
      from data b st Ok Cons.prems have "authorize_loop L N s account steps (out @ [x]) w1 = (r, w')" by simp
      from Cons.IH [OF this] obtain fs k where fs: "emits w1 w' fs" "k \<le> length steps"
        "list_all2 (whitelists L N s account) (map fst (take k steps)) (sent fs)"
        "\<forall>rs. r = Done (Ok rs) \<longrightarrow> k = length steps \<and> map tr_Op rs = map tr_Op (out @ [x]) @ map snd steps"
        by blast
      with es data st x emits_trans [OF es(1) fs(1)] show ?thesis
        by (intro exI [of _ "es @ fs"] exI [of _ "Suc k"]) (auto simp: whitelists_def [of L N s account p])
    qed
  qed
qed

section \<open>A sample world\<close>

text \<open>A node and a router that accept everything; the router's answer carries 65 bytes.\<close>

definition sample_net :: "(unit, DynamicFeeTx \<times> bytes) net" where
  "sample_net = \<lparr>
     PendingNonceAt = (\<lambda>_ e. (Ok 7, e)),
     HeaderByNumber = (\<lambda>e. (Ok \<lparr>hd_BaseFee = None, hd_Time = 0\<rparr>, e)),
     HeaderByHash = (\<lambda>_ e. (Ok None, e)),
     EstimateGas = (\<lambda>_ e. (Ok 21000, e)),
     SendTransaction = (\<lambda>_ e. (Ok (), e)),
     WaitMined = (\<lambda>_ e. (Ok \<lparr>rc_Status = 1, rc_BlockNumber = Some 309, rc_BlockHash = [], rc_GasUsed = 21000,
                           rc_EffectiveGasPrice = None, rc_Logs = []\<rparr>, e)),
     CallContract = (\<lambda>_ e. (Err ''execution reverted'', e)),
     BlockNumber = (\<lambda>e. (Ok 309, e)),
     BlockByNumber = (\<lambda>_ e. (Err ''not found'', e)),
     TransactionByHash = (\<lambda>_ e. (Err ''not found'', e)),
     TransactionReceipt = (\<lambda>_ e. (Err ''not found'', e)),
     HttpDo = (\<lambda>_ e. (Ok (writeJSON 200
        (JObj [(''signature'', JStr (hexutilEncode sample_lib (replicate 65 1))), (''address'', JStr ''0xA'')])), e))\<rparr>"

definition sample_dep :: deployment where
  "sample_dep = \<lparr>dep_AuthRegistry = 0xCd56, dep_ReserveLedger = 0xC165, dep_TokenAuthority = 0x8A79,
     dep_TokenHandler = 0x6101, dep_DepositToken = 0xA4AD, dep_TransferPolicyID = 2,
     dep_RLMintPolicyID = 3, dep_SCMintPolicyID = 4, dep_ChainID = 1337\<rparr>"

definition sample_issuer :: service where
  "sample_issuer = \<lparr>sv_bank = BankA sample_lib empty_env, sv_dep = sample_dep\<rparr>"

definition sample_holder :: service where
  "sample_holder = \<lparr>sv_bank = BankB sample_lib empty_env, sv_dep = sample_dep\<rparr>"

definition sample_world :: "(unit, DynamicFeeTx \<times> bytes) world" where
  "sample_world = \<lparr>w_env = (), w_trace = []\<rparr>"

lemma sample_router_urls [simp]: "router_url_parses sample_issuer" "router_url_parses sample_holder"
  by (simp_all add: router_url_parses_def sample_issuer_def sample_holder_def BankA_def BankB_def
      empty_env_def envOr_def url_simps)

lemma sample_routerSign:
  assumes "router_url_parses s"
  shows "fst (routerSign sample_lib sample_net s h w) = Done (Ok (replicate 65 1, ''0xA''))"
proof -
  have "HttpDo sample_net q e =
      (Ok (writeJSON 200 (JObj [(''signature'', JStr (hexutilEncode sample_lib (replicate 65 1))),
                                (''address'', JStr ''0xA'')])), e)" for q e
    by (simp add: sample_net_def)
  with assms show ?thesis
    by (simp add: routerSign_def sign_response_def http_call_parses net_call_def writeJSON_def decode_body_def
        sign_answer_def match_field_def hexutil_decode_encode [OF sample_hexutil_ok])
qed

lemma sample_run:
  assumes "router_url_parses s"
  shows "\<exists>x w'. buildSignBroadcast sample_lib sample_net s op to data w = (Done (Ok x), w') \<and> tr_Status x = ''success''"
proof -
  define R where "R h v = snd (routerSign sample_lib sample_net s h v)" for h v
  have "routerSign sample_lib sample_net s h v = (Done (Ok (replicate 65 1, ''0xA'')), R h v)" for h v
    using sample_routerSign [OF assms, of h v] by (simp add: R_def prod_eq_iff)
  moreover have "WithSignature sample_lib tx (replicate 65 1) = Ok (tx, replicate 65 1)" for tx
    by (simp add: sample_lib_def)
  moreover have "PendingNonceAt sample_net a u = (Ok 7, u)" "EstimateGas sample_net m u = (Ok 21000, u)"
    "HeaderByNumber sample_net u = (Ok \<lparr>hd_BaseFee = None, hd_Time = 0\<rparr>, u)"
    "SendTransaction sample_net t u = (Ok (), u)"
    "WaitMined sample_net t u = (Ok \<lparr>rc_Status = 1, rc_BlockNumber = Some 309, rc_BlockHash = [],
       rc_GasUsed = 21000, rc_EffectiveGasPrice = None, rc_Logs = []\<rparr>, u)" for a m t u
    by (simp_all add: sample_net_def)
  ultimately show ?thesis
    by (simp add: buildSignBroadcast_def assembleBroadcast_def net_call_def Let_def
        ReceiptStatusSuccessful_def)
qed

end
