(* ===== verification/Deposit_Properties.thy ===== *)
theory Deposit_Properties
  imports Deposit_Service
begin

text \<open>
  The properties of the deposit service, each over an arbitrary library, arbitrary peers and an
  arbitrary world. \<open>emits w w' es\<close> says which calls the service made, in order.
\<close>

section \<open>The signing pipeline\<close>



text \<open>
  C5. Nothing leaves unsigned or altered: a run broadcasts at most one transaction, and that
  one is a chain-1337, zero-value, zero-tip transaction to the given contract with the given
  calldata, assembled with the signature that the bank's own router returned with status 200
  for the hash of exactly this transaction.
\<close>

theorem broadcasts_only_what_was_signed:
  assumes "buildSignBroadcast L N s op to data w = (r, w')" and "emits w w' es"
  shows "length (sent es) \<le> 1 \<and> (\<forall>t \<in> set (sent es). \<exists>tx sig addr.
           WithSignature L tx sig = Ok t \<and> router_granted L N s (SignerHash L tx) sig addr \<and>
           tx_To tx = to \<and> tx_Data tx = data \<and>
           tx_ChainID tx = 1337 \<and> tx_Value tx = 0 \<and> tx_GasTipCap tx = 0)"
  using assms(1)
proof (cases rule: buildSignBroadcast_sent)
  case (none fs)
  from emits_unique [OF assms(2) none(1)] none(2) show ?thesis by simp
next
  case (one fs t)
  from emits_unique [OF assms(2) one(1)] one(2,3) show ?thesis by (simp add: signed_for_def)
qed

theorem broadcasts_only_what_was_signed_witness:
  "\<exists>w' es t tx sig. emits sample_world w' es \<and> sent es = [t] \<and> WithSignature sample_lib tx sig = Ok t \<and> tx_To tx = 9"
proof -
  obtain x w' where b: "buildSignBroadcast sample_lib sample_net sample_issuer ''mint'' 9 [1, 2] sample_world = (Done (Ok x), w')"
    using sample_run sample_router_urls(1) by blast
  from b obtain es t where es: "emits sample_world w' es" "sent es = [t]"
    by (cases rule: buildSignBroadcast_sent) auto
  with broadcasts_only_what_was_signed [OF b es(1)]
  obtain tx sig where "WithSignature sample_lib tx sig = Ok t" "tx_To tx = 9" by fastforce
  with es show ?thesis by blast
qed

text \<open>
  C27. A result tells the truth about the receipt: when a write returns a result, exactly one
  transaction was broadcast, the hash reported is that transaction's, and the status, block and
  gas are those of the receipt the node gave for it, "success" exactly for status 1; a receipt
  without a block number shows a text that is no number.
\<close>

theorem result_reports_the_receipt:
  assumes "buildSignBroadcast L N s op to data w = (Done (Ok x), w')"
  shows "\<exists>es t e e' rc. emits w w' es \<and> sent es = [t] \<and> WaitMined N t e = (Ok rc, e') \<and>
           tr_Op x = op \<and> tr_TxHash x = HashHex L (StxHash L t) \<and>
           (tr_Status x = ''success'' \<longleftrightarrow> rc_Status rc = 1) \<and>
           (tr_Status x = ''reverted'' \<longleftrightarrow> rc_Status rc \<noteq> 1) \<and>
           big_SetString (tr_BlockNumber x) = rc_BlockNumber rc \<and>
           big_SetString (tr_GasUsed x) = Some (uint (rc_GasUsed rc))"
  using assms
proof (cases rule: buildSignBroadcast_sent)
  case (one es t)
  from one(4) obtain addr where "result_of L N op t addr x" by blast
  then obtain e e' rc where rc: "WaitMined N t e = (Ok rc, e')"
    and x: "tr_Op x = op" "tr_TxHash x = HashHex L (StxHash L t)"
      "tr_Status x = (if rc_Status rc = ReceiptStatusSuccessful then ''success'' else ''reverted'')"
      "tr_BlockNumber x = bigp_String (rc_BlockNumber rc)" "tr_GasUsed x = big_String (uint (rc_GasUsed rc))"
    unfolding result_of_def by blast
  have "big_SetString (bigp_String b) = b" for b
    by (cases b) (simp add: bigp_String_def big_SetString_def parse_digits_def is_digit_def,
      simp add: bigp_String_def big.dec_enc)
  then show ?thesis
    by (intro exI [of _ es] exI [of _ t] exI [of _ e] exI [of _ e'] exI [of _ rc])
      (simp add: one(1,2) rc x ReceiptStatusSuccessful_def big.dec_enc)
qed auto

theorem result_reports_the_receipt_witness:
  "\<exists>x w' es t. buildSignBroadcast sample_lib sample_net sample_issuer ''mint'' 9 [1, 2] sample_world = (Done (Ok x), w')
     \<and> emits sample_world w' es \<and> sent es = [t] \<and> big_SetString (tr_BlockNumber x) = Some 309"
proof -
  obtain x w' where b: "buildSignBroadcast sample_lib sample_net sample_issuer ''mint'' 9 [1, 2] sample_world = (Done (Ok x), w')"
    using sample_run sample_router_urls(1) by blast
  with result_reports_the_receipt [OF b] show ?thesis by (auto simp: sample_net_def)
qed

text \<open>
  The gas limit is twice the node's estimate, or 1,600,000 when the estimate fails, and the
  doubling of the 64-bit estimate does not wrap below 2^63.
\<close>

lemma gas_limit_is_twice_the_estimate:
  assumes "\<forall>g. est = Ok g \<longrightarrow> unat g < 2 ^ 63"
  shows "unat (tx_Gas (unsigned_tx nonce fee (ok_or 800000 est) to data)) =
           (case est of Ok g \<Rightarrow> 2 * unat g | Err _ \<Rightarrow> 1600000)"
proof (cases est)
  case (Ok g)
  with assms have "unat g * 2 < 2 ^ LENGTH(64)" by simp
  then have "unat (g * 2) = unat g * 2" by (simp add: unat_word_ariths)
  with Ok show ?thesis by simp
next
  case (Err e)
  then show ?thesis by simp
qed

section \<open>Roles\<close>

lemma requireRole_other: "bank_Role (sv_bank s) \<noteq> want \<Longrightarrow> \<exists>e. requireRole L s want op = Some e"
  by (simp add: requireRole_def)

lemma requireRole_same: "bank_Role (sv_bank s) = want \<Longrightarrow> requireRole L s want op = None"
  by (simp add: requireRole_def)

text \<open>
  C14. Only the issuer mints and authorizes: a service whose bank is not the issuer refuses both
  with an error before any call: the world, with its trace, is left as it was, so neither the
  node nor the signing router hears of the request.
\<close>

theorem holder_cannot_mint_or_authorize:
  assumes "bank_Role (sv_bank s) \<noteq> RoleIssuer"
  shows "\<exists>e e'. Mint L N s to amount w = (Done (Err e), w) \<and> Authorize L N s account w = (Done (Err e'), w)"
proof -
  obtain e e' where "requireRole L s RoleIssuer ''mint'' = Some e"
    and "requireRole L s RoleIssuer ''authorize'' = Some e'"
    using requireRole_other [OF assms] by metis
  then show ?thesis by (simp add: Mint_def Authorize_def)
qed

theorem holder_cannot_mint_or_authorize_witness:
  "\<exists>e e'. Mint sample_lib sample_net sample_holder 5 1 sample_world = (Done (Err e), sample_world)
     \<and> Authorize sample_lib sample_net sample_holder 5 sample_world = (Done (Err e'), sample_world)"
  by (rule holder_cannot_mint_or_authorize)
    (simp add: sample_holder_def BankB_def RoleIssuer_def RoleHolder_def)

text \<open>
  C22. What the issuer's mint broadcasts: only transactions to the TokenAuthority whose calldata
  is \<open>mint(depositToken, to, amount)\<close> for the given recipient and amount, signed by the bank's
  router.
\<close>

theorem mint_calls_the_token_authority:
  assumes "Mint L N s to amount w = (r, w')" and "bank_Role (sv_bank s) = RoleIssuer"
  shows "\<exists>es. emits w w' es \<and> length (sent es) \<le> 1 \<and> (returned r \<longrightarrow> sent es \<noteq> []) \<and>
           (\<forall>t \<in> set (sent es). \<exists>data.
              Pack L TokenAuthority_abi ''mint''
                [AAddress (dep_DepositToken (sv_dep s)), AAddress to, ABigInt amount] = Ok data \<and>
              signed_for L N s (dep_TokenAuthority (sv_dep s)) data t)"
proof (cases "Pack L TokenAuthority_abi ''mint''
                [AAddress (dep_DepositToken (sv_dep s)), AAddress to, ABigInt amount]")
  case (Err e)
  with assms show ?thesis by (intro exI [of _ "[]"]) (auto simp: Mint_def requireRole_same)
next
  case (Ok data)
  with assms have b: "buildSignBroadcast L N s ''mint'' (dep_TokenAuthority (sv_dep s)) data w = (r, w')"
    by (simp add: Mint_def requireRole_same)
  from b show ?thesis
  proof (cases rule: buildSignBroadcast_sent)
    case (none es)
    then show ?thesis by (intro exI [of _ es]) auto
  next
    case (one es t)
    with Ok show ?thesis by (intro exI [of _ es]) auto
  qed
qed

theorem mint_calls_the_token_authority_witness:
  "\<exists>r w' es. Mint sample_lib sample_net sample_issuer 5 1000000 sample_world = (r, w')
     \<and> emits sample_world w' es \<and> length (sent es) \<le> 1"
proof -
  obtain r w' where m: "Mint sample_lib sample_net sample_issuer 5 1000000 sample_world = (r, w')" by fastforce
  have "bank_Role (sv_bank sample_issuer) = RoleIssuer" by (simp add: sample_issuer_def BankA_def)
  from mint_calls_the_token_authority [OF m this] m show ?thesis by blast
qed

text \<open>
  C23. Transfer needs no role: the calldata is \<open>transfer(to, amount)\<close> on the deposit token, and
  an issuer and a holder broadcast under the same conditions.
\<close>

theorem transfer_calls_the_deposit_token:
  assumes "Transfer L N s to amount w = (r, w')"
  shows "\<exists>es. emits w w' es \<and> length (sent es) \<le> 1 \<and> (returned r \<longrightarrow> sent es \<noteq> []) \<and>
           (\<forall>t \<in> set (sent es). \<exists>data.
              Pack L DepositToken_abi ''transfer'' [AAddress to, ABigInt amount] = Ok data \<and>
              signed_for L N s (dep_DepositToken (sv_dep s)) data t)"
proof (cases "Pack L DepositToken_abi ''transfer'' [AAddress to, ABigInt amount]")
  case (Err e)
  with assms show ?thesis by (intro exI [of _ "[]"]) (auto simp: Transfer_def)
next
  case (Ok data)
  with assms have b: "buildSignBroadcast L N s ''transfer'' (dep_DepositToken (sv_dep s)) data w = (r, w')"
    by (simp add: Transfer_def)
  from b show ?thesis
  proof (cases rule: buildSignBroadcast_sent)
    case (none es)
    then show ?thesis by (intro exI [of _ es]) auto
  next
    case (one es t)
    with Ok show ?thesis by (intro exI [of _ es]) auto
  qed
qed

theorem transfer_calls_the_deposit_token_witness:
  "\<exists>r w' es. Transfer sample_lib sample_net sample_holder 5 250000 sample_world = (r, w')
     \<and> emits sample_world w' es \<and> length (sent es) \<le> 1"
proof -
  obtain r w' where t: "Transfer sample_lib sample_net sample_holder 5 250000 sample_world = (r, w')" by fastforce
  from transfer_calls_the_deposit_token [OF t] t show ?thesis by blast
qed

text \<open>
  C21. Onboarding is two transactions in order: Authorize whitelists the account on the transfer
  policy and then on the mint-recipient policy, both on the AuthRegistry; it reports success
  only with both results, tagged in that order, and after an error the transactions already
  broadcast are a prefix of these two.
\<close>

theorem authorize_whitelists_both_policies:
  assumes "Authorize L N s account w = (r, w')" and "bank_Role (sv_bank s) = RoleIssuer"
  shows "\<exists>es k. emits w w' es \<and> k \<le> 2 \<and>
           list_all2 (whitelists L N s account)
             (take k [dep_TransferPolicyID (sv_dep s), dep_SCMintPolicyID (sv_dep s)]) (sent es) \<and>
           (\<forall>rs. r = Done (Ok rs) \<longrightarrow> k = 2 \<and>
              map tr_Op rs = [''authorize:transfer'', ''authorize:mint-recipient''])"
proof -
  from assms have "authorize_loop L N s account (authorize_steps s) [] w = (r, w')"
    by (simp add: Authorize_def requireRole_same)
  from authorize_loop_sent [OF this] obtain es k where es: "emits w w' es"
    "k \<le> length (authorize_steps s)"
    "list_all2 (whitelists L N s account) (map fst (take k (authorize_steps s))) (sent es)"
    "\<forall>rs. r = Done (Ok rs) \<longrightarrow> k = length (authorize_steps s) \<and>
       map tr_Op rs = map tr_Op ([] :: tx_result list) @ map snd (authorize_steps s)"
    by blast
  have "map fst (take k (authorize_steps s)) =
      take k [dep_TransferPolicyID (sv_dep s), dep_SCMintPolicyID (sv_dep s)]"
    by (simp add: authorize_steps_def take_map [symmetric])
  note l = es(3) [unfolded this]
  from es(2) have "k \<le> 2" by (simp add: authorize_steps_def)
  moreover from es(4) have "\<forall>rs. r = Done (Ok rs) \<longrightarrow> k = 2 \<and>
      map tr_Op rs = [''authorize:transfer'', ''authorize:mint-recipient'']"
    by (simp add: authorize_steps_def)
  ultimately show ?thesis using es(1) l by blast
qed

theorem authorize_whitelists_both_policies_witness:
  "\<exists>r w' es. Authorize sample_lib sample_net sample_issuer 5 sample_world = (r, w')
     \<and> emits sample_world w' es \<and> length (sent es) \<le> 2"
proof -
  obtain r w' where a: "Authorize sample_lib sample_net sample_issuer 5 sample_world = (r, w')" by fastforce
  have "bank_Role (sv_bank sample_issuer) = RoleIssuer" by (simp add: sample_issuer_def BankA_def)
  from authorize_whitelists_both_policies [OF a this] obtain es k where es: "emits sample_world w' es"
    and l: "list_all2 (whitelists sample_lib sample_net sample_issuer 5)
         (take k [dep_TransferPolicyID (sv_dep sample_issuer), dep_SCMintPolicyID (sv_dep sample_issuer)])
         (sent es)" by blast
  from list_all2_lengthD [OF l] have "length (sent es) \<le> 2" by simp
  with a es show ?thesis by blast
qed

end
