(* ===== verification/Deposit_Server.thy ===== *)
theory Deposit_Server
  imports Deposit_Properties
begin

text \<open>
  internal/depositsvc/server.go and cmd/deposit-svc/main.go: the HTTP face of a deposit service,
  its six routes, the decoding of \<open>{to, amount}\<close> bodies, and the start-up. A handler takes the
  request and the world; \<open>Panic\<close> is a handler that panics, which closes the connection.
\<close>

section \<open>Encoding and decoding\<close>

definition tx_result_json :: "tx_result \<Rightarrow> json" where
  "tx_result_json x = JObj
     [(''op'', JStr (tr_Op x)), (''txHash'', JStr (tr_TxHash x)), (''status'', JStr (tr_Status x)),
      (''blockNumber'', JStr (tr_BlockNumber x)), (''gasUsed'', JStr (tr_GasUsed x)),
      (''signedBy'', JStr (tr_SignedBy x))]"

definition token_info_json :: "token_info \<Rightarrow> json" where
  "token_info_json x = JObj
     [(''name'', JStr (ti_Name x)), (''symbol'', JStr (ti_Symbol x)),
      (''decimals'', jint (uint (ti_Decimals x))), (''totalSupply'', JStr (ti_TotalSupply x)),
      (''reserveLedgerSupply'', JStr (ti_ReserveLedgerSupply x))]"

definition to_amount_body :: schema where
  "to_amount_body = SStruct [(''to'', SStr), (''amount'', SStr)]"

definition decodeToAmount :: "('sk, 'stx) lib \<Rightarrow> request \<Rightarrow> (address \<times> int) res" where
  "decodeToAmount L r =
     (case decode_body to_amount_body (rq_body r) of
        (_, Some _) \<Rightarrow> Err ''bad json''
      | (body, None) \<Rightarrow>
          (case big_SetString (str_field ''amount'' body) of
             None \<Rightarrow> Err (''bad amount '' @ quote L (str_field ''amount'' body))
           | Some amount \<Rightarrow> Ok (HexToAddress L (str_field ''to'' body), amount)))"

definition respond :: "('a \<Rightarrow> json) \<Rightarrow> 'a res \<Rightarrow> response" where
  "respond to_json res =
     (case res of
        Err e \<Rightarrow> writeErr 400 e
      | Ok x \<Rightarrow> writeJSON 200 (to_json x))"

section \<open>The routes\<close>

definition h_health :: "('sk, 'stx) lib \<Rightarrow> service \<Rightarrow> ('e, 'stx) handler" where
  "h_health L s r w =
     (Done (writeJSON 200 (jmap [(''ok'', JBool True), (''bank'', JStr (bank_Label (sv_bank s))),
                                 (''address'', JStr (AddressHex L (bank_Address (sv_bank s)))),
                                 (''keyId'', JStr (bank_KeyID (sv_bank s)))])), w)"

definition h_info :: "('sk, 'stx) lib \<Rightarrow> ('e, 'stx) net \<Rightarrow> service \<Rightarrow> ('e, 'stx) handler" where
  "h_info L N s r w =
     (case TokenInfo L N s w of
        (Panic, w) \<Rightarrow> (Panic, w)
      | (Done (Err e), w) \<Rightarrow> (Done (writeErr 500 e), w)
      | (Done (Ok info), w) \<Rightarrow>
          (case BalanceOf L N s (bank_Address (sv_bank s)) w of
             (Panic, w) \<Rightarrow> (Panic, w)
           | (Done bal, w) \<Rightarrow>
               (Done (writeJSON 200 (jmap
                  [(''bank'', JStr (bank_Label (sv_bank s))),
                   (''address'', JStr (AddressHex L (bank_Address (sv_bank s)))),
                   (''token'', token_info_json info),
                   (''balance'', JStr (bigp_String (ptr bal)))])), w)))"

definition h_balance :: "('sk, 'stx) lib \<Rightarrow> ('e, 'stx) net \<Rightarrow> service \<Rightarrow> ('e, 'stx) handler" where
  "h_balance L N s r w =
     (let q = rq_query r ''account'';
          acct = (if q \<noteq> [] then HexToAddress L q else bank_Address (sv_bank s))
      in case BalanceOf L N s acct w of
           (Panic, w) \<Rightarrow> (Panic, w)
         | (Done (Err e), w) \<Rightarrow> (Done (writeErr 500 e), w)
         | (Done (Ok bal), w) \<Rightarrow>
             (Done (writeJSON 200 (jmap [(''account'', JStr (AddressHex L acct)),
                                         (''raw'', JStr (big_String bal))])), w))"

definition h_mint :: "('sk, 'stx) lib \<Rightarrow> ('e, 'stx) net \<Rightarrow> service \<Rightarrow> ('e, 'stx) handler" where
  "h_mint L N s r w =
     (case decodeToAmount L r of
        Err e \<Rightarrow> (Done (writeErr 400 e), w)
      | Ok (to, amount) \<Rightarrow>
          (case Mint L N s to amount w of
             (Panic, w) \<Rightarrow> (Panic, w)
           | (Done res, w) \<Rightarrow> (Done (respond tx_result_json res), w)))"

definition account_body :: schema where
  "account_body = SStruct [(''account'', SStr)]"

definition h_authorize :: "('sk, 'stx) lib \<Rightarrow> ('e, 'stx) net \<Rightarrow> service \<Rightarrow> ('e, 'stx) handler" where
  "h_authorize L N s r w =
     (case decode_body account_body (rq_body r) of
        (_, Some _) \<Rightarrow> (Done (writeErr 400 ''bad json''), w)
      | (body, None) \<Rightarrow>
          (case Authorize L N s (HexToAddress L (str_field ''account'' body)) w of
             (Panic, w) \<Rightarrow> (Panic, w)
           | (Done res, w) \<Rightarrow> (Done (respond (\<lambda>xs. JArr (map tx_result_json xs)) res), w)))"

definition h_transfer :: "('sk, 'stx) lib \<Rightarrow> ('e, 'stx) net \<Rightarrow> service \<Rightarrow> ('e, 'stx) handler" where
  "h_transfer L N s r w =
     (case decodeToAmount L r of
        Err e \<Rightarrow> (Done (writeErr 400 e), w)
      | Ok (to, amount) \<Rightarrow>
          (case Transfer L N s to amount w of
             (Panic, w) \<Rightarrow> (Panic, w)
           | (Done res, w) \<Rightarrow> (Done (respond tx_result_json res), w)))"

definition deposit_mux :: "('sk, 'stx) lib \<Rightarrow> ('e, 'stx) net \<Rightarrow> service
    \<Rightarrow> (string \<times> string \<times> ('e, 'stx) handler) list" where
  "deposit_mux L N s =
     [(''GET'', ''/health'', h_health L s),
      (''GET'', ''/info'', h_info L N s),
      (''GET'', ''/balance'', h_balance L N s),
      (''POST'', ''/mint'', h_mint L N s),
      (''POST'', ''/authorize'', h_authorize L N s),
      (''POST'', ''/transfer'', h_transfer L N s)]"

definition deposit_Handler :: "('sk, 'stx) lib \<Rightarrow> ('e, 'stx) net \<Rightarrow> service \<Rightarrow> ('e, 'stx) handler" where
  "deposit_Handler L N s r w =
     (case mux_find (deposit_mux L N s) r of
        Route h \<Rightarrow> h r w
      | NotAllowed \<Rightarrow> (Done not_allowed, w)
      | NotFound \<Rightarrow> (Done not_found, w))"

section \<open>Start-up\<close>

text \<open>\<open>New\<close>: \<open>dial\<close> is the result of dialling the node.\<close>

definition service_New :: "env \<Rightarrow> (string \<Rightarrow> unit res) \<Rightarrow> bank \<Rightarrow> deployment \<Rightarrow> service res" where
  "service_New env dial bank dep =
     (case dial (RPCURL env) of
        Err e \<Rightarrow> Err (''dial '' @ RPCURL env @ '': '' @ e)
      | Ok _ \<Rightarrow> Ok \<lparr>sv_bank = bank, sv_dep = dep\<rparr>)"

text \<open>\<open>Run\<close> up to listening: the service it serves, or its error.\<close>

definition deposit_Run :: "('sk, 'stx) lib \<Rightarrow> env \<Rightarrow> deployment res \<Rightarrow> (string \<Rightarrow> unit res) \<Rightarrow> string
    \<Rightarrow> service res" where
  "deposit_Run L env load dial bankID =
     (case Banks L env bankID of
        None \<Rightarrow> Err (''unknown bank '' @ quote L bankID)
      | Some bank \<Rightarrow>
          (case load of
             Err e \<Rightarrow> Err e
           | Ok dep \<Rightarrow> service_New env dial bank dep))"

definition deposit_main :: "('sk, 'stx) lib \<Rightarrow> env \<Rightarrow> deployment res \<Rightarrow> (string \<Rightarrow> unit res)
    \<Rightarrow> (int \<times> service) res" where
  "deposit_main L env load dial =
     (case Banks L env (env ''BANK_ID'') of
        None \<Rightarrow> Err (''deposit-svc: set BANK_ID to one of bank-a, bank-b (got '' @
                      quote L (env ''BANK_ID'') @ '')'')
      | Some bank \<Rightarrow>
          (let port = (if env ''PORT'' \<noteq> [] then fst (strconv_Atoi (env ''PORT''))
                       else bank_DepositSvcPort bank)
           in case deposit_Run L env load dial (env ''BANK_ID'') of
                Err e \<Rightarrow> Err (''deposit-svc: '' @ e)
              | Ok s \<Rightarrow> Ok (port, s)))"

section \<open>Lemmas\<close>

lemma deposit_routes [wire_simps]:
  "rq_method r = ''POST'' \<Longrightarrow> rq_path r = ''/mint'' \<Longrightarrow> deposit_Handler L N s r w = h_mint L N s r w"
  "rq_method r = ''POST'' \<Longrightarrow> rq_path r = ''/authorize'' \<Longrightarrow>
     deposit_Handler L N s r w = h_authorize L N s r w"
  "rq_method r = ''POST'' \<Longrightarrow> rq_path r = ''/transfer'' \<Longrightarrow>
     deposit_Handler L N s r w = h_transfer L N s r w"
  "rq_method r = ''GET'' \<Longrightarrow> rq_path r = ''/info'' \<Longrightarrow> deposit_Handler L N s r w = h_info L N s r w"
  "rq_method r = ''GET'' \<Longrightarrow> rq_path r = ''/balance'' \<Longrightarrow> deposit_Handler L N s r w = h_balance L N s r w"
  "rq_method r = ''GET'' \<Longrightarrow> rq_path r = ''/health'' \<Longrightarrow> deposit_Handler L N s r w = h_health L s r w"
  by (simp_all add: deposit_Handler_def deposit_mux_def mux_find_def pattern_method_def)

text \<open>The body a client of /mint and /transfer sends.\<close>

lemma decodeToAmount_client [wire_simps]:
  assumes "rq_body r = Json (JObj [(''amount'', JStr t), (''to'', JStr a)])"
  shows "decodeToAmount L r =
           (case big_SetString t of
              None \<Rightarrow> Err (''bad amount '' @ quote L t)
            | Some n \<Rightarrow> Ok (HexToAddress L a, n))"
  using assms
  by (simp add: decodeToAmount_def decode_body_def to_amount_body_def match_field_def
      split: option.split)

lemma respond_status: "rs_status (respond f res) = (if is_ok res then 200 else 400)"
  by (cases res) (simp_all add: respond_def)

lemma holder_mint_refused:
  assumes "bank_Role (sv_bank s) \<noteq> RoleIssuer" and "rq_method r = ''POST''" and "rq_path r = ''/mint''"
  shows "\<exists>x. deposit_Handler L N s r w = (Done x, w) \<and> rs_status x = 400"
proof (cases "decodeToAmount L r")
  case (Ok p)
  obtain e where "requireRole L s RoleIssuer ''mint'' = Some e"
    using requireRole_other [OF assms(1)] by blast
  with Ok assms(2,3) show ?thesis
    by (cases p) (simp add: deposit_routes h_mint_def Mint_def respond_def)
next
  case (Err e)
  with assms(2,3) show ?thesis by (simp add: deposit_routes h_mint_def)
qed

text \<open>The results of the reads: unpacking a method that has outputs never gives an empty list.\<close>

definition has_output :: "abi \<Rightarrow> string \<Rightarrow> bool" where
  "has_output a m = (case abi_lookup a m of Some (AbiFunction _ _ _ outs) \<Rightarrow> outs \<noteq> [] | _ \<Rightarrow> False)"

definition unpack_ok :: "('sk, 'stx) lib \<Rightarrow> bool" where
  "unpack_ok L \<longleftrightarrow> (\<forall>a m bs. has_output a m \<longrightarrow> Unpack L a m bs \<noteq> Ok [])"

lemma token_outputs [simp]:
  "has_output DepositToken_abi ''name''" "has_output DepositToken_abi ''symbol''"
  "has_output DepositToken_abi ''decimals''" "has_output DepositToken_abi ''totalSupply''"
  "has_output DepositToken_abi ''balanceOf''" "has_output ReserveLedger_abi ''totalSupply''"
  by (simp_all add: has_output_def abi_lookup_def DepositToken_abi_def ReserveLedger_abi_def)

lemma uint_value_Done: "vs \<noteq> [] \<Longrightarrow> uint_value vs \<noteq> Panic"
  by (cases vs rule: uint_value.cases) auto

lemma string_value_Done: "vs \<noteq> [] \<Longrightarrow> string_value vs \<noteq> Panic"
  by (cases vs rule: string_value.cases) auto

lemma call_nonempty: "unpack_ok L \<Longrightarrow> has_output a m \<Longrightarrow> call L N to a m args w \<noteq> (Ok [], w')"
  by (auto simp: call_def unpack_ok_def net_call_def Let_def split: res.splits prod.splits)

lemma readUint_cases:
  assumes "unpack_ok L" and "has_output a m"
  obtains v w' where "readUint L N to a m args w = (Done v, w')"
proof -
  obtain x u where c: "call L N to a m args w = (x, u)" by fastforce
  show thesis
  proof (cases x)
    case (Ok vals)
    with c call_nonempty [OF assms, of N to args w] have "uint_value vals \<noteq> Panic"
      by (intro uint_value_Done) auto
    with c Ok that show thesis by (cases "uint_value vals") (simp_all add: readUint_def)
  qed (use c that in \<open>simp add: readUint_def\<close>)
qed

lemma readString_cases:
  assumes "unpack_ok L" and "has_output a m"
  obtains v w' where "readString L N to a m w = (Done v, w')"
proof -
  obtain x u where c: "call L N to a m [] w = (x, u)" by fastforce
  show thesis
  proof (cases x)
    case (Ok vals)
    with c call_nonempty [OF assms, of N to "[]" w] have "string_value vals \<noteq> Panic"
      by (intro string_value_Done) auto
    with c Ok that show thesis by (cases "string_value vals") (simp_all add: readString_def)
  qed (use c that in \<open>simp add: readString_def\<close>)
qed

text \<open>The reads of TokenInfo in order, and what it makes of them.\<close>

lemma TokenInfo_reads:
  assumes "unpack_ok L" and "readString L N (dep_DepositToken (sv_dep s)) DepositToken_abi ''name'' w = (Done (Ok n), w1)"
    and "readString L N (dep_DepositToken (sv_dep s)) DepositToken_abi ''symbol'' w1 = (Done y, w2)"
    and "readUint L N (dep_DepositToken (sv_dep s)) DepositToken_abi ''decimals'' [] w2 = (Done d, w3)"
  shows "\<exists>u l w4 w5. readUint L N (dep_DepositToken (sv_dep s)) DepositToken_abi ''totalSupply'' [] w3 = (Done u, w4)
     \<and> readUint L N (dep_ReserveLedger (sv_dep s)) ReserveLedger_abi ''totalSupply'' [] w4 = (Done l, w5)
     \<and> TokenInfo L N s w =
         (case d of
            Err e \<Rightarrow> (Panic, w5)
          | Ok i \<Rightarrow> (Done (Ok \<lparr>ti_Name = n, ti_Symbol = ok_or [] y, ti_Decimals = ucast (big_Uint64 i),
                               ti_TotalSupply = bigp_String (ptr u),
                               ti_ReserveLedgerSupply = bigp_String (ptr l)\<rparr>), w5))"
proof -
  obtain u w4 where u: "readUint L N (dep_DepositToken (sv_dep s)) DepositToken_abi ''totalSupply'' [] w3 = (Done u, w4)"
    using readUint_cases [OF assms(1)] token_outputs by blast
  obtain l w5 where l: "readUint L N (dep_ReserveLedger (sv_dep s)) ReserveLedger_abi ''totalSupply'' [] w4 = (Done l, w5)"
    using readUint_cases [OF assms(1)] token_outputs by blast
  with u assms(2-) show ?thesis by (cases d) (auto simp: TokenInfo_def)
qed

section \<open>Properties\<close>

text \<open>
  Which amounts a deposit service accepts: a body that decodes is accepted exactly when its
  amount is an optional sign followed by at least one decimal digit; no bound and no sign is
  checked here, and the \<open>to\<close> text is not checked at all.
\<close>

lemma decodeToAmount_accepts:
  assumes "decode_body to_amount_body (rq_body r) = (b, None)"
  shows "is_ok (decodeToAmount L r) \<longleftrightarrow>
           (\<exists>sg ds. str_field ''amount'' b = sg @ ds \<and> (sg = [] \<or> sg = ''-'' \<or> sg = ''+'') \<and>
              ds \<noteq> [] \<and> list_all is_digit ds)"
proof -
  have "is_ok (decodeToAmount L r) \<longleftrightarrow> (\<exists>i. big_SetString (str_field ''amount'' b) = Some i)"
    using assms by (auto simp: decodeToAmount_def split: option.splits)
  then show ?thesis by (simp only: big_SetString_Some_iff)
qed

text \<open>
  The amount a client prints is the amount the service hands to the ABI packer: for every
  integer, and so for a negative one too, which nothing on the way rejects.
\<close>

lemma amounts_survive_the_wire:
  assumes "rq_body r = Json (jmap [(''to'', JStr a), (''amount'', JStr (big_String n))])"
  shows "decodeToAmount L r = Ok (HexToAddress L a, n)"
proof -
  from assms have "rq_body r = Json (JObj [(''amount'', JStr (big_String n)), (''to'', JStr a)])"
    by (simp add: jmap_def)
  then show ?thesis by (simp add: decodeToAmount_client big.dec_enc)
qed

text \<open>
  Over HTTP the holder cannot mint: every POST /mint to a service whose bank is not the
  issuer, whatever its body, is answered with 400 and causes no call to the node or the router.
\<close>

lemma holder_mint_request_is_refused:
  assumes "bank_Role (sv_bank s) \<noteq> RoleIssuer" and "rq_method r = ''POST''" and "rq_path r = ''/mint''"
  shows "\<exists>x. deposit_Handler L N s r w = (Done x, w) \<and> rs_status x = 400"
  using assms by (rule holder_mint_refused)

text \<open>
  C36. Reading the token: GET /info panics exactly when the name is read but the decimals are
  not, because their dropped error leaves a nil integer that is then dereferenced; every other
  failed read is survived.
\<close>

theorem token_info_panics_iff_decimals_fail:
  assumes "unpack_ok L"
  shows "fst (TokenInfo L N s w) = Panic \<longleftrightarrow>
     (\<exists>n w1 y w2 e w3.
        readString L N (dep_DepositToken (sv_dep s)) DepositToken_abi ''name'' w = (Done (Ok n), w1) \<and>
        readString L N (dep_DepositToken (sv_dep s)) DepositToken_abi ''symbol'' w1 = (Done y, w2) \<and>
        readUint L N (dep_DepositToken (sv_dep s)) DepositToken_abi ''decimals'' [] w2 = (Done (Err e), w3))"
  (is "_ \<longleftrightarrow> ?decimals_fail")
proof -
  obtain nr w1 where n: "readString L N (dep_DepositToken (sv_dep s)) DepositToken_abi ''name'' w = (Done nr, w1)"
    using readString_cases [OF assms] token_outputs by blast
  obtain y w2 where y: "readString L N (dep_DepositToken (sv_dep s)) DepositToken_abi ''symbol'' w1 = (Done y, w2)"
    using readString_cases [OF assms] token_outputs by blast
  obtain d w3 where d: "readUint L N (dep_DepositToken (sv_dep s)) DepositToken_abi ''decimals'' [] w2 = (Done d, w3)"
    using readUint_cases [OF assms] token_outputs by blast
  have r: "?decimals_fail \<longleftrightarrow> is_ok nr \<and> \<not> is_ok d"
    using n y d by (cases nr; cases d) auto
  show ?thesis
  proof (cases nr)
    case (Err e)
    with n have "fst (TokenInfo L N s w) \<noteq> Panic" by (simp add: TokenInfo_def)
    with Err show ?thesis unfolding r by simp
  next
    case (Ok nm)
    from TokenInfo_reads [OF assms n [unfolded Ok] y d]
    have "fst (TokenInfo L N s w) = Panic \<longleftrightarrow> \<not> is_ok d" by (cases d) auto
    with Ok show ?thesis unfolding r by simp
  qed
qed

text \<open>A node that knows the name and no more.\<close>

definition name_only_lib :: "(string, DynamicFeeTx \<times> bytes) lib" where
  "name_only_lib = sample_lib\<lparr>Pack := (\<lambda>_ m _. if m = ''name'' then Ok [1] else Err ''no method''),
                              Unpack := (\<lambda>_ _ _. Ok [AString ''WFUSD''])\<rparr>"

definition answering_net :: "(unit, DynamicFeeTx \<times> bytes) net" where
  "answering_net = sample_net\<lparr>CallContract := (\<lambda>_ e. (Ok [1], e))\<rparr>"

theorem token_info_panics_iff_decimals_fail_witness:
  "fst (TokenInfo name_only_lib answering_net sample_holder sample_world) = Panic"
proof -
  have "unpack_ok name_only_lib" by (simp add: unpack_ok_def name_only_lib_def)
  moreover have "Pack name_only_lib a m args = (if m = ''name'' then Ok [1] else Err ''no method'')"
    "Unpack name_only_lib a m bs = Ok [AString ''WFUSD'']"
    "CallContract answering_net c e = (Ok [1], e)" for a m args bs c e
    by (simp_all add: name_only_lib_def answering_net_def)
  ultimately show ?thesis
    by (subst token_info_panics_iff_decimals_fail)
      (simp_all add: readString_def readUint_def call_def net_call_def Let_def)
qed

end
