(* ===== verification/Webui.thy ===== *)
theory Webui
  imports World Amounts Sample_Lib
begin

text \<open>
  internal/webui/server.go and cmd/webui/main.go: the back-office console. It reads the chain,
  decodes transactions and events for the explorer, and forwards write intents to the deposit
  services. \<open>webui\<close> is its state, one definition per function follows in the order of the file;
  a handler returns its response (or \<open>Panic\<close>) with the world after it. The properties are in
  Webui_Properties.
\<close>

section \<open>The explorer's ABI\<close>

definition decoderABI :: abi where
  "decoderABI =
     [AbiFunction ''mint'' '''' [arg ''stablecoin'' AddressTy, arg ''to'' AddressTy, arg ''amount'' (UintTy 256)] [],
      AbiFunction ''burn'' '''' [arg ''stablecoin'' AddressTy, arg ''amount'' (UintTy 256)] [],
      AbiFunction ''transfer'' '''' [arg ''to'' AddressTy, arg ''amount'' (UintTy 256)] [],
      AbiFunction ''modifyPolicyWhitelist'' ''''
        [arg ''policyId'' (UintTy 64), arg ''account'' AddressTy, arg ''allowed'' BoolTy] [],
      AbiEvent ''Transfer''
        [indexed_arg ''from'' AddressTy, indexed_arg ''to'' AddressTy, arg ''value'' (UintTy 256)],
      AbiEvent ''Approval''
        [indexed_arg ''owner'' AddressTy, indexed_arg ''spender'' AddressTy, arg ''value'' (UintTy 256)],
      AbiEvent ''Mint''
        [indexed_arg ''stablecoin'' AddressTy, indexed_arg ''to'' AddressTy, arg ''amount'' (UintTy 256)],
      AbiEvent ''Burn'' [indexed_arg ''stablecoin'' AddressTy, arg ''amount'' (UintTy 256)],
      AbiEvent ''PolicyMembershipChanged''
        [indexed_arg ''policyId'' (UintTy 64), indexed_arg ''account'' AddressTy, arg ''value'' BoolTy]]"

fun topicValue :: "('sk, 'stx) lib \<Rightarrow> abi_type \<Rightarrow> bytes \<Rightarrow> any" where
  "topicValue L AddressTy topic = AAddress (BytesToAddress L topic)"
| "topicValue L (UintTy _) topic = ABigInt (big_SetBytes topic)"
| "topicValue L BoolTy topic = ABool (big_SetBytes topic \<noteq> 0)"
| "topicValue L StringTy topic = AString (HashHex L topic)"

section \<open>State\<close>

text \<open>
  The environment of the process is kept with the state because the package variables of
  \<open>config\<close> (the banks and their URLs) are computed from it.
\<close>

record webui =
  ws_env :: env
  ws_dep :: deployment
  ws_staticDir :: string
  ws_selectors :: "string \<rightharpoonup> string"

definition text_bytes :: "string \<Rightarrow> bytes" where
  "text_bytes s = map of_char s"

definition hex_selector :: "('sk, 'stx) lib \<Rightarrow> bytes \<Rightarrow> string" where
  "hex_selector L data = ''0x'' @ Bytes2Hex L (take 4 data)"

definition sel :: "('sk, 'stx) lib \<Rightarrow> string \<Rightarrow> string" where
  "sel L sig = hex_selector L (Keccak256 L (text_bytes sig))"

definition selectors :: "('sk, 'stx) lib \<Rightarrow> string \<rightharpoonup> string" where
  "selectors L =
     [sel L ''mint(address,address,uint256)'' \<mapsto> ''mint'',
      sel L ''burn(address,uint256)'' \<mapsto> ''burn'',
      sel L ''transfer(address,uint256)'' \<mapsto> ''transfer'',
      sel L ''modifyPolicyWhitelist(uint64,address,bool)'' \<mapsto> ''authorize'']"

text \<open>\<open>exists\<close> is \<open>os.Stat\<close> of a path without an error.\<close>

definition defaultStaticDir :: "(string \<Rightarrow> bool) \<Rightarrow> string" where
  "defaultStaticDir exists =
     (if exists ''/app/webui/static'' then ''/app/webui/static'' else ''webui/static'')"

definition webui_New :: "('sk, 'stx) lib \<Rightarrow> env \<Rightarrow> (string \<Rightarrow> bool) \<Rightarrow> deployment res
    \<Rightarrow> (string \<Rightarrow> unit res) \<Rightarrow> webui res" where
  "webui_New L env exists load dial =
     (case load of
        Err e \<Rightarrow> Err e
      | Ok dep \<Rightarrow>
          (case dial (RPCURL env) of
             Err e \<Rightarrow> Err (''dial '' @ RPCURL env @ '': '' @ e)
           | Ok _ \<Rightarrow>
               Ok \<lparr>ws_env = env, ws_dep = dep,
                   ws_staticDir = envOr env ''WEBUI_STATIC'' (defaultStaticDir exists),
                   ws_selectors = selectors L\<rparr>))"

section \<open>Small chain readers\<close>

text \<open>Both readers return their value with the error the callers drop.\<close>

fun w_uint_value :: "any list \<Rightarrow> int" where
  "w_uint_value (ABigInt v # _) = v"
| "w_uint_value _ = 0"

definition w_readUint :: "('sk, 'stx) lib \<Rightarrow> ('e, 'stx) net \<Rightarrow> address \<Rightarrow> abi \<Rightarrow> string \<Rightarrow> any list
    \<Rightarrow> ('e, 'stx) world \<Rightarrow> (int \<times> error option) \<times> ('e, 'stx) world" where
  "w_readUint L N to a m args w =
     (case Pack L a m args of
        Err e \<Rightarrow> ((0, Some e), w)
      | Ok data \<Rightarrow>
          (let msg = \<lparr>cm_From = 0, cm_To = to, cm_Data = data\<rparr>
           in case net_call (ECall msg) (CallContract N msg) w of
                (Err e, w) \<Rightarrow> ((0, Some e), w)
              | (Ok out, w) \<Rightarrow>
                  (case Unpack L a m out of
                     Err e \<Rightarrow> ((0, Some e), w)
                   | Ok vals \<Rightarrow> ((w_uint_value vals, None), w))))"

fun w_str_value :: "any list \<Rightarrow> string" where
  "w_str_value (AString t # _) = t"
| "w_str_value _ = []"

definition w_readStr :: "('sk, 'stx) lib \<Rightarrow> ('e, 'stx) net \<Rightarrow> address \<Rightarrow> string
    \<Rightarrow> ('e, 'stx) world \<Rightarrow> (string \<times> error option) \<times> ('e, 'stx) world" where
  "w_readStr L N to m w =
     (case Pack L DepositToken_abi m [] of
        Err e \<Rightarrow> (([], Some e), w)
      | Ok data \<Rightarrow>
          (let msg = \<lparr>cm_From = 0, cm_To = to, cm_Data = data\<rparr>
           in case net_call (ECall msg) (CallContract N msg) w of
                (Err e, w) \<Rightarrow> (([], Some e), w)
              | (Ok out, w) \<Rightarrow>
                  (case Unpack L DepositToken_abi m out of
                     Err e \<Rightarrow> (([], Some e), w)
                   | Ok vals \<Rightarrow> ((w_str_value vals, None), w))))"

definition w_balanceOf :: "('sk, 'stx) lib \<Rightarrow> ('e, 'stx) net \<Rightarrow> webui \<Rightarrow> address
    \<Rightarrow> ('e, 'stx) world \<Rightarrow> (int \<times> error option) \<times> ('e, 'stx) world" where
  "w_balanceOf L N s a w =
     w_readUint L N (dep_DepositToken (ws_dep s)) DepositToken_abi ''balanceOf'' [AAddress a] w"

section \<open>GET /api/state\<close>

definition handleState :: "('sk, 'stx) lib \<Rightarrow> ('e, 'stx) net \<Rightarrow> webui \<Rightarrow> ('e, 'stx) handler" where
  "handleState L N s r w =
     (let dt = dep_DepositToken (ws_dep s);
          hex = (\<lambda>a. JStr (AddressHex L a));
          bankA = bank_Address (BankA L (ws_env s));
          bankB = bank_Address (BankB L (ws_env s))
      in case w_readStr L N dt ''name'' w of ((name, _), w) \<Rightarrow>
         (case w_readStr L N dt ''symbol'' w of ((symbol, _), w) \<Rightarrow>
         (case w_readUint L N dt DepositToken_abi ''totalSupply'' [] w of ((supply, _), w) \<Rightarrow>
         (case w_readUint L N (dep_ReserveLedger (ws_dep s)) ReserveLedger_abi ''totalSupply'' [] w of ((rl, _), w) \<Rightarrow>
         (case w_balanceOf L N s bankB w of ((balB, _), w) \<Rightarrow>
         (case w_balanceOf L N s (Merchant L) w of ((merch, _), w) \<Rightarrow>
         (case net_call EBlockNumber (BlockNumber N) w of (head, w) \<Rightarrow>
           (Done (writeJSON 200 (jmap
              [(''token'', jmap [(''name'', JStr name), (''symbol'', JStr symbol),
                                 (''totalSupply'', JStr (big_String supply)),
                                 (''reserveLedgerSupply'', JStr (big_String rl))]),
               (''blockNumber'', jint (uint (ok_or 0 head))),
               (''addresses'', jmap
                  [(''depositToken'', hex dt), (''tokenAuthority'', hex (dep_TokenAuthority (ws_dep s))),
                   (''reserveLedger'', hex (dep_ReserveLedger (ws_dep s))),
                   (''authRegistry'', hex (dep_AuthRegistry (ws_dep s))),
                   (''bankA'', hex bankA), (''bankB'', hex bankB), (''merchant'', hex (Merchant L))]),
               (''balances'', jmap [(''bankB'', JStr (big_String balB)),
                                    (''merchant'', JStr (big_String merch))])])), w))))))))"

section \<open>Labels and values\<close>

definition label :: "('sk, 'stx) lib \<Rightarrow> webui \<Rightarrow> address \<Rightarrow> string" where
  "label L s a =
     (if a = bank_Address (BankA L (ws_env s)) then ''Bank A''
      else if a = bank_Address (BankB L (ws_env s)) then ''Bank B''
      else if a = Merchant L then ''Merchant''
      else if a = dep_DepositToken (ws_dep s) then ''DepositToken''
      else if a = dep_TokenAuthority (ws_dep s) then ''TokenAuthority''
      else if a = dep_ReserveLedger (ws_dep s) then ''ReserveLedger''
      else if a = dep_AuthRegistry (ws_dep s) then ''AuthRegistry''
      else if a = dep_TokenHandler (ws_dep s) then ''TokenHandler''
      else AddressHex L a)"

record param =
  pm_Name :: string
  pm_Type :: string
  pm_Value :: string
  pm_Human :: string
  pm_Label :: string

definition fmtParam :: "('sk, 'stx) lib \<Rightarrow> webui \<Rightarrow> string \<Rightarrow> string \<Rightarrow> any \<Rightarrow> param" where
  "fmtParam L s name typ v =
     (let p = \<lparr>pm_Name = name, pm_Type = typ, pm_Value = [], pm_Human = [], pm_Label = []\<rparr>
      in case v of
           AAddress a \<Rightarrow>
             (let p = p\<lparr>pm_Value := AddressHex L a\<rparr>; lbl = label L s a
              in if lbl \<noteq> AddressHex L a then p\<lparr>pm_Label := lbl\<rparr> else p)
         | ABigInt i \<Rightarrow>
             (let p = p\<lparr>pm_Value := big_String i\<rparr>
              in if name = ''amount'' \<or> name = ''value'' then p\<lparr>pm_Human := humanWFUSD i @ '' WFUSD''\<rparr> else p)
         | ABool b \<Rightarrow> p\<lparr>pm_Value := (if b then ''true'' else ''false'')\<rparr>
         | AUint64 n \<Rightarrow> p\<lparr>pm_Value := nat_text (unat n)\<rparr>
         | AUint8 n \<Rightarrow> p\<lparr>pm_Value := nat_text (unat n)\<rparr>
         | AString t \<Rightarrow> p\<lparr>pm_Value := t\<rparr>
         | ANil \<Rightarrow> p\<lparr>pm_Value := ''<nil>''\<rparr>)"

definition methodName :: "('sk, 'stx) lib \<Rightarrow> webui \<Rightarrow> bytes \<Rightarrow> string" where
  "methodName L s data =
     (if length data < 4 then ''transfer(ETH)''
      else case ws_selectors s (hex_selector L data) of
             Some m \<Rightarrow> m
           | None \<Rightarrow> hex_selector L data)"

section \<open>Calldata and events\<close>

text \<open>The parameters of \<open>ins\<close> with their values; \<open>vals[i]\<close> panics when a value is missing.\<close>

fun fmt_inputs :: "('sk, 'stx) lib \<Rightarrow> webui \<Rightarrow> abi_arg list \<Rightarrow> any list \<Rightarrow> param list outcome" where
  "fmt_inputs L s [] vals = Done []"
| "fmt_inputs L s (i # ins) [] = Panic"
| "fmt_inputs L s (i # ins) (v # vals) =
     (case fmt_inputs L s ins vals of
        Panic \<Rightarrow> Panic
      | Done ps \<Rightarrow> Done (fmtParam L s (arg_name i) (type_text (arg_type i)) v # ps))"

text \<open>A nil slice of parameters is \<open>None\<close>: it is written as \<open>null\<close>.\<close>

definition decodeInput :: "('sk, 'stx) lib \<Rightarrow> webui \<Rightarrow> bytes \<Rightarrow> param list option outcome" where
  "decodeInput L s data =
     (if length data < 4 then Done None
      else case MethodById L decoderABI (take 4 data) of
             Err _ \<Rightarrow> Done None
           | Ok m \<Rightarrow>
               (case ArgsUnpack L (inputs m) (drop 4 data) of
                  Err _ \<Rightarrow> Done None
                | Ok vals \<Rightarrow>
                    (case fmt_inputs L s (inputs m) vals of
                       Panic \<Rightarrow> Panic
                     | Done ps \<Rightarrow> Done (Some ps))))"

record log_entry =
  le_Address :: string
  le_Event :: string
  le_Params :: "param list"
  le_Topic0 :: string
  le_Raw :: bool

text \<open>The loop over an event's inputs, with the topic index \<open>ti\<close> and the data values left.\<close>

fun event_params :: "('sk, 'stx) lib \<Rightarrow> webui \<Rightarrow> bytes list \<Rightarrow> abi_arg list \<Rightarrow> nat \<Rightarrow> any list \<Rightarrow> param list" where
  "event_params L s topics [] ti dataVals = []"
| "event_params L s topics (i # ins) ti dataVals =
     (if arg_indexed i
      then fmtParam L s (arg_name i) (type_text (arg_type i))
             (if ti < length topics then topicValue L (arg_type i) (topics ! ti) else ANil)
           # event_params L s topics ins (ti + 1) dataVals
      else (case dataVals of
              v # vs \<Rightarrow> fmtParam L s (arg_name i) (type_text (arg_type i)) v
                        # event_params L s topics ins ti vs
            | [] \<Rightarrow> fmtParam L s (arg_name i) (type_text (arg_type i)) ANil
                    # event_params L s topics ins ti []))"

definition decode_log :: "('sk, 'stx) lib \<Rightarrow> webui \<Rightarrow> log_rec \<Rightarrow> log_entry option" where
  "decode_log L s lg =
     (case lg_Topics lg of
        [] \<Rightarrow> None
      | t0 # _ \<Rightarrow>
          (case EventByID L decoderABI t0 of
             Err _ \<Rightarrow> Some \<lparr>le_Address = label L s (lg_Address lg), le_Event = ''Unknown'', le_Params = [],
                           le_Topic0 = HashHex L t0, le_Raw = True\<rparr>
           | Ok ev \<Rightarrow>
               (let dataVals = ok_or [] (ArgsUnpack L (filter (\<lambda>i. \<not> arg_indexed i) (inputs ev)) (lg_Data lg))
                in Some \<lparr>le_Address = label L s (lg_Address lg), le_Event = entry_name ev,
                         le_Params = event_params L s (lg_Topics lg) (inputs ev) 1 dataVals,
                         le_Topic0 = [], le_Raw = False\<rparr>)))"

fun decodeLogs :: "('sk, 'stx) lib \<Rightarrow> webui \<Rightarrow> log_rec list \<Rightarrow> log_entry list" where
  "decodeLogs L s [] = []"
| "decodeLogs L s (lg # logs) =
     (case decode_log L s lg of
        None \<Rightarrow> decodeLogs L s logs
      | Some entry \<Rightarrow> entry # decodeLogs L s logs)"

section \<open>GET /api/blocks\<close>

record exTx =
  ex_Hash :: string
  ex_From :: string
  ex_To :: string
  ex_Method :: string
  ex_Status :: string
  ex_Block :: u64
  ex_Value :: string

record exBlock =
  eb_Number :: u64
  eb_Hash :: string
  eb_Time :: u64
  eb_TxN :: nat
  eb_Txs :: "exTx list"

definition decodeTx :: "('sk, 'stx) lib \<Rightarrow> ('e, 'stx) net \<Rightarrow> webui \<Rightarrow> 'stx \<Rightarrow> u64
    \<Rightarrow> ('e, 'stx) world \<Rightarrow> exTx \<times> ('e, 'stx) world" where
  "decodeTx L N s tx blk w =
     (let to = (case StxTo L tx of None \<Rightarrow> [] | Some a \<Rightarrow> label L s a);
          from = (case Sender L tx of Ok f \<Rightarrow> label L s f | Err _ \<Rightarrow> []);
          method = (if 4 \<le> length (StxData L tx)
                    then (case ws_selectors s (hex_selector L (StxData L tx)) of
                            Some m \<Rightarrow> m
                          | None \<Rightarrow> hex_selector L (StxData L tx))
                    else ''transfer(ETH)'')
      in case net_call (EReceipt (StxHash L tx)) (TransactionReceipt N (StxHash L tx)) w of
           (rcpt, w) \<Rightarrow>
             (\<lparr>ex_Hash = HashHex L (StxHash L tx), ex_From = from, ex_To = to, ex_Method = method,
               ex_Status = (case rcpt of
                              Ok (Some rc) \<Rightarrow>
                                if rc_Status rc = ReceiptStatusSuccessful then ''success'' else ''reverted''
                            | _ \<Rightarrow> ''pending''),
               ex_Block = blk, ex_Value = big_String (StxValue L tx)\<rparr>, w))"

fun decode_txs :: "('sk, 'stx) lib \<Rightarrow> ('e, 'stx) net \<Rightarrow> webui \<Rightarrow> 'stx list \<Rightarrow> u64
    \<Rightarrow> ('e, 'stx) world \<Rightarrow> exTx list \<times> ('e, 'stx) world" where
  "decode_txs L N s [] blk w = ([], w)"
| "decode_txs L N s (tx # txs) blk w =
     (case decodeTx L N s tx blk w of (x, w) \<Rightarrow>
        (case decode_txs L N s txs blk w of (xs, w) \<Rightarrow> (x # xs, w)))"

text \<open>
  The loop over \<open>i < n\<close>, with the \<open>left = n - i\<close> iterations that remain. The guard is the
  code's signed 64-bit comparison of \<open>head - i\<close> with 0.
\<close>

fun blocks_loop :: "('sk, 'stx) lib \<Rightarrow> ('e, 'stx) net \<Rightarrow> webui \<Rightarrow> u64 \<Rightarrow> nat \<Rightarrow> nat
    \<Rightarrow> ('e, 'stx) world \<Rightarrow> exBlock list \<times> ('e, 'stx) world" where
  "blocks_loop L N s head i 0 w = ([], w)"
| "blocks_loop L N s head i (Suc left) w =
     (if 0 \<le> sint (head - word_of_nat i)
      then (let bn = uint (head - word_of_nat i)
            in case net_call (EBlock bn) (BlockByNumber N bn) w of
                 (Err _, w) \<Rightarrow> ([], w)
               | (Ok blk, w) \<Rightarrow>
                   (case decode_txs L N s (bk_Transactions blk) (bk_Number blk) w of (txs, w) \<Rightarrow>
                      (case blocks_loop L N s head (i + 1) left w of (out, w) \<Rightarrow>
                         (\<lparr>eb_Number = bk_Number blk, eb_Hash = HashHex L (bk_Hash blk),
                           eb_Time = bk_Time blk, eb_TxN = length (bk_Transactions blk),
                           eb_Txs = txs\<rparr> # out, w))))
      else ([], w))"

definition blocks_wanted :: "string \<Rightarrow> nat" where
  "blocks_wanted q =
     (if q \<noteq> [] then (case strconv_Atoi q of (v, err) \<Rightarrow>
                         if \<not> err \<and> 0 < v \<and> v \<le> 50 then nat v else 12)
      else 12)"

text \<open>A nil slice is written as \<open>null\<close>.\<close>

definition jslice :: "('a \<Rightarrow> json) \<Rightarrow> 'a list \<Rightarrow> json" where
  "jslice f xs = (if xs = [] then JNull else JArr (map f xs))"

definition exTx_json :: "exTx \<Rightarrow> json" where
  "exTx_json x = JObj
     [(''hash'', JStr (ex_Hash x)), (''from'', JStr (ex_From x)), (''to'', JStr (ex_To x)),
      (''method'', JStr (ex_Method x)), (''status'', JStr (ex_Status x)),
      (''block'', jint (uint (ex_Block x))), (''value'', JStr (ex_Value x))]"

definition exBlock_json :: "exBlock \<Rightarrow> json" where
  "exBlock_json b = JObj
     [(''number'', jint (uint (eb_Number b))), (''hash'', JStr (eb_Hash b)),
      (''time'', jint (uint (eb_Time b))), (''txCount'', jint (int (eb_TxN b))),
      (''txs'', jslice exTx_json (eb_Txs b))]"

definition handleBlocks :: "('sk, 'stx) lib \<Rightarrow> ('e, 'stx) net \<Rightarrow> webui \<Rightarrow> ('e, 'stx) handler" where
  "handleBlocks L N s r w =
     (case net_call EBlockNumber (BlockNumber N) w of
        (Err e, w) \<Rightarrow> (Done (writeErr 502 e), w)
      | (Ok head, w) \<Rightarrow>
          (case blocks_loop L N s head 0 (blocks_wanted (rq_query r ''n'')) w of (out, w) \<Rightarrow>
             (Done (writeJSON 200 (jslice exBlock_json out)), w)))"

section \<open>GET /api/tx\<close>

record txDetail =
  td_Hash :: string
  td_Status :: string
  td_Method :: string
  td_Block :: u64
  td_BlockHash :: string
  td_Timestamp :: string
  td_From :: string
  td_FromAddr :: string
  td_To :: string
  td_ToAddr :: string
  td_Value :: string
  td_Nonce :: u64
  td_TxType :: byte
  td_GasLimit :: u64
  td_GasUsed :: u64
  td_GasPrice :: string
  td_Input :: string
  td_Decoded :: "param list option"
  td_Logs :: "log_entry list option"

definition omitempty :: "string \<Rightarrow> string \<Rightarrow> (string \<times> json) list" where
  "omitempty k v = (if v = [] then [] else [(k, JStr v)])"

definition param_json :: "param \<Rightarrow> json" where
  "param_json p = JObj
     ([(''name'', JStr (pm_Name p)), (''type'', JStr (pm_Type p)), (''value'', JStr (pm_Value p))]
      @ omitempty ''human'' (pm_Human p) @ omitempty ''label'' (pm_Label p))"

definition log_entry_json :: "log_entry \<Rightarrow> json" where
  "log_entry_json e = JObj
     ([(''address'', JStr (le_Address e)), (''event'', JStr (le_Event e))]
      @ (if le_Params e = [] then [] else [(''params'', JArr (map param_json (le_Params e)))])
      @ omitempty ''topic0'' (le_Topic0 e)
      @ (if le_Raw e then [(''raw'', JBool True)] else []))"

definition txDetail_json :: "txDetail \<Rightarrow> json" where
  "txDetail_json d = JObj
     [(''hash'', JStr (td_Hash d)), (''status'', JStr (td_Status d)), (''method'', JStr (td_Method d)),
      (''block'', jint (uint (td_Block d))), (''blockHash'', JStr (td_BlockHash d)),
      (''timestamp'', JStr (td_Timestamp d)), (''from'', JStr (td_From d)),
      (''fromAddr'', JStr (td_FromAddr d)), (''to'', JStr (td_To d)), (''toAddr'', JStr (td_ToAddr d)),
      (''value'', JStr (td_Value d)), (''nonce'', jint (uint (td_Nonce d))),
      (''txType'', jint (uint (td_TxType d))), (''gasLimit'', jint (uint (td_GasLimit d))),
      (''gasUsed'', jint (uint (td_GasUsed d))), (''gasPrice'', JStr (td_GasPrice d)),
      (''input'', JStr (td_Input d)),
      (''decoded'', (case td_Decoded d of None \<Rightarrow> JNull | Some ps \<Rightarrow> JArr (map param_json ps))),
      (''logs'', (case td_Logs d of None \<Rightarrow> JNull | Some ls \<Rightarrow> JArr (map log_entry_json ls)))]"

text \<open>The part that needs no receipt; it panics only when \<open>decodeInput\<close> does.\<close>

definition tx_detail :: "('sk, 'stx) lib \<Rightarrow> webui \<Rightarrow> bytes \<Rightarrow> 'stx \<Rightarrow> txDetail outcome" where
  "tx_detail L s hash tx =
     (let from = (case Sender L tx of Ok f \<Rightarrow> AddressHex L f | Err _ \<Rightarrow> []);
          to = (case StxTo L tx of None \<Rightarrow> [] | Some a \<Rightarrow> label L s a);
          toAddr = (case StxTo L tx of None \<Rightarrow> [] | Some a \<Rightarrow> AddressHex L a)
      in case decodeInput L s (StxData L tx) of
           Panic \<Rightarrow> Panic
         | Done decoded \<Rightarrow> Done
             \<lparr>td_Hash = HashHex L hash, td_Status = ''pending'', td_Method = methodName L s (StxData L tx),
              td_Block = 0, td_BlockHash = [], td_Timestamp = [],
              td_From = label L s (HexToAddress L from), td_FromAddr = from, td_To = to, td_ToAddr = toAddr,
              td_Value = big_String (StxValue L tx), td_Nonce = StxNonce L tx, td_TxType = StxType L tx,
              td_GasLimit = StxGas L tx, td_GasUsed = 0, td_GasPrice = [],
              td_Input = ''0x'' @ Bytes2Hex L (StxData L tx), td_Decoded = decoded, td_Logs = None\<rparr>)"

text \<open>
  What the receipt adds. \<open>BlockNumber.Uint64()\<close> dereferences a pointer: a receipt without a block
  number panics.
\<close>

definition with_receipt :: "('sk, 'stx) lib \<Rightarrow> ('e, 'stx) net \<Rightarrow> webui \<Rightarrow> bytes \<Rightarrow> txDetail
    \<Rightarrow> ('e, 'stx) world \<Rightarrow> txDetail outcome \<times> ('e, 'stx) world" where
  "with_receipt L N s hash d w =
     (case net_call (EReceipt hash) (TransactionReceipt N hash) w of
        (Ok (Some rcpt), w) \<Rightarrow>
          (case rc_BlockNumber rcpt of
             None \<Rightarrow> (Panic, w)
           | Some number \<Rightarrow>
          (let d = d\<lparr>td_Status := (if rc_Status rcpt = ReceiptStatusSuccessful then ''success'' else ''reverted''),
                     td_Block := big_Uint64 number,
                     td_BlockHash := HashHex L (rc_BlockHash rcpt),
                     td_GasUsed := rc_GasUsed rcpt,
                     td_GasPrice := (case rc_EffectiveGasPrice rcpt of
                                       Some p \<Rightarrow> big_String p | None \<Rightarrow> td_GasPrice d),
                     td_Logs := Some (decodeLogs L s (rc_Logs rcpt))\<rparr>
           in case net_call (EHeadByHash (rc_BlockHash rcpt)) (HeaderByHash N (rc_BlockHash rcpt)) w of
                (Ok (Some hdr), w) \<Rightarrow> (Done (d\<lparr>td_Timestamp := nat_text (unat (hd_Time hdr))\<rparr>), w)
              | (_, w) \<Rightarrow> (Done d, w)))
      | (_, w) \<Rightarrow> (Done d, w))"

definition handleTx :: "('sk, 'stx) lib \<Rightarrow> ('e, 'stx) net \<Rightarrow> webui \<Rightarrow> ('e, 'stx) handler" where
  "handleTx L N s r w =
     (let hash = HexToHash L (rq_query r ''hash'') in
      case net_call (ETx hash) (TransactionByHash N hash) w of
        (Err _, w) \<Rightarrow> (Done (writeErr 404 ''tx not found''), w)
      | (Ok (tx, pending), w) \<Rightarrow>
          (case tx_detail L s hash tx of
             Panic \<Rightarrow> (Panic, w)
           | Done d \<Rightarrow>
               (case (if \<not> pending then with_receipt L N s hash d w else (Done d, w)) of
                  (Panic, w) \<Rightarrow> (Panic, w)
                | (Done d, w) \<Rightarrow> (Done (writeJSON 200 (txDetail_json d)), w))))"

section \<open>Forwarding writes\<close>

text \<open>
  \<open>ResponseWriter.WriteHeader\<close> panics on a code that does not have three digits. An HTTP client
  reads any three characters that are a number, so a peer can answer 099.
\<close>

definition valid_code :: "nat \<Rightarrow> bool" where
  "valid_code n \<longleftrightarrow> 100 \<le> n \<and> n \<le> 999"

definition WriteHeader :: "nat \<Rightarrow> body \<Rightarrow> response outcome" where
  "WriteHeader n b = (if valid_code n then Done \<lparr>rs_status = n, rs_body = b\<rparr> else Panic)"

definition proxy :: "('e, 'stx) net \<Rightarrow> string \<Rightarrow> string \<Rightarrow> ('e, 'stx) handler" where
  "proxy N base path r w =
     (let req = \<lparr>hq_method = ''POST'', hq_url = base @ path, hq_body = rq_body r\<rparr> in
      case http_call N req w of
        (Panic, w) \<Rightarrow> (Panic, w)
      | (Done (Err e), w) \<Rightarrow> (Done (writeErr 502 e), w)
      | (Done (Ok resp), w) \<Rightarrow> (WriteHeader (rs_status resp) (rs_body resp), w))"

section \<open>Routing and start-up\<close>

definition webui_mux :: "('sk, 'stx) lib \<Rightarrow> ('e, 'stx) net \<Rightarrow> webui \<Rightarrow> (string \<times> string \<times> ('e, 'stx) handler) list" where
  "webui_mux L N s =
     [(''GET'', ''/api/state'', handleState L N s),
      (''GET'', ''/api/blocks'', handleBlocks L N s),
      (''GET'', ''/api/tx'', handleTx L N s),
      (''POST'', ''/api/authorize'', proxy N (bank_DepositSvcURL (BankA L (ws_env s))) ''/authorize''),
      (''POST'', ''/api/mint'', proxy N (bank_DepositSvcURL (BankA L (ws_env s))) ''/mint''),
      (''POST'', ''/api/transfer'', proxy N (bank_DepositSvcURL (BankB L (ws_env s))) ''/transfer'')]"

text \<open>
  The pattern "/" serves every other request from the static directory, with any method; the
  file server of \<open>net/http\<close> is the argument \<open>static\<close>.
\<close>

definition webui_Handler :: "('sk, 'stx) lib \<Rightarrow> ('e, 'stx) net \<Rightarrow> (string \<Rightarrow> request \<Rightarrow> response) \<Rightarrow> webui
    \<Rightarrow> ('e, 'stx) handler" where
  "webui_Handler L N static s r w =
     (case mux_find (webui_mux L N s) r of
        Route h \<Rightarrow> h r w
      | _ \<Rightarrow> (Done (static (ws_staticDir s) r), w))"

text \<open>\<open>Run\<close> and \<open>main\<close> up to listening: the port and the server, or the error of the process.\<close>

definition webui_Run :: "('sk, 'stx) lib \<Rightarrow> env \<Rightarrow> (string \<Rightarrow> bool) \<Rightarrow> deployment res
    \<Rightarrow> (string \<Rightarrow> unit res) \<Rightarrow> int \<Rightarrow> (int \<times> webui) res" where
  "webui_Run L env exists load dial port =
     (case webui_New L env exists load dial of
        Err e \<Rightarrow> Err e
      | Ok srv \<Rightarrow> Ok (port, srv))"

definition webui_main :: "('sk, 'stx) lib \<Rightarrow> env \<Rightarrow> (string \<Rightarrow> bool) \<Rightarrow> deployment res
    \<Rightarrow> (string \<Rightarrow> unit res) \<Rightarrow> (int \<times> webui) res" where
  "webui_main L env exists load dial =
     (let port = (if env ''PORT'' \<noteq> [] then fst (strconv_Atoi (env ''PORT'')) else 8080)
      in case webui_Run L env exists load dial port of
           Err e \<Rightarrow> Err (''webui: '' @ e)
         | Ok served \<Rightarrow> Ok served)"

end
