(* ===== verification/Webui_Properties.thy ===== *)
theory Webui_Properties
  imports Webui Deposit_Service
begin

text \<open>
  The properties of the web console: it never signs or broadcasts and forwards only to the bank
  a write belongs to, it answers every request, its block list and transaction view agree, and
  its decoders show what the deposit services and the contracts wrote.
\<close>

section \<open>Reading without writing\<close>

text \<open>Between the two worlds only chain reads happened.\<close>

definition reads :: "('e, 'stx) world \<Rightarrow> ('e, 'stx) world \<Rightarrow> bool" where
  "reads w w' \<longleftrightarrow> (\<exists>es. emits w w' es \<and> sent es = [] \<and> http_sent es = [])"

lemma reads_refl [simp, intro]: "reads w w"
  unfolding reads_def by (intro exI [of _ "[]"]) simp

lemma reads_trans: "reads w v \<Longrightarrow> reads v u \<Longrightarrow> reads w u"
  unfolding reads_def by (metis emits_trans sent_simps(18) http_sent_simps(18) append.right_neutral)

fun is_read :: "'stx event \<Rightarrow> bool" where
  "is_read (ESend _) = False"
| "is_read (EHttp _) = False"
| "is_read _ = True"

lemma net_call_reads: "net_call ev f w = (r, w') \<Longrightarrow> is_read ev \<Longrightarrow> reads w w'"
  unfolding reads_def by (drule net_call_emits, intro exI [of _ "[ev]"]) (cases ev; simp)

lemma w_readUint_reads: "w_readUint L N to a m args w = (r, w') \<Longrightarrow> reads w w'"
  by (auto simp: w_readUint_def Let_def intro: net_call_reads split: res.splits prod.splits)

lemma w_readStr_reads: "w_readStr L N to m w = (r, w') \<Longrightarrow> reads w w'"
  by (auto simp: w_readStr_def Let_def intro: net_call_reads split: res.splits prod.splits)

lemma w_balanceOf_reads: "w_balanceOf L N s a w = (r, w') \<Longrightarrow> reads w w'"
  unfolding w_balanceOf_def by (rule w_readUint_reads)

lemmas chain_reads = w_readUint_reads w_readStr_reads w_balanceOf_reads

lemma handleState_reads: "handleState L N s r w = (x, w') \<Longrightarrow> reads w w'"
  unfolding handleState_def Let_def
  by (auto split: prod.splits dest!: chain_reads net_call_reads) (meson reads_trans)

lemma decodeTx_reads: "decodeTx L N s tx blk w = (x, w') \<Longrightarrow> reads w w'"
  unfolding decodeTx_def Let_def by (auto split: prod.splits dest: net_call_reads)

lemma decode_txs_reads: "decode_txs L N s txs blk w = (xs, w') \<Longrightarrow> reads w w'"
  by (induction txs arbitrary: xs w) (auto split: prod.splits dest!: decodeTx_reads intro: reads_trans)

lemma blocks_loop_reads: "blocks_loop L N s head i n w = (xs, w') \<Longrightarrow> reads w w'"
proof (induction n arbitrary: i xs w)
  case (Suc n)
  from Suc.prems show ?case
    by (auto simp: Let_def split: if_splits prod.splits res.splits
        dest!: Suc.IH net_call_reads decode_txs_reads intro: reads_trans)
qed simp

lemma handleBlocks_reads: "handleBlocks L N s r w = (x, w') \<Longrightarrow> reads w w'"
  unfolding handleBlocks_def
  by (auto split: prod.splits res.splits dest!: net_call_reads blocks_loop_reads intro: reads_trans)

lemma with_receipt_reads: "with_receipt L N s hash d w = (x, w') \<Longrightarrow> reads w w'"
  unfolding with_receipt_def Let_def
  by (auto split: prod.splits res.splits option.splits dest!: net_call_reads intro: reads_trans)

lemma handleTx_reads: "handleTx L N s r w = (x, w') \<Longrightarrow> reads w w'"
  unfolding handleTx_def Let_def
  by (auto split: prod.splits res.splits outcome.splits if_splits
      dest!: net_call_reads with_receipt_reads intro: reads_trans)

text \<open>The three places a write may be forwarded to.\<close>

definition forward_urls :: "('sk, 'stx) lib \<Rightarrow> env \<Rightarrow> string list" where
  "forward_urls L env =
     [bank_DepositSvcURL (BankA L env) @ ''/authorize'', bank_DepositSvcURL (BankA L env) @ ''/mint'',
      bank_DepositSvcURL (BankB L env) @ ''/transfer'']"

definition forwarded :: "string \<Rightarrow> request \<Rightarrow> http_req" where
  "forwarded url r = \<lparr>hq_method = ''POST'', hq_url = url, hq_body = rq_body r\<rparr>"


lemma proxy_emits:
  assumes "proxy N base path r w = (x, w')"
  shows "emits w w' (if url_parses (base @ path)
                     then [EHttp \<lparr>hq_method = ''POST'', hq_url = base @ path, hq_body = rq_body r\<rparr>] else [])"
  using assms
  by (auto simp: proxy_def Let_def dest!: http_call_emits split: prod.splits outcome.splits res.splits)

lemma proxy_outcome:
  "fst (proxy N base path r w) =
     (if url_parses (base @ path)
      then (case fst (HttpDo N (forwarded (base @ path) r) (w_env w)) of
              Ok resp \<Rightarrow> if valid_code (rs_status resp) then Done resp else Panic
            | Err e \<Rightarrow> Done (writeErr 502 e))
      else Panic)"
  by (auto simp: proxy_def forwarded_def WriteHeader_def http_call_def net_call_def Let_def split: prod.splits res.splits)

lemma mux_find_Route: "mux_find m r = Route h \<Longrightarrow> \<exists>me p. (me, p, h) \<in> set m \<and> p = rq_path r"
  by (auto simp: mux_find_def split: option.splits if_splits dest!: find_SomeD)

lemma webui_Handler_cases:
  assumes "webui_Handler L N static s r w = (x, w')"
  obtains (static_file) "x = Done (static (ws_staticDir s) r)" "w' = w"
  | (chain_read) "reads w w'"
  | (forward) base path where "base @ path \<in> set (forward_urls L (ws_env s))"
      "proxy N base path r w = (x, w')"
proof (cases "mux_find (webui_mux L N s) r")
  case (Route h)
  with assms have h: "h r w = (x, w')" by (simp add: webui_Handler_def)
  from mux_find_Route [OF Route] consider "h = handleState L N s" | "h = handleBlocks L N s"
    | "h = handleTx L N s" | "h = proxy N (bank_DepositSvcURL (BankA L (ws_env s))) ''/authorize''"
    | "h = proxy N (bank_DepositSvcURL (BankA L (ws_env s))) ''/mint''"
    | "h = proxy N (bank_DepositSvcURL (BankB L (ws_env s))) ''/transfer''"
    unfolding webui_mux_def by auto
  then show thesis
  proof cases
    case 1
    with h show thesis by (intro chain_read) (simp add: handleState_reads)
  next
    case 2
    with h show thesis by (intro chain_read) (simp add: handleBlocks_reads)
  next
    case 3
    with h show thesis by (intro chain_read) (simp add: handleTx_reads)
  next
    case 4
    with h show thesis by (intro forward) (auto simp: forward_urls_def)
  next
    case 5
    with h show thesis by (intro forward) (auto simp: forward_urls_def)
  next
    case 6
    with h show thesis by (intro forward) (auto simp: forward_urls_def)
  qed
qed (use assms static_file in \<open>simp_all add: webui_Handler_def\<close>)

section \<open>Properties of the routing\<close>

text \<open>
  C20. The console holds no key and never signs: whatever request it serves, it broadcasts no
  transaction, and it sends at most one HTTP request, a POST of the client's own body to Bank
  A's /authorize or /mint or to Bank B's /transfer; in particular it never calls a signing
  router.
\<close>

theorem webui_only_reads_and_forwards:
  assumes "webui_Handler L N static s r w = (x, w')"
  shows "\<exists>es. emits w w' es \<and> sent es = [] \<and>
           (http_sent es = [] \<or>
            (\<exists>url. http_sent es = [\<lparr>hq_method = ''POST'', hq_url = url, hq_body = rq_body r\<rparr>] \<and>
               (url = bank_DepositSvcURL (BankA L (ws_env s)) @ ''/authorize'' \<or>
                url = bank_DepositSvcURL (BankA L (ws_env s)) @ ''/mint'' \<or>
                url = bank_DepositSvcURL (BankB L (ws_env s)) @ ''/transfer'')))"
  using assms
proof (cases rule: webui_Handler_cases)
  case static_file
  then show ?thesis by (intro exI [of _ "[]"]) simp
next
  case chain_read
  then show ?thesis unfolding reads_def by blast
next
  case (forward base path)
  from proxy_emits [OF forward(2)] forward(1) show ?thesis
    by (intro exI conjI) (auto simp: forward_urls_def)
qed

definition sample_webui :: webui where
  "sample_webui = \<lparr>ws_env = empty_env, ws_dep = sample_dep, ws_staticDir = ''webui/static'',
     ws_selectors = selectors sample_lib\<rparr>"

definition sample_request :: "string \<Rightarrow> string \<Rightarrow> json \<Rightarrow> request" where
  "sample_request m p j = \<lparr>rq_method = m, rq_path = p, rq_query = (\<lambda>_. []), rq_body = Json j\<rparr>"

theorem webui_only_reads_and_forwards_witness:
  "\<exists>x w' es. webui_Handler sample_lib sample_net (\<lambda>_ _. not_found) sample_webui
       (sample_request ''POST'' ''/api/mint'' JNull) sample_world = (x, w')
     \<and> emits sample_world w' es \<and> sent es = []"
proof -
  obtain x w' where h: "webui_Handler sample_lib sample_net (\<lambda>_ _. not_found) sample_webui
      (sample_request ''POST'' ''/api/mint'' JNull) sample_world = (x, w')" by fastforce
  from webui_only_reads_and_forwards [OF h] h show ?thesis by blast
qed

text \<open>What the decoders rely on: a method found is one of the ABI, and unpacking returns one value
  per non-indexed argument.\<close>

fun is_function :: "abi_entry \<Rightarrow> bool" where
  "is_function (AbiFunction _ _ _ _) = True"
| "is_function (AbiEvent _ _) = False"

definition method_lookup_ok :: "('sk, 'stx) lib \<Rightarrow> bool" where
  "method_lookup_ok L \<longleftrightarrow> (\<forall>a sl m. MethodById L a sl = Ok m \<longrightarrow> m \<in> set a \<and> is_function m)"

definition args_unpack_ok :: "('sk, 'stx) lib \<Rightarrow> bool" where
  "args_unpack_ok L \<longleftrightarrow>
     (\<forall>ins bs vs. list_all (\<lambda>i. \<not> arg_indexed i) ins \<and> ArgsUnpack L ins bs = Ok vs \<longrightarrow> length vs = length ins)"

lemma fmt_inputs_Done: "length vals = length ins \<Longrightarrow> \<exists>ps. fmt_inputs L s ins vals = Done ps"
  by (induction L s ins vals rule: fmt_inputs.induct) auto

lemma decoder_functions: "d \<in> set decoderABI \<Longrightarrow> is_function d \<Longrightarrow> list_all (\<lambda>i. \<not> arg_indexed i) (inputs d)"
  by (auto simp: decoderABI_def)

lemma decodeInput_Done:
  assumes "method_lookup_ok L" and "args_unpack_ok L"
  shows "\<exists>ps. decodeInput L s data = Done ps"
proof (cases "MethodById L decoderABI (take 4 data)")
  case (Ok m)
  with assms(1) have "m \<in> set decoderABI" "is_function m" by (auto simp: method_lookup_ok_def)
  then have "list_all (\<lambda>i. \<not> arg_indexed i) (inputs m)" by (rule decoder_functions)
  then have "ArgsUnpack L (inputs m) (drop 4 data) = Ok vs \<Longrightarrow> length vs = length (inputs m)" for vs
    using assms(2) by (auto simp: args_unpack_ok_def)
  then show ?thesis
    using Ok fmt_inputs_Done [of _ "inputs m" L s]
    by (cases "ArgsUnpack L (inputs m) (drop 4 data)") (fastforce simp: decodeInput_def)+
qed (simp add: decodeInput_def)


lemma with_receipt_Panic:
  "fst (with_receipt L N s hash d w) = Panic \<longleftrightarrow>
     (\<exists>rc. fst (TransactionReceipt N hash (w_env w)) = Ok (Some rc) \<and> rc_BlockNumber rc = None)"
  by (auto simp: with_receipt_def net_call_def Let_def split: prod.split res.split option.split)



lemma handleBlocks_Done:
  "\<exists>y w'. handleBlocks L N s r w = (Done y, w') \<and> (rs_status y = 200 \<or> rs_status y = 502)"
  by (simp add: handleBlocks_def split: prod.split res.split)

lemma webui_routes [wire_simps]:
  "rq_method r = ''GET'' \<Longrightarrow> rq_path r = ''/api/state'' \<Longrightarrow> webui_Handler L N static s r w = handleState L N s r w"
  "rq_method r = ''GET'' \<Longrightarrow> rq_path r = ''/api/blocks'' \<Longrightarrow> webui_Handler L N static s r w = handleBlocks L N s r w"
  "rq_method r = ''GET'' \<Longrightarrow> rq_path r = ''/api/tx'' \<Longrightarrow> webui_Handler L N static s r w = handleTx L N s r w"
  "rq_method r = ''POST'' \<Longrightarrow> rq_path r = ''/api/authorize'' \<Longrightarrow>
     webui_Handler L N static s r w = proxy N (bank_DepositSvcURL (BankA L (ws_env s))) ''/authorize'' r w"
  "rq_method r = ''POST'' \<Longrightarrow> rq_path r = ''/api/mint'' \<Longrightarrow>
     webui_Handler L N static s r w = proxy N (bank_DepositSvcURL (BankA L (ws_env s))) ''/mint'' r w"
  "rq_method r = ''POST'' \<Longrightarrow> rq_path r = ''/api/transfer'' \<Longrightarrow>
     webui_Handler L N static s r w = proxy N (bank_DepositSvcURL (BankB L (ws_env s))) ''/transfer'' r w"
  by (simp_all add: webui_Handler_def webui_mux_def mux_find_def pattern_method_def)




lemma args_values_length: "args_values ins bs = Ok vs \<Longrightarrow> length vs = length ins"
  by (induction ins arbitrary: bs vs) (auto split: if_splits res.splits)

lemma sample_args_unpack_ok: "args_unpack_ok sample_lib"
  by (auto simp: args_unpack_ok_def sample_lib_def args_values_length)

lemma sample_method_lookup_ok: "method_lookup_ok sample_lib"
  by (auto simp: method_lookup_ok_def sample_lib_def split: option.splits abi_entry.splits dest!: find_SomeD)





section \<open>The block list\<close>

definition blocks_asked :: "'stx event list \<Rightarrow> int list" where
  "blocks_asked es = List.map_filter (\<lambda>e. case e of EBlock i \<Rightarrow> Some i | _ \<Rightarrow> None) es"

lemma blocks_asked_simps [simp]:
  "blocks_asked [] = []" "blocks_asked (EBlock i # es) = i # blocks_asked es"
  "blocks_asked (EBlockNumber # es) = blocks_asked es" "blocks_asked (EReceipt h # es) = blocks_asked es"
  "blocks_asked (es @ fs) = blocks_asked es @ blocks_asked fs"
  by (simp_all add: blocks_asked_def map_filter_simps) (simp add: List.map_filter_def)

lemma blocks_asked_receipts [simp]: "blocks_asked (map EReceipt hs) = []"
  by (induction hs) auto

lemma decodeTx_emits: "decodeTx L N s tx blk w = (x, w') \<Longrightarrow> emits w w' [EReceipt (StxHash L tx)]"
  unfolding decodeTx_def Let_def by (auto split: prod.splits dest: net_call_emits)

lemma decode_txs_emits:
  "decode_txs L N s txs blk w = (xs, w') \<Longrightarrow> emits w w' (map EReceipt (map (StxHash L) txs)) \<and> length xs = length txs"
proof (induction txs arbitrary: xs w)
  case (Cons tx txs)
  from Cons.prems obtain x v ys where "decodeTx L N s tx blk w = (x, v)"
    and r: "decode_txs L N s txs blk v = (ys, w')" and xs: "xs = x # ys"
    by (auto split: prod.splits)
  from emits_trans [OF decodeTx_emits [OF this(1)]] Cons.IH [OF r] xs show ?case by auto
qed simp

lemma sint_head:
  assumes "uint head < 2 ^ 63" and "int i \<le> 2 ^ 63"
  shows "sint (head - word_of_nat i :: u64) = uint head - int i"
proof -
  have "sint (word_of_int (uint head - int i) :: u64) = signed_take_bit 63 (uint head - int i)"
    by (simp only: signed_of_int) simp
  also have "\<dots> = uint head - int i"
  proof (rule signed_take_bit_int_eq_self)
    have "0 \<le> uint head" by simp
    with assms show "- (2 ^ 63) \<le> uint head - int i" "uint head - int i < 2 ^ 63" by linarith+
  qed
  finally show ?thesis by simp
qed

lemma uint_head:
  assumes "uint head < 2 ^ 63" and "int i \<le> uint head"
  shows "uint (head - word_of_nat i :: u64) = uint head - int i"
proof -
  have "uint (word_of_int (uint head - int i) :: u64) = take_bit 64 (uint head - int i)"
    by (simp only: unsigned_of_int) simp
  also have "\<dots> = uint head - int i"
    using assms by (simp add: take_bit_int_eq_self)
  finally show ?thesis by simp
qed

text \<open>
  The loop asks consecutive heights; it ends because there are enough of them, because block 0
  was the last one, or because the node failed on the last one asked, which has no entry then.
\<close>

lemma blocks_loop_asks:
  assumes "blocks_loop L N s head i n w = (out, w')" and "uint head < 2 ^ 63" and "int (i + n) \<le> 2 ^ 63"
  shows "\<exists>es k. emits w w' es \<and> blocks_asked es = map (\<lambda>j. uint head - int j) [i..<i + k] \<and>
           k \<le> n \<and> (0 < k \<longrightarrow> int (i + k) \<le> uint head + 1) \<and>
           (length out = k \<and> (k = n \<or> uint head < int (i + k)) \<or>
            length out + 1 = k \<and>
              (\<exists>e. \<not> is_ok (fst (BlockByNumber N (uint head - int (i + length out)) e))))"
  using assms(1,3)
proof (induction n arbitrary: i out w)
  case 0
  then show ?case by (intro exI [of _ "[]"] exI [of _ 0]) auto
next
  case (Suc n)
  have g: "(0 \<le> sint (head - word_of_nat i)) = (int i \<le> uint head)"
    using sint_head [OF assms(2), of i] Suc.prems(2) by simp
  show ?case
  proof (cases "int i \<le> uint head")
    case False
    with Suc.prems g show ?thesis by (intro exI [of _ "[]"] exI [of _ 0]) auto
  next
    case True
    note u = uint_head [OF assms(2) True]
    let ?b = "uint head - int i"
    obtain r v where c: "net_call (EBlock ?b) (BlockByNumber N ?b) w = (r, v)" by fastforce
    note e1 = net_call_emits [OF c]
    show ?thesis
    proof (cases r)
      case (Err e)
      with c have "\<not> is_ok (fst (BlockByNumber N ?b (w_env w)))"
        by (auto simp: net_call_def split: prod.splits)
      moreover from Err Suc.prems g True u c have "out = []" "w' = v" by (simp_all add: Let_def)
      ultimately show ?thesis using e1 True by (intro exI [of _ "[EBlock ?b]"] exI [of _ 1]) auto
    next
      case (Ok blk)
      obtain xs v2 where t: "decode_txs L N s (bk_Transactions blk) (bk_Number blk) v = (xs, v2)" by fastforce
      obtain ys v3 where l: "blocks_loop L N s head (i + 1) n v2 = (ys, v3)" by fastforce
      from Suc.prems g True u c Ok t l have out: "length out = Suc (length ys)" and w': "v3 = w'"
        by (auto simp: Let_def)
      from Suc.IH [OF l [unfolded w']] Suc.prems(2) obtain es k where k: "emits v2 w' es"
        "blocks_asked es = map (\<lambda>j. uint head - int j) [i + 1..<i + 1 + k]" "k \<le> n"
        "0 < k \<longrightarrow> int (i + 1 + k) \<le> uint head + 1"
        "length ys = k \<and> (k = n \<or> uint head < int (i + 1 + k)) \<or>
         length ys + 1 = k \<and> (\<exists>e. \<not> is_ok (fst (BlockByNumber N (uint head - int (i + 1 + length ys)) e)))"
        by auto
      define fs where "fs = (EBlock ?b # map EReceipt (map (StxHash L) (bk_Transactions blk))) @ es"
      have "blocks_asked fs = map (\<lambda>j. uint head - int j) [i..<i + Suc k]"
        using k(2) unfolding fs_def by (simp add: upt_conv_Cons del: map_map upt_Suc)
      moreover have "emits w w' fs" unfolding fs_def
        using emits_trans [OF emits_trans [OF e1 conjunct1 [OF decode_txs_emits [OF t]]] k(1)] by simp
      moreover have "int (i + Suc k) \<le> uint head + 1" using k(4) True by (cases k) auto
      moreover have "i + 1 + length ys = i + length out" using out by simp
      ultimately show ?thesis using k(3,5) out by (intro exI [of _ fs] exI [of _ "Suc k"]) auto
    qed
  qed
qed

lemma blocks_wanted_bounds: "0 < blocks_wanted q" "blocks_wanted q \<le> 50"
  by (auto simp: blocks_wanted_def split: prod.splits)

text \<open>
  C30. The block list: when the node does not give its head the answer is 502 and no block is
  asked. Otherwise the answer is 200 and the blocks asked are the consecutive heights from the
  node's head down: as many as wanted (at most 50), fewer only when block 0 is reached or when
  the node failed on the last one asked. The list holds one entry per block asked, except for
  that failed one.
\<close>

theorem recent_blocks_are_consecutive:
  assumes "handleBlocks L N s r w = (Done x, w')"
    and "\<forall>e h e'. BlockNumber N e = (Ok h, e') \<longrightarrow> uint h < 2 ^ 63"
  shows "\<exists>es. emits w w' es \<and>
           (case fst (BlockNumber N (w_env w)) of
              Err e \<Rightarrow> x = writeErr 502 e \<and> blocks_asked es = []
            | Ok h \<Rightarrow>
                \<exists>bs k. x = writeJSON 200 (jslice exBlock_json bs) \<and>
                  blocks_asked es = map (\<lambda>j. uint h - int j) [0..<k] \<and>
                  k \<le> blocks_wanted (rq_query r ''n'') \<and> k \<le> 50 \<and> int k \<le> uint h + 1 \<and>
                  (length bs = k \<and> (k = blocks_wanted (rq_query r ''n'') \<or> int k = uint h + 1) \<or>
                   length bs + 1 = k \<and>
                     (\<exists>e. \<not> is_ok (fst (BlockByNumber N (uint h - int (length bs)) e)))))"
proof -
  obtain hd v where c: "net_call EBlockNumber (BlockNumber N) w = (hd, v)" by fastforce
  note e1 = net_call_emits [OF c]
  from c have hd: "fst (BlockNumber N (w_env w)) = hd" by (auto simp: net_call_def split: prod.splits)
  show ?thesis
  proof (cases hd)
    case (Err e)
    with c assms(1) have "x = writeErr 502 e" "w' = v" by (simp_all add: handleBlocks_def)
    with e1 hd Err show ?thesis by (intro exI [of _ "[EBlockNumber]"]) simp
  next
    case (Ok h)
    let ?n = "blocks_wanted (rq_query r ''n'')"
    obtain bs v2 where l: "blocks_loop L N s h 0 ?n v = (bs, v2)" by fastforce
    with c Ok assms(1) have x: "x = writeJSON 200 (jslice exBlock_json bs)" "w' = v2"
      by (simp_all add: handleBlocks_def)
    from hd Ok assms(2) have h: "uint h < 2 ^ 63" by (metis prod.collapse)
    have "int (0 + ?n) \<le> 2 ^ 63" using blocks_wanted_bounds(2) [of "rq_query r ''n''"] by simp
    from blocks_loop_asks [OF l h this] obtain es k where k: "emits v v2 es"
      "blocks_asked es = map (\<lambda>j. uint h - int j) [0..<k]" "k \<le> ?n" "0 < k \<longrightarrow> int k \<le> uint h + 1"
      "length bs = k \<and> (k = ?n \<or> uint h < int k) \<or>
       length bs + 1 = k \<and> (\<exists>e. \<not> is_ok (fst (BlockByNumber N (uint h - int (length bs)) e)))"
      by (simp only: add_0) blast
    have le: "int k \<le> uint h + 1" using k(4) by (cases k) auto
    have "k \<le> 50" using k(3) blocks_wanted_bounds(2) [of "rq_query r ''n''"] by simp
    moreover have "length bs = k \<and> (k = ?n \<or> int k = uint h + 1) \<or>
       length bs + 1 = k \<and> (\<exists>e. \<not> is_ok (fst (BlockByNumber N (uint h - int (length bs)) e)))"
      using k(5) le by auto
    moreover have "emits w w' (EBlockNumber # es)" using emits_trans [OF e1 k(1)] x(2) by simp
    ultimately show ?thesis using k(2,3) le x(1) hd Ok
      by (intro exI [of _ "EBlockNumber # es"]) auto
  qed
qed

text \<open>The node's head is 309, and it has no block to give: the list stops at once, asking for 309.\<close>

theorem recent_blocks_are_consecutive_witness:
  "\<exists>x w' es. handleBlocks sample_lib sample_net sample_webui
       (sample_request ''GET'' ''/api/blocks'' JNull) sample_world = (Done x, w')
     \<and> emits sample_world w' es \<and>
     (\<exists>bs k. x = writeJSON 200 (jslice exBlock_json bs) \<and>
        blocks_asked es = map (\<lambda>j. 309 - int j) [0..<k] \<and> k \<le> 50 \<and> (length bs = k \<or> length bs + 1 = k))"
proof -
  obtain x w' where h: "handleBlocks sample_lib sample_net sample_webui
      (sample_request ''GET'' ''/api/blocks'' JNull) sample_world = (Done x, w')"
    using handleBlocks_Done by blast
  have "\<forall>e h e'. BlockNumber sample_net e = (Ok h, e') \<longrightarrow> uint h < 2 ^ 63"
    and head: "fst (BlockNumber sample_net (w_env sample_world)) = Ok 309"
    by (simp_all add: sample_net_def)
  from recent_blocks_are_consecutive [OF h this(1)] show ?thesis
    unfolding head by (intro exI [of _ x] exI [of _ w']) (use h in auto)
qed

section \<open>The list and the detail view\<close>

text \<open>
  C31. The block list and the transaction view are two copies of the same decoding: for the same
  transaction they show the same method, the same recipient, the same value, and, when the
  sender can be recovered, the same sender; and the same status when the node gives both the
  same receipt.
\<close>

theorem list_and_detail_agree:
  assumes "address_hex_ok L"
    and "decodeTx L N s tx blk w = (x, w')" and "tx_detail L s hash tx = Done d"
    and "TransactionReceipt N (StxHash L tx) (w_env w) = (rcpt, e1)"
    and "TransactionReceipt N hash (w_env v) = (rcpt, e2)"
    and "with_receipt L N s hash d v = (Done d', v')" and "Sender L tx = Ok sender"
  shows "ex_Method x = td_Method d' \<and> ex_To x = td_To d' \<and> ex_Value x = td_Value d' \<and>
         ex_From x = td_From d' \<and> ex_From x = label L s sender \<and> ex_Status x = td_Status d'"
proof -
  from assms(3) have d: "td_Method d = methodName L s (StxData L tx)"
      "td_To d = (case StxTo L tx of None \<Rightarrow> [] | Some a \<Rightarrow> label L s a)"
      "td_Value d = big_String (StxValue L tx)" "td_Status d = ''pending''"
      "td_From d = label L s sender"
    using assms(7) address_hex_round [OF assms(1), of sender]
    by (auto simp: tx_detail_def Let_def split: outcome.splits)
  from assms(2,4,7) have x: "ex_Method x = methodName L s (StxData L tx)"
      "ex_To x = (case StxTo L tx of None \<Rightarrow> [] | Some a \<Rightarrow> label L s a)"
      "ex_Value x = big_String (StxValue L tx)" "ex_From x = label L s sender"
      "ex_Status x = (case rcpt of Ok (Some rc) \<Rightarrow>
          if rc_Status rc = ReceiptStatusSuccessful then ''success'' else ''reverted'' | _ \<Rightarrow> ''pending'')"
    by (auto simp: decodeTx_def methodName_def net_call_def Let_def)
  from assms(5,6) d(4) have "td_Method d' = td_Method d" "td_To d' = td_To d" "td_Value d' = td_Value d"
      "td_From d' = td_From d"
      "td_Status d' = (case rcpt of Ok (Some rc) \<Rightarrow>
          if rc_Status rc = ReceiptStatusSuccessful then ''success'' else ''reverted'' | _ \<Rightarrow> ''pending'')"
    by (auto simp: with_receipt_def net_call_def Let_def split: res.splits option.splits prod.splits)
  with d x show ?thesis by simp
qed

text \<open>A transaction of Bank A to the deposit token in the sample library, and a node that has mined it.\<close>

definition sample_stx :: "DynamicFeeTx \<times> bytes" where
  "sample_stx = (unsigned_tx 7 0 21000 0xA4AD [],
     replicate 32 0 @ key_bytes ''ac0974bec39a17e36ba4a6b4d238ff94'' @ [0])"

definition mined_net :: "(unit, DynamicFeeTx \<times> bytes) net" where
  "mined_net = sample_net\<lparr>
     TransactionReceipt := (\<lambda>_ e. (Ok (Some \<lparr>rc_Status = 1, rc_BlockNumber = Some 309, rc_BlockHash = [], rc_GasUsed = 21000,
        rc_EffectiveGasPrice = None, rc_Logs = []\<rparr>), e))\<rparr>"

lemma length_key_bytes [simp]: "length (key_bytes k) = 32"
  by (simp add: key_bytes_def)

lemma sample_HexToAddress_eval:
  "HexToAddress sample_lib t = word_of_nat (hex_nat (if take 2 t = ''0x'' then drop 2 t else t))"
  by (simp add: sample_lib_def sample_HexToAddress_def)

lemma sample_addresses:
  "bank_Address (BankA sample_lib env) = 0xf39Fd6e51aad88F6F4ce6aB8827279cffFb92266"
  "bank_Address (BankB sample_lib env) = 0x70997970C51812dc3A010C7d01b50e0d17dc79C8"
  "Merchant sample_lib = 0x3C44CdDdB6a900fa2b585dd299e03d12FA4293BC"
  by (simp_all add: BankA_def BankB_def Merchant_def sample_HexToAddress_eval hex_nat_def hex_val_def)

lemma sample_stx_sender: "Sender sample_lib sample_stx = Ok 0xf39Fd6e51aad88F6F4ce6aB8827279cffFb92266"
  by (simp add: sample_stx_def sample_lib_def)

text \<open>Both views of that transaction: sent by Bank A to the deposit token, and mined with success.\<close>

theorem list_and_detail_agree_witness:
  "\<exists>x w' d d' v'.
     decodeTx sample_lib mined_net sample_webui sample_stx 309 sample_world = (x, w') \<and>
     tx_detail sample_lib sample_webui [] sample_stx = Done d \<and>
     with_receipt sample_lib mined_net sample_webui [] d sample_world = (Done d', v') \<and>
     ex_Method x = td_Method d' \<and> ex_To x = td_To d' \<and> ex_Value x = td_Value d' \<and> ex_From x = td_From d' \<and>
     ex_Status x = td_Status d' \<and>
     td_From d' = ''Bank A'' \<and> td_To d' = ''DepositToken'' \<and> td_Status d' = ''success''"
proof -
  obtain ps where "decodeInput sample_lib sample_webui (StxData sample_lib sample_stx) = Done ps"
    using decodeInput_Done [OF sample_method_lookup_ok sample_args_unpack_ok] by blast
  then obtain d where d: "tx_detail sample_lib sample_webui [] sample_stx = Done d"
    by (simp add: tx_detail_def Let_def)
  obtain x w' where x: "decodeTx sample_lib mined_net sample_webui sample_stx 309 sample_world = (x, w')" by fastforce
  have r: "TransactionReceipt mined_net h e =
      (Ok (Some \<lparr>rc_Status = 1, rc_BlockNumber = Some 309, rc_BlockHash = [], rc_GasUsed = 21000,
         rc_EffectiveGasPrice = None, rc_Logs = []\<rparr>), e)" for h e
    by (simp add: mined_net_def)
  have "fst (with_receipt sample_lib mined_net sample_webui [] d sample_world) \<noteq> Panic"
    by (simp add: with_receipt_Panic r)
  then obtain d' v' where d': "with_receipt sample_lib mined_net sample_webui [] d sample_world = (Done d', v')"
    by (cases "with_receipt sample_lib mined_net sample_webui [] d sample_world"; cases "fst (with_receipt sample_lib mined_net sample_webui [] d sample_world)") auto
  from list_and_detail_agree [OF sample_address_hex_ok x d r r d' sample_stx_sender]
  have agree: "ex_Method x = td_Method d'" "ex_To x = td_To d'" "ex_Value x = td_Value d'" "ex_From x = td_From d'"
    "ex_Status x = td_Status d'" "ex_From x = label sample_lib sample_webui 0xf39Fd6e51aad88F6F4ce6aB8827279cffFb92266"
    by blast+
  have "StxTo sample_lib sample_stx = Some 0xA4AD" by (simp add: sample_stx_def sample_lib_def unsigned_tx_def)
  with x have "ex_To x = label sample_lib sample_webui 0xA4AD" "ex_Status x = ''success''"
    by (auto simp: decodeTx_def net_call_def r ReceiptStatusSuccessful_def Let_def)
  moreover have "label sample_lib sample_webui 0xf39Fd6e51aad88F6F4ce6aB8827279cffFb92266 = ''Bank A''"
    "label sample_lib sample_webui 0xA4AD = ''DepositToken''"
    by (simp_all add: label_def sample_webui_def sample_dep_def sample_addresses)
  ultimately show ?thesis using x d d' agree by metis
qed

section \<open>Calldata\<close>

fun any_text :: "('sk, 'stx) lib \<Rightarrow> any \<Rightarrow> string" where
  "any_text L (AAddress a) = AddressHex L a"
| "any_text L (ABigInt i) = big_String i"
| "any_text L (ABool b) = (if b then ''true'' else ''false'')"
| "any_text L (AUint64 n) = nat_text (unat n)"
| "any_text L (AUint8 n) = nat_text (unat n)"
| "any_text L (AString t) = t"
| "any_text L ANil = ''<nil>''"

lemma fmtParam_fields [simp]:
  "pm_Name (fmtParam L s n t v) = n" "pm_Type (fmtParam L s n t v) = t"
  "pm_Value (fmtParam L s n t v) = any_text L v"
  by (simp_all add: fmtParam_def Let_def split: any.split)

lemma fmt_inputs_shows:
  "length vals = length ins \<Longrightarrow> \<exists>ps. fmt_inputs L s ins vals = Done ps \<and>
     map pm_Name ps = map arg_name ins \<and> map pm_Value ps = map (any_text L) vals"
  by (induction L s ins vals rule: fmt_inputs.induct) auto

text \<open>The values that fit an argument type, strings apart.\<close>

fun fits :: "abi_type \<Rightarrow> any \<Rightarrow> bool" where
  "fits AddressTy (AAddress _) = True"
| "fits (UintTy n) (ABigInt i) = (n = 256 \<and> 0 \<le> i \<and> i < 2 ^ 256)"
| "fits (UintTy n) (AUint64 _) = (n = 64)"
| "fits (UintTy n) (AUint8 _) = (n = 8)"
| "fits BoolTy (ABool _) = True"
| "fits _ _ = False"

text \<open>
  The ABI encoding: a call packed with one ABI is found and unpacked by an entry of the
  explorer's ABI of the same name and argument types; its first four bytes are the selector.
\<close>

definition calldata_ok :: "('sk, 'stx) lib \<Rightarrow> bool" where
  "calldata_ok L \<longleftrightarrow>
     (\<forall>a m args data e d. abi_lookup a m = Some e \<and> is_function e \<and> d \<in> set decoderABI \<and> is_function d \<and>
        entry_name d = m \<and> map arg_type (inputs d) = map arg_type (inputs e) \<and>
        list_all2 fits (map arg_type (inputs e)) args \<and> Pack L a m args = Ok data \<longrightarrow>
        4 \<le> length data \<and> take 4 data = take 4 (Keccak256 L (text_bytes (sig_text e))) \<and>
        MethodById L decoderABI (take 4 data) = Ok d \<and> ArgsUnpack L (inputs d) (drop 4 data) = Ok args)"

definition selectors_distinct :: "('sk, 'stx) lib \<Rightarrow> bool" where
  "selectors_distinct L \<longleftrightarrow> distinct
     [sel L ''mint(address,address,uint256)'', sel L ''burn(address,uint256)'',
      sel L ''transfer(address,uint256)'', sel L ''modifyPolicyWhitelist(uint64,address,bool)'']"

text \<open>The calls the deposit services make, with the name the explorer gives each.\<close>

definition deposit_calls :: "(abi \<times> string \<times> string) list" where
  "deposit_calls =
     [(TokenAuthority_abi, ''mint'', ''mint''), (DepositToken_abi, ''transfer'', ''transfer''),
      (AuthRegistry_abi, ''modifyPolicyWhitelist'', ''authorize'')]"

lemma selectors_names:
  assumes "selectors_distinct L"
  shows "selectors L (sel L ''mint(address,address,uint256)'') = Some ''mint''"
    "selectors L (sel L ''transfer(address,uint256)'') = Some ''transfer''"
    "selectors L (sel L ''modifyPolicyWhitelist(uint64,address,bool)'') = Some ''authorize''"
  using assms by (auto simp: selectors_def selectors_distinct_def)

text \<open>Each of these calls has its entry in the explorer's ABI, and its selector in the table.\<close>

lemma deposit_calls_decoder:
  assumes "(a, m, shown) \<in> set deposit_calls" and "abi_lookup a m = Some e" and "selectors_distinct L"
  shows "is_function e \<and> selectors L (sel L (sig_text e)) = Some shown \<and>
         (\<exists>d. d \<in> set decoderABI \<and> is_function d \<and> entry_name d = m \<and>
              map arg_type (inputs d) = map arg_type (inputs e) \<and> map arg_name (inputs d) = map arg_name (inputs e))"
proof -
  consider "a = TokenAuthority_abi" "m = ''mint''" "shown = ''mint''"
    | "a = DepositToken_abi" "m = ''transfer''" "shown = ''transfer''"
    | "a = AuthRegistry_abi" "m = ''modifyPolicyWhitelist''" "shown = ''authorize''"
    using assms(1) by (auto simp: deposit_calls_def)
  then show ?thesis
  proof cases
    case 1
    with assms(2) have "e = hd TokenAuthority_abi" by (simp add: abi_lookup_def TokenAuthority_abi_def)
    with 1 show ?thesis
      using selectors_names(1) [OF assms(3)]
      by (simp add: TokenAuthority_abi_def sig_text_def decoderABI_def conj_disj_distribR ex_disj_distrib)
  next
    case 2
    with assms(2) have "e = hd DepositToken_abi" by (simp add: abi_lookup_def DepositToken_abi_def)
    with 2 show ?thesis
      using selectors_names(2) [OF assms(3)]
      by (simp add: DepositToken_abi_def sig_text_def decoderABI_def conj_disj_distribR ex_disj_distrib)
  next
    case 3
    with assms(2) have "e = hd AuthRegistry_abi" by (simp add: abi_lookup_def AuthRegistry_abi_def)
    with 3 show ?thesis
      using selectors_names(3) [OF assms(3)]
      by (simp add: AuthRegistry_abi_def sig_text_def decoderABI_def conj_disj_distribR ex_disj_distrib)
  qed
qed

text \<open>
  C25. The explorer shows what the deposit services broadcast: the calldata a service packs for
  mint, transfer or the whitelisting is shown under its own name ("authorize" for the
  whitelisting), with the arguments' names in order and exactly the values that were packed,
  for every value that fits its type.
\<close>

theorem explorer_reads_the_writes:
  assumes "calldata_ok L" and "selectors_distinct L" and "ws_selectors s = selectors L"
    and "(a, m, shown) \<in> set deposit_calls" and "abi_lookup a m = Some e"
    and "list_all2 fits (map arg_type (inputs e)) args" and "Pack L a m args = Ok data"
  shows "methodName L s data = shown \<and>
         (\<exists>ps. decodeInput L s data = Done (Some ps) \<and> map pm_Name ps = map arg_name (inputs e) \<and>
               map pm_Value ps = map (any_text L) args)"
proof -
  from deposit_calls_decoder [OF assms(4,5,2)] obtain d where e: "is_function e"
    "selectors L (sel L (sig_text e)) = Some shown"
    and d: "d \<in> set decoderABI" "is_function d" "entry_name d = m"
      "map arg_type (inputs d) = map arg_type (inputs e)" "map arg_name (inputs d) = map arg_name (inputs e)"
    by blast
  from assms(1,5,6,7) e(1) d(1-4) have dec: "4 \<le> length data"
    "take 4 data = take 4 (Keccak256 L (text_bytes (sig_text e)))"
    "MethodById L decoderABI (take 4 data) = Ok d" "ArgsUnpack L (inputs d) (drop 4 data) = Ok args"
    unfolding calldata_ok_def by blast+
  have "hex_selector L data = sel L (sig_text e)" by (simp add: sel_def hex_selector_def dec(2))
  then have name: "methodName L s data = shown" using dec(1) e(2) assms(3) by (simp add: methodName_def)
  from list_all2_lengthD [OF assms(6)] map_eq_imp_length_eq [OF d(4)] have "length args = length (inputs d)" by simp
  from fmt_inputs_shows [OF this, of L s] dec(1,3,4) d(5) name show ?thesis
    by (auto simp: decodeInput_def)
qed

text \<open>The sample library satisfies the encoding hypotheses.\<close>

lemma big_SetBytes_snoc: "big_SetBytes (bs @ [b]) = 256 * big_SetBytes bs + uint b"
  by (simp add: big_SetBytes_def)

lemma big_SetBytes_digits:
  "big_SetBytes (map (\<lambda>k. word_of_int (i div 256 ^ (n - 1 - k))) [0..<n]) = i mod 256 ^ n"
proof (induction n arbitrary: i)
  case 0
  show ?case by (simp add: big_SetBytes_def)
next
  case (Suc n)
  have "i div 256 ^ (n - k) = i div 256 div 256 ^ (n - 1 - k)" if "k < n" for k
  proof -
    from that have "n - k = Suc (n - 1 - k)" by simp
    then show ?thesis by (simp add: zdiv_zmult2_eq)
  qed
  then have m: "map (\<lambda>k. word_of_int (i div 256 ^ (n - k)) :: byte) [0..<n] =
      map (\<lambda>k. word_of_int (i div 256 div 256 ^ (n - 1 - k))) [0..<n]"
    by (intro map_cong) auto
  have "big_SetBytes (map (\<lambda>k. word_of_int (i div 256 ^ (Suc n - 1 - k))) [0..<Suc n]) =
      256 * big_SetBytes (map (\<lambda>k. word_of_int (i div 256 ^ (n - k))) [0..<n]) + i mod 256"
    by (simp add: big_SetBytes_snoc unsigned_of_int take_bit_eq_mod)
  also have "\<dots> = 256 * (i div 256 mod 256 ^ n) + i mod 256"
    by (simp only: m Suc.IH)
  also have "\<dots> = i mod 256 ^ Suc n" by (simp add: zmod_zmult2_eq)
  finally show ?case .
qed

lemma big_SetBytes_uint_bytes: "big_SetBytes (uint_bytes i) = i mod 2 ^ 256"
  using big_SetBytes_digits [of i 32] by (simp add: uint_bytes_def)

lemma length_uint_bytes [simp]: "length (uint_bytes i) = 32"
  by (simp add: uint_bytes_def)

lemma length_any_bytes [simp]: "length (any_bytes v) = 32"
  by (cases v) simp_all

lemma word_of_uint_mod: "LENGTH('a::len) \<le> 256 \<Longrightarrow> word_of_int (uint (x :: 'a word) mod 2 ^ 256) = x"
proof -
  assume l: "LENGTH('a) \<le> 256"
  have "uint x < 2 ^ LENGTH('a)" by (rule uint_lt2p)
  also have "\<dots> \<le> (2 :: int) ^ 256" using l by (intro power_increasing) auto
  finally show ?thesis by (simp add: mod_pos_pos_trivial)
qed

lemma arg_value_bytes: "fits t v \<Longrightarrow> arg_value t (any_bytes v) = v"
  by (cases "(t, v)" rule: fits.cases)
    (auto simp: big_SetBytes_uint_bytes word_of_uint_mod [where 'a = 160, simplified]
      word_of_uint_mod [where 'a = 64, simplified] word_of_uint_mod [where 'a = 8, simplified])

lemma args_values_bytes:
  "list_all2 fits (map arg_type ins) args \<Longrightarrow> args_values ins (concat (map any_bytes args)) = Ok args"
  by (induction ins arbitrary: args) (auto simp: list_all2_Cons1 arg_value_bytes)

lemma length_name_bytes [simp]: "length (name_bytes n) = 4"
  by (simp add: name_bytes_def)

lemma sample_keccak: "take 4 (Keccak256 sample_lib bs) = take 4 (bs @ replicate 32 0)"
proof -
  have "Keccak256 sample_lib bs = take 32 (bs @ replicate 32 0)" by (simp add: sample_lib_def)
  then show ?thesis by (simp only: take_take) simp
qed

lemma sample_name_selector:
  assumes "4 \<le> length (entry_name d)"
  shows "take 4 (Keccak256 sample_lib (text_bytes (sig_text d))) = name_bytes (entry_name d)"
  using assms by (simp add: sample_keccak sig_text_def name_bytes_def text_bytes_def take_map of_nat_of_char)

lemma sample_names:
  "name_bytes ''mint'' = [0x6D, 0x69, 0x6E, 0x74]" "name_bytes ''burn'' = [0x62, 0x75, 0x72, 0x6E]"
  "name_bytes ''transfer'' = [0x74, 0x72, 0x61, 0x6E]"
  "name_bytes ''modifyPolicyWhitelist'' = [0x6D, 0x6F, 0x64, 0x69]"
  by (simp_all add: name_bytes_def)

lemma sample_MethodById:
  "MethodById sample_lib a sl =
     (case find (\<lambda>e. case e of AbiFunction n _ _ _ \<Rightarrow> name_bytes n = sl | _ \<Rightarrow> False) a of
        Some e \<Rightarrow> Ok e | None \<Rightarrow> Err ''no method with id'')"
  by (simp add: sample_lib_def)

lemma sample_methods:
  assumes "d \<in> set decoderABI" and "is_function d"
  shows "MethodById sample_lib decoderABI (name_bytes (entry_name d)) = Ok d \<and> 4 \<le> length (entry_name d)"
proof -
  from assms consider "d = decoderABI ! 0" | "d = decoderABI ! 1" | "d = decoderABI ! 2" | "d = decoderABI ! 3"
    unfolding decoderABI_def by (simp, elim disjE; simp)
  then show ?thesis
    by cases (simp_all add: sample_MethodById decoderABI_def sample_names)
qed

lemma sample_calldata_ok: "calldata_ok sample_lib"
  unfolding calldata_ok_def
proof (intro allI impI, elim conjE)
  fix a m args data e d
  assume l: "abi_lookup a m = Some e" and d: "d \<in> set decoderABI" "is_function d" "entry_name d = m"
    and t: "map arg_type (inputs d) = map arg_type (inputs e)"
    and f: "list_all2 fits (map arg_type (inputs e)) args" and p: "Pack sample_lib a m args = Ok data"
  from l have "entry_name e = m" unfolding abi_lookup_def by (auto dest: find_SomeD)
  with d(3) t have sig: "sig_text e = sig_text d" by (simp add: sig_text_def flip: map_map)
  from l p list_all2_lengthD [OF f] have data: "data = name_bytes m @ concat (map any_bytes args)"
    by (simp add: sample_lib_def split: if_splits)
  from f t have "args_values (inputs d) (concat (map any_bytes args)) = Ok args"
    by (intro args_values_bytes) simp
  moreover have "ArgsUnpack sample_lib = args_values" by (simp add: sample_lib_def)
  ultimately show "4 \<le> length data \<and> take 4 data = take 4 (Keccak256 sample_lib (text_bytes (sig_text e))) \<and>
      MethodById sample_lib decoderABI (take 4 data) = Ok d \<and>
      ArgsUnpack sample_lib (inputs d) (drop 4 data) = Ok args"
    using sample_methods [OF d(1,2)] sample_name_selector [of d] d(3) by (simp add: data sig)
qed

lemma hex_bytes_inject: "hex_bytes xs = hex_bytes ys \<longleftrightarrow> xs = ys"
  using unhex_hex_bytes by (metis option.inject)

lemma sample_sel: "sel sample_lib t = ''0x'' @ hex_bytes (take 4 (text_bytes t @ replicate 32 0))"
proof -
  have "Bytes2Hex sample_lib = hex_bytes" by (simp add: sample_lib_def)
  then show ?thesis by (simp only: sel_def hex_selector_def sample_keccak)
qed

lemma sample_selectors_distinct: "selectors_distinct sample_lib"
  by (simp add: selectors_distinct_def sample_sel hex_bytes_inject text_bytes_def del: hex_bytes.simps)

theorem explorer_reads_the_writes_witness:
  "\<exists>data ps. Pack sample_lib TokenAuthority_abi ''mint'' [AAddress 0xA4AD, AAddress 5, ABigInt 1000000] = Ok data
     \<and> methodName sample_lib sample_webui data = ''mint''
     \<and> decodeInput sample_lib sample_webui data = Done (Some ps)
     \<and> map pm_Value ps = [AddressHex sample_lib 0xA4AD, AddressHex sample_lib 5, big_String 1000000]"
proof -
  let ?args = "[AAddress 0xA4AD, AAddress 5, ABigInt 1000000]"
  have l: "abi_lookup TokenAuthority_abi ''mint'' = Some (hd TokenAuthority_abi)"
    by (simp add: abi_lookup_def TokenAuthority_abi_def)
  obtain data where p: "Pack sample_lib TokenAuthority_abi ''mint'' ?args = Ok data"
    by (simp add: sample_lib_def l) (simp add: TokenAuthority_abi_def)
  have "(TokenAuthority_abi, ''mint'', ''mint'') \<in> set deposit_calls" by (simp add: deposit_calls_def)
  moreover have "list_all2 fits (map arg_type (inputs (hd TokenAuthority_abi))) ?args"
    by (simp add: TokenAuthority_abi_def)
  moreover have "ws_selectors sample_webui = selectors sample_lib" by (simp add: sample_webui_def)
  ultimately have "methodName sample_lib sample_webui data = ''mint''"
    and "\<exists>ps. decodeInput sample_lib sample_webui data = Done (Some ps) \<and>
        map pm_Value ps = map (any_text sample_lib) ?args"
    using explorer_reads_the_writes [OF sample_calldata_ok sample_selectors_distinct _ _ l _ p,
        of sample_webui "''mint''"] by blast+
  with p show ?thesis by simp
qed

section \<open>Events\<close>

text \<open>With a topic for every indexed argument and a value for every other one, each gets its own.\<close>

lemma event_params_values:
  assumes "length topics = ti + length (filter arg_indexed ins)"
    and "length vs = length (filter (\<lambda>i. \<not> arg_indexed i) ins)"
  shows "map pm_Name (event_params L s topics ins ti vs) = map arg_name ins \<and>
    map (pm_Value \<circ> snd) (filter (arg_indexed \<circ> fst) (zip ins (event_params L s topics ins ti vs))) =
      map2 (\<lambda>i t. any_text L (topicValue L (arg_type i) t)) (filter arg_indexed ins) (drop ti topics) \<and>
    map (pm_Value \<circ> snd) (filter (\<lambda>x. \<not> arg_indexed (fst x)) (zip ins (event_params L s topics ins ti vs))) =
      map (any_text L) vs"
  using assms
proof (induction ins arbitrary: ti vs)
  case (Cons i ins)
  show ?case
  proof (cases "arg_indexed i")
    case True
    with Cons.prems have "ti < length topics" by simp
    then have "drop ti topics = topics ! ti # drop (Suc ti) topics" by (simp add: Cons_nth_drop_Suc)
    with True Cons.prems Cons.IH [of "Suc ti" vs] show ?thesis by simp
  next
    case False
    with Cons.prems obtain v us where "vs = v # us" by (cases vs) auto
    with False Cons.prems Cons.IH [of ti us] show ?thesis by simp
  qed
qed simp

text \<open>
  C29. Events are decoded argument by argument: a log of a known event that carries one topic per
  indexed argument and unpackable data is shown with the event's name, the emitting contract's
  label and all its arguments in the declared order, the indexed ones from their own topics and
  the others from the data.
\<close>

theorem events_are_decoded:
  assumes "EventByID L decoderABI t0 = Ok ev" and "lg_Topics lg = t0 # ts"
    and "length ts = length (filter arg_indexed (inputs ev))"
    and "ArgsUnpack L (filter (\<lambda>i. \<not> arg_indexed i) (inputs ev)) (lg_Data lg) = Ok vs"
    and "length vs = length (filter (\<lambda>i. \<not> arg_indexed i) (inputs ev))"
  shows "\<exists>e. decode_log L s lg = Some e \<and> le_Event e = entry_name ev \<and>
           le_Address e = label L s (lg_Address lg) \<and> \<not> le_Raw e \<and>
           map pm_Name (le_Params e) = map arg_name (inputs ev) \<and>
           map (pm_Value \<circ> snd) (filter (arg_indexed \<circ> fst) (zip (inputs ev) (le_Params e))) =
             map2 (\<lambda>i t. any_text L (topicValue L (arg_type i) t)) (filter arg_indexed (inputs ev)) ts \<and>
           map (pm_Value \<circ> snd) (filter (\<lambda>x. \<not> arg_indexed (fst x)) (zip (inputs ev) (le_Params e))) =
             map (any_text L) vs"
proof -
  from assms(3) have "length (t0 # ts) = 1 + length (filter arg_indexed (inputs ev))" by simp
  from event_params_values [OF this assms(5), of L s] assms(1,2,4) show ?thesis
    by (simp add: decode_log_def Let_def)
qed

theorem events_are_decoded_witness:
  "\<exists>e. decode_log sample_lib sample_webui
         \<lparr>lg_Address = 0xA4AD,
          lg_Topics = [name_bytes ''Transfer'', uint_bytes 5, uint_bytes 9],
          lg_Data = uint_bytes 250000\<rparr> = Some e
     \<and> le_Event e = ''Transfer'' \<and> map pm_Name (le_Params e) = [''from'', ''to'', ''value'']"
proof -
  let ?lg = "\<lparr>lg_Address = 0xA4AD, lg_Topics = [name_bytes ''Transfer'', uint_bytes 5, uint_bytes 9],
          lg_Data = uint_bytes 250000\<rparr> :: log_rec"
  define ev where "ev = AbiEvent ''Transfer''
        [indexed_arg ''from'' AddressTy, indexed_arg ''to'' AddressTy, arg ''value'' (UintTy 256)]"
  have "EventByID sample_lib a topic =
      (case find (\<lambda>e. case e of AbiEvent n _ \<Rightarrow> name_bytes n = take 4 topic | _ \<Rightarrow> False) a of
          Some e \<Rightarrow> Ok e | None \<Rightarrow> Err ''no event with id'')" for a topic
    by (simp add: sample_lib_def)
  then have e: "EventByID sample_lib decoderABI (name_bytes ''Transfer'') = Ok ev"
    by (simp add: decoderABI_def ev_def)
  have "ArgsUnpack sample_lib = args_values" by (simp add: sample_lib_def)
  then have "ArgsUnpack sample_lib (filter (\<lambda>i. \<not> arg_indexed i) (inputs ev)) (lg_Data ?lg) = Ok [ABigInt 250000]"
    by (simp add: ev_def big_SetBytes_uint_bytes)
  from events_are_decoded [OF e _ _ this, of "[uint_bytes 5, uint_bytes 9]" sample_webui]
  show ?thesis by (auto simp: ev_def)
qed

section \<open>Labels and forwarding\<close>

definition known_addresses :: "('sk, 'stx) lib \<Rightarrow> webui \<Rightarrow> address list" where
  "known_addresses L s =
     [bank_Address (BankA L (ws_env s)), bank_Address (BankB L (ws_env s)), Merchant L,
      dep_DepositToken (ws_dep s), dep_TokenAuthority (ws_dep s), dep_ReserveLedger (ws_dep s),
      dep_AuthRegistry (ws_dep s), dep_TokenHandler (ws_dep s)]"

definition known_names :: "string list" where
  "known_names = [''Bank A'', ''Bank B'', ''Merchant'', ''DepositToken'', ''TokenAuthority'',
     ''ReserveLedger'', ''AuthRegistry'', ''TokenHandler'']"

lemma label_known:
  "label L s a = (case map_of (zip (known_addresses L s) known_names) a of Some n \<Rightarrow> n | None \<Rightarrow> AddressHex L a)"
  by (auto simp: label_def known_addresses_def known_names_def)

lemma known_names_text: "distinct known_names" "\<forall>n \<in> set known_names. take 2 n \<noteq> ''0x''"
  by (simp_all add: known_names_def)

lemma map_of_zip_inject:
  assumes "distinct ys" and "length xs = length ys" and "distinct xs"
    and "map_of (zip xs ys) a = Some n" and "map_of (zip xs ys) b = Some n"
  shows "a = b"
proof -
  from assms(4,5) obtain i j where "i < length ys" "ys ! i = n" "xs ! i = a" "j < length ys" "ys ! j = n" "xs ! j = b"
    using assms(2) by (metis map_of_SomeD in_set_zip prod.sel)
  with assms(1) show ?thesis by (metis nth_eq_iff_index_eq)
qed

text \<open>
  A label identifies an address: when the eight known addresses are distinct, two addresses
  with the same label are the same, whether the label is a friendly name or the hex text.
\<close>

lemma label_identifies_addresses:
  assumes "address_hex_ok L" and "\<forall>a. take 2 (AddressHex L a) = ''0x''"
    and "distinct (known_addresses L s)" and "label L s a = label L s b"
  shows "a = b"
proof -
  let ?m = "map_of (zip (known_addresses L s) known_names)"
  have names: "?m c = Some n \<Longrightarrow> take 2 n \<noteq> ''0x''" for c n
    using known_names_text(2) by (metis map_of_SomeD set_zip_rightD)
  have len: "length (known_addresses L s) = length known_names"
    by (simp add: known_addresses_def known_names_def)
  show ?thesis
  proof (cases "?m a"; cases "?m b")
    assume "?m a = None" "?m b = None"
    with assms(4) have "AddressHex L a = AddressHex L b" by (simp add: label_known)
    then show ?thesis using address_hex_round [OF assms(1)] by metis
  next
    fix n assume "?m a = None" "?m b = Some n"
    with assms(2,4) names show ?thesis by (metis label_known option.simps(4,5))
  next
    fix n assume "?m a = Some n" "?m b = None"
    with assms(2,4) names show ?thesis by (metis label_known option.simps(4,5))
  next
    fix n k assume "?m a = Some n" "?m b = Some k"
    moreover with assms(4) have "n = k" by (simp add: label_known)
    ultimately show ?thesis
      using map_of_zip_inject [OF known_names_text(1) len assms(3)] by simp
  qed
qed

lemma sample_labels_identify:
  "\<forall>a. label sample_lib sample_webui a = label sample_lib sample_webui 0x3C44CdDdB6a900fa2b585dd299e03d12FA4293BC
     \<longleftrightarrow> a = 0x3C44CdDdB6a900fa2b585dd299e03d12FA4293BC"
proof -
  have "\<forall>a. take 2 (AddressHex sample_lib a) = ''0x''"
    by (simp add: sample_lib_def sample_AddressHex_def)
  moreover have "distinct (known_addresses sample_lib sample_webui)"
    by (simp add: known_addresses_def sample_addresses sample_webui_def sample_dep_def)
  ultimately show ?thesis
    using label_identifies_addresses [OF sample_address_hex_ok] by blast
qed

text \<open>The routes that forward, with the URL each forwards to.\<close>

definition forward_routes :: "('sk, 'stx) lib \<Rightarrow> env \<Rightarrow> (string \<times> string) list" where
  "forward_routes L env =
     [(''/api/authorize'', bank_DepositSvcURL (BankA L env) @ ''/authorize''),
      (''/api/mint'', bank_DepositSvcURL (BankA L env) @ ''/mint''),
      (''/api/transfer'', bank_DepositSvcURL (BankB L env) @ ''/transfer'')]"

text \<open>
  Forwarding is transparent: a POST to /api/authorize, /api/mint or /api/transfer is answered
  with exactly the status and body the bank's deposit service gave to the same body, and with
  502 when the service cannot be reached, if the service's URL parses and its status is a valid one.
\<close>

lemma proxy_is_transparent:
  assumes "rq_method r = ''POST''" and "(rq_path r, url) \<in> set (forward_routes L (ws_env s))"
    and "HttpDo N \<lparr>hq_method = ''POST'', hq_url = url, hq_body = rq_body r\<rparr> (w_env w) = (res, e')"
    and "url_parses url" and "\<forall>resp. res = Ok resp \<longrightarrow> valid_code (rs_status resp)"
  shows "fst (webui_Handler L N static s r w) =
           Done (case res of Ok resp \<Rightarrow> resp | Err e \<Rightarrow> writeErr 502 e)"
proof -
  from assms(2) obtain base path where u: "url = base @ path"
    and h: "webui_Handler L N static s r w = proxy N base path r w"
    using assms(1) by (auto simp: forward_routes_def webui_routes)
  from assms(3-5) show ?thesis
    by (cases res) (simp_all add: h u proxy_outcome forwarded_def)
qed

end
