(* ===== verification/Demo_Properties.thy ===== *)
theory Demo_Properties
  imports Demo Deposit_Server Webui_Properties
begin

text \<open>
  The properties of the orchestrator: how long it waits, what it asks the services to do and in
  which order, when it goes on, and what its checks mean. \<open>io_spec m Q\<close> says that every run of
  \<open>m\<close> appends events \<open>es\<close> and returns \<open>r\<close> with \<open>Q r es\<close>.
\<close>

section \<open>A logic of traces\<close>

definition io_spec :: "('e, 'stx, 'a) io \<Rightarrow> ('a \<Rightarrow> 'stx event list \<Rightarrow> bool) \<Rightarrow> bool" where
  "io_spec m Q \<longleftrightarrow> (\<forall>w r w'. run_state m w = (r, w') \<longrightarrow> (\<exists>es. emits w w' es \<and> Q r es))"

lemma io_specI:
  "(\<And>w r w'. run_state m w = (r, w') \<Longrightarrow> \<exists>es. emits w w' es \<and> Q r es) \<Longrightarrow> io_spec m Q"
  by (simp add: io_spec_def)

lemma io_specD: "io_spec m Q \<Longrightarrow> run_state m w = (r, w') \<Longrightarrow> \<exists>es. emits w w' es \<and> Q r es"
  by (simp add: io_spec_def)

lemma io_return: "Q r [] \<Longrightarrow> io_spec (State_Monad.return r) Q"
  by (rule io_specI) auto

lemma io_act: "(\<And>r. Q r [ev]) \<Longrightarrow> io_spec (act ev f) Q"
  by (rule io_specI) (auto simp: act_def dest: net_call_emits)

lemma io_bind:
  assumes "io_spec m P" and "\<And>r es. P r es \<Longrightarrow> io_spec (f r) (\<lambda>r' fs. Q r' (es @ fs))"
  shows "io_spec (State_Monad.bind m f) Q"
proof (rule io_specI)
  fix w r w' assume "run_state (State_Monad.bind m f) w = (r, w')"
  then obtain x v where m: "run_state m w = (x, v)" and f: "run_state (f x) v = (r, w')"
    by (auto split: prod.splits)
  from io_specD [OF assms(1) m] obtain es where es: "emits w v es" "P x es" by blast
  from io_specD [OF assms(2) [OF es(2)] f] obtain fs where "emits v w' fs" "Q r (es @ fs)" by blast
  with emits_trans [OF es(1)] show "\<exists>es. emits w w' es \<and> Q r es" by blast
qed

lemma io_proceed:
  assumes "io_spec m P" and "\<And>x es. P (Done x) es \<Longrightarrow> io_spec (f x) (\<lambda>r' fs. Q r' (es @ fs))"
    and "\<And>es. P Panic es \<Longrightarrow> Q Panic es"
  shows "io_spec (proceed m f) Q"
  unfolding proceed_def
proof (rule io_bind [OF assms(1)], goal_cases)
  case (1 r es)
  with assms(2,3) show ?case by (cases r) (auto intro: io_return)
qed

lemma io_conseq: "io_spec m P \<Longrightarrow> (\<And>r es. P r es \<Longrightarrow> Q r es) \<Longrightarrow> io_spec m Q"
  unfolding io_spec_def by blast

section \<open>The writes of a run\<close>

definition posts :: "'stx event list \<Rightarrow> http_req list" where
  "posts es = filter (\<lambda>q. hq_method q = ''POST'') (http_sent es)"

lemma posts_simps [simp]:
  "posts [] = []" "posts (es @ fs) = posts es @ posts fs"
  "posts [EPrint t] = []" "posts [ESleep n] = []" "posts [ESpawn p vs] = []" "posts [EKill p] = []"
  "posts [EHttp q] = (if hq_method q = ''POST'' then [q] else [])"
  by (simp_all add: posts_def)

text \<open>A step that posts nothing.\<close>

abbreviation quiet :: "('e, 'stx, 'a) io \<Rightarrow> bool" where
  "quiet m \<equiv> io_spec m (\<lambda>_ es. posts es = [])"

lemma quiet_bind: "quiet m \<Longrightarrow> (\<And>x. quiet (f x)) \<Longrightarrow> quiet (State_Monad.bind m f)"
  by (rule io_bind [where P = "\<lambda>_ es. posts es = []"]) simp_all

lemma quiet_return [simp]: "quiet (State_Monad.return x)"
  by (rule io_return) simp

lemma quiet_printf [simp]: "quiet (printf t)"
  unfolding printf_def by (rule io_act) simp

lemma quiet_sleep [simp]: "quiet (sleep H n)"
  unfolding sleep_def by (rule io_act) simp

text \<open>
  A step that posts nothing and panics only if \<open>ok\<close>, which says that the URLs of the run parse,
  is false.
\<close>

definition calm :: "bool \<Rightarrow> ('e, 'stx, 'a outcome) io \<Rightarrow> bool" where
  "calm ok m \<longleftrightarrow> io_spec m (\<lambda>r es. posts es = [] \<and> (r = Panic \<longrightarrow> \<not> ok))"

lemma calm_return [simp]: "calm ok (State_Monad.return (Done x))"
  unfolding calm_def by (rule io_return) simp

lemma calm_proceed: "calm ok m \<Longrightarrow> (\<And>x. calm ok (f x)) \<Longrightarrow> calm ok (proceed m f)"
  unfolding calm_def by (rule io_proceed [where P = "\<lambda>r es. posts es = [] \<and> (r = Panic \<longrightarrow> \<not> ok)"]) simp_all

lemma calm_then: "quiet m \<Longrightarrow> (\<And>x. calm ok (f x)) \<Longrightarrow> calm ok (State_Monad.bind m f)"
  unfolding calm_def by (rule io_bind [where P = "\<lambda>_ es. posts es = []"]) simp_all

lemma http_do_spec:
  "io_spec (http_do N q) (\<lambda>r es. (r = Panic \<longleftrightarrow> \<not> url_parses (hq_url q)) \<and> es = (if r = Panic then [] else [EHttp q]))"
  by (rule io_specI) (auto simp: http_do_def http_call_def split: prod.splits if_splits dest: net_call_emits)

lemma calm_get: "hq_method q \<noteq> ''POST'' \<Longrightarrow> (ok \<longrightarrow> url_parses (hq_url q)) \<Longrightarrow> calm ok (http_do N q)"
  unfolding calm_def by (rule io_conseq [OF http_do_spec]) auto

text \<open>A post happens, or its URL does not parse and nothing does.\<close>

definition posting :: "bool \<Rightarrow> ('e, 'stx, 'a outcome) io \<Rightarrow> http_req list \<Rightarrow> bool" where
  "posting ok m qs \<longleftrightarrow> io_spec m (\<lambda>r es. if r = Panic then posts es = [] \<and> \<not> ok else posts es = qs)"

lemma http_do_posts:
  "hq_method q = ''POST'' \<Longrightarrow> (ok \<longrightarrow> url_parses (hq_url q)) \<Longrightarrow> posting ok (http_do N q) [q]"
  unfolding posting_def by (rule io_conseq [OF http_do_spec]) auto

lemma calm_getJSON: "(ok \<longrightarrow> url_parses url) \<Longrightarrow> calm ok (getJSON L N url out)"
  unfolding getJSON_def by (intro calm_proceed calm_get) simp_all

lemma calm_wait_loop: "(ok \<longrightarrow> url_parses (base @ ''/health'')) \<Longrightarrow> calm ok (wait_loop N H base n)"
  by (induction n) (auto intro!: calm_proceed calm_get calm_then)

lemma calm_waitHealthy: "(ok \<longrightarrow> url_parses (base @ ''/health'')) \<Longrightarrow> calm ok (waitHealthy N H base)"
  unfolding waitHealthy_def by (rule calm_wait_loop)

lemma calm_wait_all: "(ok \<longrightarrow> (\<forall>u \<in> set us. url_parses (u @ ''/health''))) \<Longrightarrow> calm ok (wait_all N H us)"
  by (induction us) (auto intro!: calm_proceed calm_waitHealthy split: option.split)

lemma quiet_print_txs [simp]: "quiet (print_txs c ts)"
  by (induction ts) (auto intro!: quiet_bind simp: print_tx_def)

text \<open>The URLs a run of the demo asks for, and that all of them parse.\<close>

definition demo_urls :: "('sk, 'stx) lib \<Rightarrow> env \<Rightarrow> string list" where
  "demo_urls L env =
     map (\<lambda>u. u @ ''/health'') (service_urls L env) @
     [bank_DepositSvcURL (BankA L env) @ ''/info'',
      bank_DepositSvcURL (BankA L env) @ ''/balance?account='' @ bankB_hex L env,
      bank_DepositSvcURL (BankA L env) @ ''/balance?account='' @ merchant_hex L,
      bank_DepositSvcURL (BankA L env) @ ''/authorize'', bank_DepositSvcURL (BankA L env) @ ''/mint'',
      bank_DepositSvcURL (BankB L env) @ ''/transfer'', bank_DepositSvcURL (BankB L env) @ ''/mint'',
      bank_SigningRouterURL (BankA L env) @ ''/sign'']"

definition demo_urls_parse :: "('sk, 'stx) lib \<Rightarrow> env \<Rightarrow> bool" where
  "demo_urls_parse L env \<longleftrightarrow> list_all url_parses (demo_urls L env)"

lemma demo_urls_parseD:
  assumes "demo_urls_parse L env"
  shows "u \<in> set (service_urls L env) \<Longrightarrow> url_parses (u @ ''/health'')"
    and "url_parses (bank_DepositSvcURL (BankA L env) @ ''/info'')"
    and "a = bankB_hex L env \<or> a = merchant_hex L \<Longrightarrow> url_parses (bank_DepositSvcURL (BankA L env) @ ''/balance?account='' @ a)"
    and "url_parses (bank_DepositSvcURL (BankA L env) @ ''/authorize'')"
    and "url_parses (bank_DepositSvcURL (BankA L env) @ ''/mint'')"
    and "url_parses (bank_DepositSvcURL (BankB L env) @ ''/transfer'')"
    and "url_parses (bank_DepositSvcURL (BankB L env) @ ''/mint'')"
    and "url_parses (bank_SigningRouterURL (BankA L env) @ ''/sign'')"
  using assms by (auto simp: demo_urls_parse_def demo_urls_def list_all_iff)

lemma calm_balanceOf:
  "a = bankB_hex L env \<or> a = merchant_hex L \<Longrightarrow> calm (demo_urls_parse L env) (demo_balanceOf L N env a)"
  unfolding demo_balanceOf_def Let_def by (intro calm_proceed calm_getJSON calm_return impI demo_urls_parseD(3))

lemma calm_showBalances: "calm (demo_urls_parse L env) (showBalances L N env t)"
  unfolding showBalances_def Let_def
  by (intro calm_proceed calm_then calm_balanceOf calm_getJSON calm_return quiet_printf)
    (simp_all add: demo_urls_parseD)

lemma quiet_print_token [simp]: "quiet (print_token i)"
  by (simp add: print_token_def Let_def)

lemma quiet_spawn: "quiet (spawn H dir bin vars)"
  unfolding spawn_def
  by (rule quiet_bind, rule io_act, simp) (auto split: res.split intro!: quiet_bind)

lemma quiet_spawn_services [simp]: "quiet (spawn_services L H env dir)"
  unfolding spawn_services_def Let_def by (intro quiet_bind quiet_spawn) simp_all

lemma quiet_kill_all [simp]: "quiet (kill_all H ps)"
proof (induction ps)
  case (Cons p ps)
  then show ?case
    by (cases p) (auto intro!: quiet_bind io_act)
qed simp

lemma quiet_print_banner [simp]: "quiet (print_banner L dep)"
  unfolding print_banner_def by (intro quiet_bind) simp_all

lemma io_quiet_bind:
  "quiet m \<Longrightarrow> (\<And>x. io_spec (f x) (\<lambda>r es. Q r (posts es))) \<Longrightarrow>
     io_spec (State_Monad.bind m f) (\<lambda>r es. Q r (posts es))"
  by (erule io_bind) simp

lemma io_calm_proceed:
  assumes "calm ok m" and "\<And>x. io_spec (f x) (\<lambda>r es. Q r (posts es))" and "\<not> ok \<Longrightarrow> Q Panic []"
  shows "io_spec (proceed m f) (\<lambda>r es. Q r (posts es))"
  by (rule io_proceed [OF assms(1) [unfolded calm_def]]) (use assms(2,3) in auto)

lemma io_posting_proceed:
  assumes "posting ok m qs" and "\<And>x. io_spec (f x) (\<lambda>r es. Q r (qs @ posts es))" and "\<not> ok \<Longrightarrow> Q Panic []"
  shows "io_spec (proceed m f) (\<lambda>r es. Q r (posts es))"
  by (rule io_proceed [OF assms(1) [unfolded posting_def]]) (use assms(2,3) in auto)

lemma posting_proceed:
  assumes "posting ok m qs" and "\<And>x. io_spec (f x) (\<lambda>r es. r \<noteq> Panic \<and> posts es = [])"
  shows "posting ok (proceed m f) qs"
  unfolding posting_def
proof (rule io_proceed [OF assms(1) [unfolded posting_def]], goal_cases)
  case (1 x es)
  then show ?case by (intro io_conseq [OF assms(2)]) auto
qed auto

definition post_req :: "string \<Rightarrow> json \<Rightarrow> http_req" where
  "post_req url b = \<lparr>hq_method = ''POST'', hq_url = url, hq_body = Json b\<rparr>"

lemma postJSON_posts: "(ok \<longrightarrow> url_parses url) \<Longrightarrow> posting ok (postJSON L N url b out) [post_req url b]"
  unfolding postJSON_def post_req_def
  by (intro posting_proceed http_do_posts io_return) simp_all

definition to_amount_json :: "string \<Rightarrow> string \<Rightarrow> json" where
  "to_amount_json to amount = jmap [(''to'', JStr to), (''amount'', JStr amount)]"

definition authorize_req :: "('sk, 'stx) lib \<Rightarrow> env \<Rightarrow> string \<Rightarrow> http_req" where
  "authorize_req L env addr =
     post_req (bank_DepositSvcURL (BankA L env) @ ''/authorize'') (jmap [(''account'', JStr addr)])"

text \<open>The posts of a complete run: the four writes of the scenario and the two checks.\<close>

definition demo_plan :: "('sk, 'stx) lib \<Rightarrow> env \<Rightarrow> http_req list" where
  "demo_plan L env =
     [authorize_req L env (bankB_hex L env),
      authorize_req L env (merchant_hex L),
      post_req (bank_DepositSvcURL (BankA L env) @ ''/mint'')
        (to_amount_json (bankB_hex L env) (big_String (1000000 * 1000000))),
      post_req (bank_DepositSvcURL (BankB L env) @ ''/transfer'')
        (to_amount_json (merchant_hex L) (big_String (250000 * 1000000))),
      post_req (bank_DepositSvcURL (BankB L env) @ ''/mint'') (to_amount_json (bankB_hex L env) ''1''),
      wrong_key_req L env]"

text \<open>
  How a run that has posted the first \<open>k\<close> requests of the plan may go on: to the end, to an error
  before the two probes, or, if \<open>ok\<close> is false, to a panic anywhere.
\<close>

definition ends :: "bool \<Rightarrow> http_req list \<Rightarrow> nat \<Rightarrow> error option outcome \<Rightarrow> http_req list \<Rightarrow> bool" where
  "ends ok plan k r ps \<longleftrightarrow>
     (r = Done None \<and> ps = drop k plan) \<or>
     (\<exists>e. r = Done (Some e)) \<and> prefix ps (take (4 - k) (drop k plan)) \<or>
     r = Panic \<and> \<not> ok \<and> prefix ps (drop k plan)"

lemma ends_stop [simp]:
  "ends ok plan k (Done (Some e)) []" "ends ok plan k Panic [] \<longleftrightarrow> \<not> ok"
  by (simp_all add: ends_def)

lemma io_guard:
  "io_spec k (\<lambda>r es. Q r (posts es)) \<Longrightarrow> (\<And>x. Q (Done (Some x)) []) \<Longrightarrow>
     io_spec (guard_ok e k) (\<lambda>r es. Q r (posts es))"
  by (cases e) (auto simp: guard_ok_def intro: io_return)

lemma ends_step:
  "ends ok plan (Suc k) r ps \<Longrightarrow> k < 4 \<Longrightarrow> 4 \<le> length plan \<Longrightarrow> ends ok plan k r (plan ! k # ps)"
proof -
  assume e: "ends ok plan (Suc k) r ps" and k: "k < 4" and l: "4 \<le> length plan"
  from k l have d: "drop k plan = plan ! k # drop (Suc k) plan" by (simp add: Cons_nth_drop_Suc)
  from k have "4 - k = Suc (4 - Suc k)" by simp
  with e d show ?thesis by (auto simp: ends_def)
qed

text \<open>A write and what follows it.\<close>

lemma ends_write:
  assumes "io_spec rest (\<lambda>r es. ends ok plan (Suc k) r (posts es))" and "k < 4" and "4 \<le> length plan"
  shows "io_spec rest (\<lambda>r es. ends ok plan k r ([plan ! k] @ posts es))"
  by (rule io_conseq [OF assms(1)]) (simp add: ends_step [OF _ assms(2,3)])

lemma ends_failed: "k < 4 \<Longrightarrow> 4 \<le> length plan \<Longrightarrow> ends ok plan k (Done (Some x)) [plan ! k]"
  using ends_step [of ok plan k "Done (Some x)" "[]"] by simp

lemma write_step_posts:
  "(ok \<longrightarrow> url_parses url) \<Longrightarrow> posting ok (write_step L N url to amount c) [post_req url (to_amount_json to amount)]"
  unfolding write_step_def to_amount_json_def [symmetric]
proof (intro posting_proceed postJSON_posts, assumption)
  fix p :: "dval \<times> error option"
  show "io_spec (case snd p of Some e \<Rightarrow> State_Monad.return (Done (Some e))
      | None \<Rightarrow> State_Monad.bind (print_tx c (demo_tx_of (fst p))) (\<lambda>_. State_Monad.return (Done None)))
      (\<lambda>r es. r \<noteq> Panic \<and> posts es = [])"
    by (cases "snd p") (auto simp: print_tx_def intro!: io_return io_bind [OF quiet_printf])
qed

lemma io_write_then:
  assumes "post_req url (to_amount_json to amount) = plan ! k" and "k < 4" and "4 \<le> length plan"
    and "ok \<longrightarrow> url_parses url" and "io_spec rest (\<lambda>r es. ends ok plan (Suc k) r (posts es))"
  shows "io_spec (proceed (write_step L N url to amount c) (\<lambda>e. guard_ok e rest))
           (\<lambda>r es. ends ok plan k r (posts es))"
proof (rule io_posting_proceed [OF write_step_posts [OF assms(4)]], unfold assms(1))
  fix e
  show "io_spec (guard_ok e rest) (\<lambda>r es. ends ok plan k r ([plan ! k] @ posts es))"
    using ends_write [OF assms(5,2,3)] ends_failed [OF assms(2,3)]
    by (intro io_guard [where Q = "\<lambda>r ps. ends ok plan k r ([plan ! k] @ ps)"]) auto
qed simp

lemma bind_return [simp]: "State_Monad.bind (State_Monad.return x) f = f x"
  by (cases "f x") (simp add: State_Monad.bind_def State_Monad.return_def)

lemma proceed_bind: "proceed (State_Monad.bind m f) g = State_Monad.bind m (\<lambda>x. proceed (f x) g)"
  by (simp add: proceed_def)

lemma proceed_Done [simp]: "proceed (State_Monad.return (Done x)) f = f x"
  by (simp add: proceed_def)

lemma proceed_Panic [simp]: "proceed (State_Monad.return Panic) f = State_Monad.return Panic"
  by (simp add: proceed_def)

lemma proceed_assoc: "proceed (proceed m f) g = proceed m (\<lambda>x. proceed (f x) g)"
proof -
  have "(\<lambda>r. proceed (case r of Panic \<Rightarrow> State_Monad.return Panic | Done x \<Rightarrow> f x) g) =
      (\<lambda>r. case r of Panic \<Rightarrow> State_Monad.return Panic | Done x \<Rightarrow> proceed (f x) g)"
    by (auto simp: fun_eq_iff split: outcome.split)
  then show ?thesis by (simp add: proceed_def [of m] proceed_bind)
qed

text \<open>Onboarding the targets that the plan has from \<open>k\<close> on.\<close>

lemma onboard_then:
  assumes "ok \<longrightarrow> url_parses (bank_DepositSvcURL (BankA L env) @ ''/authorize'')" and "4 \<le> length plan"
    and "k + length ts \<le> 4" and "\<forall>i < length ts. plan ! (k + i) = authorize_req L env (snd (ts ! i))"
    and "io_spec rest (\<lambda>r es. ends ok plan (k + length ts) r (posts es))"
  shows "io_spec (proceed (onboard_loop L N env ts) (\<lambda>e. guard_ok e rest)) (\<lambda>r es. ends ok plan k r (posts es))"
  using assms(3-5)
proof (induction ts arbitrary: k)
  case Nil
  then show ?case by (simp add: proceed_def guard_ok_def)
next
  case (Cons t ts)
  obtain who addr where t: "t = (who, addr)" by (cases t)
  have k: "k < 4" using Cons.prems(1) by simp
  have req: "post_req (bank_DepositSvcURL (BankA L env) @ ''/authorize'') (jmap [(''account'', JStr addr)]) = plan ! k"
    using Cons.prems(2) by (auto simp: t authorize_req_def dest: spec [of _ 0])
  have "\<forall>i < length ts. plan ! (Suc k + i) = authorize_req L env (snd (ts ! i))"
    using Cons.prems(2) by (auto dest: spec [of _ "Suc _"])
  with Cons.prems have later: "io_spec (proceed (onboard_loop L N env ts) (\<lambda>e. guard_ok e rest))
      (\<lambda>r es. ends ok plan (Suc k) r (posts es))"
    by (intro Cons.IH) simp_all
  have run: "proceed (onboard_loop L N env (t # ts)) (\<lambda>e. guard_ok e rest) =
      proceed (postJSON L N (bank_DepositSvcURL (BankA L env) @ ''/authorize'') (jmap [(''account'', JStr addr)]) (SSlice txResult))
        (\<lambda>p. case snd p of
           Some e \<Rightarrow> State_Monad.return (Done (Some e))
         | None \<Rightarrow> State_Monad.bind (printf (dim @ ''    onboarded '' @ who @ reset @ nl)) (\<lambda>_.
             State_Monad.bind (print_txs amber (map demo_tx_of (slice_elems (fst p)))) (\<lambda>_.
               proceed (onboard_loop L N env ts) (\<lambda>e. guard_ok e rest))))"
    unfolding t onboard_loop.simps proceed_assoc
    by (rule arg_cong [of _ _ "proceed _"]) (auto simp: fun_eq_iff guard_ok_def proceed_bind split: option.split)
  show ?case unfolding run
  proof (rule io_posting_proceed [OF postJSON_posts [OF assms(1)]], unfold req)
    fix p :: "dval \<times> error option"
    show "io_spec (case snd p of
           Some e \<Rightarrow> State_Monad.return (Done (Some e))
         | None \<Rightarrow> State_Monad.bind (printf (dim @ ''    onboarded '' @ who @ reset @ nl)) (\<lambda>_.
             State_Monad.bind (print_txs amber (map demo_tx_of (slice_elems (fst p)))) (\<lambda>_.
               proceed (onboard_loop L N env ts) (\<lambda>e. guard_ok e rest))))
        (\<lambda>r es. ends ok plan k r ([plan ! k] @ posts es))"
    proof (cases "snd p")
      case None
      show ?thesis unfolding None option.case
        by (intro io_quiet_bind [where Q = "\<lambda>r ps. ends ok plan k r ([plan ! k] @ ps)"] quiet_printf quiet_print_txs
            ends_write later k assms(2))
    next
      case (Some e)
      show ?thesis unfolding Some option.case
        by (rule io_return) (simp add: ends_failed k assms(2))
    qed
  qed simp
qed

lemma length_demo_plan [simp]: "length (demo_plan L env) = 6"
  by (simp add: demo_plan_def)

lemma wfusd_literals:
  "wfusd ''1000000'' = Done (big_String (1000000 * 1000000))"
  "wfusd ''250000'' = Done (big_String (250000 * 1000000))"
  by (simp_all add: wfusd_def big_SetString_def parse_digits_def is_digit_def digit_val_def del: One_nat_def)

text \<open>The last step: its posts, all of them unless it panics.\<close>

definition stops :: "bool \<Rightarrow> ('e, 'stx, 'a outcome) io \<Rightarrow> http_req list \<Rightarrow> bool" where
  "stops ok m qs \<longleftrightarrow> io_spec m (\<lambda>r es. if r = Panic then \<not> ok \<and> prefix (posts es) qs else posts es = qs)"

lemma stops_return: "stops ok (State_Monad.return (Done x)) []"
  unfolding stops_def by (rule io_return) simp

lemma stops_then: "quiet m \<Longrightarrow> (\<And>x. stops ok (f x) qs) \<Longrightarrow> stops ok (State_Monad.bind m f) qs"
  unfolding stops_def
  by (rule io_quiet_bind [where Q = "\<lambda>r ps. if r = Panic then \<not> ok \<and> prefix ps qs else ps = qs"])

lemma stops_post: "posting ok m [q] \<Longrightarrow> (\<And>x. stops ok (f x) qs) \<Longrightarrow> stops ok (proceed m f) (q # qs)"
  unfolding stops_def
proof (rule io_posting_proceed [where Q = "\<lambda>r ps. if r = Panic then \<not> ok \<and> prefix ps (q # qs) else ps = q # qs"], assumption, goal_cases)
  case (1 x)
  show ?case by (rule io_conseq [OF 1(2)]) (auto split: if_splits)
qed simp

lemma sign_check_posts:
  "posting (demo_urls_parse L env) (signWithWrongKey L N env) [wrong_key_req L env]"
  unfolding signWithWrongKey_def
  by (intro posting_proceed http_do_posts io_return) (simp_all add: wrong_key_req_def demo_urls_parseD)

lemma checks_stop:
  "stops (demo_urls_parse L env) (checks L N env a b)
     [post_req (bank_DepositSvcURL (BankB L env) @ ''/mint'') (to_amount_json (bankB_hex L env) ''1''), wrong_key_req L env]"
  unfolding checks_def to_amount_json_def [symmetric]
  by (intro stops_then stops_post stops_return quiet_printf postJSON_posts sign_check_posts) (simp add: demo_urls_parseD)

lemma checks_end:
  "io_spec (proceed (checks L N env a b) (\<lambda>_. State_Monad.return (Done None)))
     (\<lambda>r es. ends (demo_urls_parse L env) (demo_plan L env) 4 r (posts es))"
  by (rule io_proceed [OF checks_stop [unfolded stops_def]]) (auto intro!: io_return simp: ends_def demo_plan_def)

lemma scenario_ends:
  "io_spec (scenario L N H env) (\<lambda>r es. ends (demo_urls_parse L env) (demo_plan L env) 0 r (posts es))"
proof -
  let ?ok = "demo_urls_parse L env" and ?plan = "demo_plan L env"
  have "post_req (bank_DepositSvcURL (BankB L env) @ ''/transfer'')
      (to_amount_json (merchant_hex L) (big_String (250000 * 1000000))) = ?plan ! Suc 2"
    by (simp add: demo_plan_def)
  note transfer = io_write_then [OF this, where ok = ?ok]
  have "post_req (bank_DepositSvcURL (BankA L env) @ ''/mint'')
      (to_amount_json (bankB_hex L env) (big_String (1000000 * 1000000))) = ?plan ! 2"
    by (simp add: demo_plan_def)
  note mint = io_write_then [OF this, where ok = ?ok]
  have targets: "length (onboard_targets L env) = 2"
    "\<forall>i < length (onboard_targets L env). ?plan ! (0 + i) = authorize_req L env (snd (onboard_targets L env ! i))"
    by (auto simp: onboard_targets_def demo_plan_def less_Suc_eq numeral_2_eq_2)
  have onboard: "io_spec (proceed (onboard_loop L N env (onboard_targets L env)) (\<lambda>e. guard_ok e rest)) (\<lambda>r es. ends ?ok ?plan 0 r (posts es))"
    if "io_spec rest (\<lambda>r es. ends ?ok ?plan 2 r (posts es))" for rest
    by (rule onboard_then [where k = 0, OF _ _ _ targets(2), unfolded add_0 targets(1)])
      (simp_all add: demo_urls_parseD that)
  have four: "Suc (Suc 2) = 4" by simp
  show ?thesis
    unfolding scenario_def wfusd_literals proceed_Done
    by (intro checks_end [folded four] onboard transfer mint io_calm_proceed [OF calm_wait_all] io_calm_proceed [OF calm_getJSON]
        io_calm_proceed [OF calm_showBalances] io_quiet_bind io_guard quiet_sleep quiet_print_token quiet_printf)
      (simp_all add: demo_urls_parseD)
qed

lemma demo_Run_ends: "io_spec (demo_Run L N H env load) (\<lambda>r es. ends (demo_urls_parse L env) (demo_plan L env) 0 r (posts es))"
proof (cases load)
  case (Err e)
  then show ?thesis by (simp add: demo_Run_def io_return)
next
  case (Ok dep)
  have kill: "io_spec (State_Monad.bind (scenario L N H env)
        (\<lambda>r. State_Monad.bind (kill_all H ps) (\<lambda>_. State_Monad.return r)))
      (\<lambda>r es. ends (demo_urls_parse L env) (demo_plan L env) 0 r (posts es))" for ps
    by (rule io_bind [OF scenario_ends], rule io_bind [OF quiet_kill_all], rule io_return) simp
  show ?thesis unfolding demo_Run_def Ok res.case
    by (intro io_quiet_bind quiet_print_banner)
      (auto split: res.split intro!: io_return io_quiet_bind kill scenario_ends)
qed

section \<open>Properties\<close>

text \<open>
  C15. What a demo run does, whatever the services answer: its posts are a prefix of one fixed
  sequence, onboard Bank B, onboard the merchant, mint a million tokens to Bank B at Bank A,
  transfer a quarter of a million to the merchant at Bank B, and then the two isolation probes.
  It reports success only after all six, and when it reports an error it has posted at most the
  four writes. It panics only if a URL it asks for does not parse, and then the posts already made
  are still a prefix of the sequence.
\<close>

theorem demo_posts_the_scenario:
  assumes "run_state (demo_Run L N H env load) w = (r, w')"
  shows "\<exists>es. emits w w' es \<and>
           ((r = Done None \<and> posts es = demo_plan L env) \<or>
            (\<exists>e. r = Done (Some e)) \<and> prefix (posts es) (take 4 (demo_plan L env)) \<or>
            r = Panic \<and> (\<exists>url \<in> set (demo_urls L env). \<not> url_parses url) \<and> prefix (posts es) (demo_plan L env))"
  using io_specD [OF demo_Run_ends assms] by (auto simp: ends_def demo_urls_parse_def list_all_iff)

text \<open>The environments a health probe sees: each probe is followed by a pause of 200 ms.\<close>

definition probe :: "string \<Rightarrow> http_req" where
  "probe base = \<lparr>hq_method = ''GET'', hq_url = base @ ''/health'', hq_body = Text []\<rparr>"

fun probe_env :: "('e, 'stx) net \<Rightarrow> 'e host \<Rightarrow> string \<Rightarrow> nat \<Rightarrow> 'e \<Rightarrow> 'e" where
  "probe_env N H base 0 e = e"
| "probe_env N H base (Suc i) e =
     probe_env N H base i (snd (hs_sleep H 200 (snd (HttpDo N (probe base) e))))"

definition healthy :: "('e, 'stx) net \<Rightarrow> string \<Rightarrow> 'e \<Rightarrow> bool" where
  "healthy N base e = (case fst (HttpDo N (probe base) e) of Ok r \<Rightarrow> rs_status r = 200 | Err _ \<Rightarrow> False)"

lemma wait_loop_run:
  assumes "run_state (wait_loop N H base n) w = (r, w')" and "url_parses (base @ ''/health'')"
  shows "\<exists>k. emits w w' (concat (replicate k [EHttp (probe base), ESleep 200]) @
                (if r = Done None then [EHttp (probe base)] else [])) \<and>
           (if r = Done None then k < n \<and> healthy N base (probe_env N H base k (w_env w))
            else k = n \<and> (\<exists>e. r = Done (Some e))) \<and>
           (\<forall>i<k. \<not> healthy N base (probe_env N H base i (w_env w)))"
  using assms(1)
proof (induction n arbitrary: w)
  case 0
  then show ?case by auto
next
  case (Suc n)
  obtain a e where q: "HttpDo N (probe base) (w_env w) = (a, e)" by fastforce
  define w1 where "w1 = \<lparr>w_env = e, w_trace = w_trace w @ [EHttp (probe base)]\<rparr>"
  have "url_parses (hq_url (probe base))" using assms(2) by (simp add: probe_def)
  with q have run: "run_state (http_do N (probe base)) w = (Done a, w1)"
    by (simp add: http_do_def http_call_parses net_call_def w1_def)
  show ?case
  proof (cases "healthy N base (w_env w)")
    case True
    then have ok: "(case a of Ok r \<Rightarrow> rs_status r = 200 | Err _ \<Rightarrow> False)" using q by (simp add: healthy_def)
    from Suc.prems have "r = Done None" "w' = w1" by (simp_all add: proceed_def run [unfolded probe_def] ok)
    with True show ?thesis by (intro exI [of _ 0]) (simp add: emits_def w1_def)
  next
    case False
    then have no: "\<not> (case a of Ok r \<Rightarrow> rs_status r = 200 | Err _ \<Rightarrow> False)" using q by (simp add: healthy_def)
    define w2 where "w2 = \<lparr>w_env = snd (hs_sleep H 200 e), w_trace = w_trace w1 @ [ESleep 200]\<rparr>"
    have s: "run_state (sleep H 200) w1 = ((), w2)"
      by (simp add: sleep_def act_def net_call_def w1_def w2_def split: prod.split)
    from Suc.prems have "run_state (wait_loop N H base n) w2 = (r, w')"
      by (simp add: proceed_def run [unfolded probe_def] no s)
    from Suc.IH [OF this] obtain k where k: "emits w2 w' (concat (replicate k [EHttp (probe base), ESleep 200]) @
                (if r = Done None then [EHttp (probe base)] else []))"
      "if r = Done None then k < n \<and> healthy N base (probe_env N H base k (w_env w2)) else k = n \<and> (\<exists>e. r = Done (Some e))"
      "\<forall>i<k. \<not> healthy N base (probe_env N H base i (w_env w2))" by blast
    have next_env: "probe_env N H base (Suc i) (w_env w) = probe_env N H base i (w_env w2)" for i
      using q by (simp add: w2_def)
    have "\<forall>i<Suc k. \<not> healthy N base (probe_env N H base i (w_env w))"
    proof (intro allI impI)
      fix i assume "i < Suc k"
      with k(3) False next_env show "\<not> healthy N base (probe_env N H base i (w_env w))" by (cases i) auto
    qed
    moreover have "emits w w' (concat (replicate (Suc k) [EHttp (probe base), ESleep 200]) @
                (if r = Done None then [EHttp (probe base)] else []))"
      using k(1) by (simp add: emits_def w1_def w2_def)
    ultimately show ?thesis using k(2) next_env by (intro exI [of _ "Suc k"]) (auto split: if_splits)
  qed
qed

lemma wait_loop_bounded:
  assumes "run_state (wait_loop N H base n) w = (r, w')" and "url_parses (base @ ''/health'')"
  shows "\<exists>k \<le> n. emits w w' (concat (replicate k [EHttp (probe base), ESleep 200]) @
                        (if r = Done None then [EHttp (probe base)] else [])) \<and>
           (\<forall>i<k. \<not> healthy N base (probe_env N H base i (w_env w))) \<and>
           (r = Done None \<longleftrightarrow> (\<exists>i<n. healthy N base (probe_env N H base i (w_env w)))) \<and>
           (r \<noteq> Done None \<longrightarrow> k = n \<and> (\<exists>e. r = Done (Some e)))"
proof -
  from wait_loop_run [OF assms] obtain k where k:
    "emits w w' (concat (replicate k [EHttp (probe base), ESleep 200]) @
                (if r = Done None then [EHttp (probe base)] else []))"
    "if r = Done None then k < n \<and> healthy N base (probe_env N H base k (w_env w)) else k = n \<and> (\<exists>e. r = Done (Some e))"
    "\<forall>i<k. \<not> healthy N base (probe_env N H base i (w_env w))" by blast
  from k(2,3) have "r = Done None \<longleftrightarrow> (\<exists>i<n. healthy N base (probe_env N H base i (w_env w)))"
    by (auto split: if_splits)
  moreover from k(2) have "k \<le> n" "r \<noteq> Done None \<longrightarrow> k = n \<and> (\<exists>e. r = Done (Some e))" by (auto split: if_splits)
  ultimately show ?thesis using k(1,3) by blast
qed

lemma wait_loop_malformed:
  "\<not> url_parses (base @ ''/health'') \<Longrightarrow> run_state (wait_loop N H base (Suc n)) w = (Panic, w)"
  by (simp add: proceed_def http_do_def http_call_Panic)

text \<open>
  C33. Waiting for a service is bounded and decided by its answers: \<open>waitHealthy\<close> probes /health
  at most 80 times, 200 ms apart, stops at the first answer with status 200 and succeeds, and
  fails exactly when none of the 80 probes gets one. With a base URL that does not parse it
  panics at once and probes nothing.
\<close>

theorem health_wait_is_bounded:
  assumes "run_state (waitHealthy N H base) w = (r, w')"
  shows "if url_parses (base @ ''/health'')
         then (\<exists>k \<le> 80. emits w w' (concat (replicate k [EHttp (probe base), ESleep 200]) @
                            (if r = Done None then [EHttp (probe base)] else [])) \<and>
               (\<forall>i<k. \<not> healthy N base (probe_env N H base i (w_env w))) \<and>
               (r = Done None \<longleftrightarrow> (\<exists>i<80. healthy N base (probe_env N H base i (w_env w)))) \<and>
               (r \<noteq> Done None \<longrightarrow> k = 80 \<and> (\<exists>e. r = Done (Some e))))
         else r = Panic \<and> w' = w"
proof (cases "url_parses (base @ ''/health'')")
  case True
  from wait_loop_bounded [OF assms [unfolded waitHealthy_def] True] True show ?thesis by presburger
next
  case False
  from wait_loop_malformed [OF False, of N H 79 w] assms have "r = Panic" "w' = w" by (simp_all add: waitHealthy_def)
  with False show ?thesis by simp
qed

text \<open>A host and an environment for the witnesses: nothing answers, nothing changes.\<close>

definition sample_host :: "unit host" where
  "sample_host = \<lparr>hs_Executable = Ok ''/bin/demo'', hs_start = (\<lambda>_ _ e. (Ok (), e)), hs_kill = (\<lambda>_. Pair ()),
     hs_sleep = (\<lambda>_. Pair ())\<rparr>"

lemma waitHealthy_malformed:
  "\<not> url_parses (base @ ''/health'') \<Longrightarrow> run_state (waitHealthy N H base) w = (Panic, w)"
  using wait_loop_malformed [of base N H 79 w] by (simp add: waitHealthy_def)

lemma hex_fixed_chars: "\<forall>c \<in> set (hex_fixed w n). \<not> is_ctl c \<and> c \<noteq> CHR ''#'' \<and> c \<noteq> CHR ''&''"
proof (induction w arbitrary: n)
  case (Suc w)
  have "hex_val (hex_char (n mod 16)) = Some (n mod 16)" by (simp add: hex_val_char)
  then have "\<not> is_ctl (hex_char (n mod 16)) \<and> hex_char (n mod 16) \<noteq> CHR ''#'' \<and> hex_char (n mod 16) \<noteq> CHR ''&''"
    by (auto simp: hex_val_def is_ctl_def Let_def split: if_splits)
  with Suc show ?case by simp
qed simp

lemma sample_demo_urls_parse: "demo_urls_parse sample_lib empty_env"
proof -
  have "CHR ''#'' \<notin> set (''account='' @ AddressHex sample_lib a) \<and> list_all (\<lambda>c. \<not> is_ctl c) (''account='' @ AddressHex sample_lib a)" for a
    using hex_fixed_chars by (auto simp: sample_lib_def sample_AddressHex_def list_all_iff is_ctl_def)
  then have "url_parses (''http://localhost:8401/balance'' @ CHR ''?'' # (''account='' @ AddressHex sample_lib a))" for a
    by (intro url_parses_query) (simp_all add: url_simps)
  then have query: "url_parses (''http://localhost:8401/balance?account='' @ AddressHex sample_lib a)" for a by simp
  have urls: "bank_DepositSvcURL (BankA sample_lib empty_env) = ''http://localhost:8401''"
    "bank_DepositSvcURL (BankB sample_lib empty_env) = ''http://localhost:8402''"
    "bank_SigningRouterURL (BankA sample_lib empty_env) = ''http://localhost:7401''"
    "bank_SigningRouterURL (BankB sample_lib empty_env) = ''http://localhost:7402''"
    by (simp_all add: BankA_def BankB_def empty_env_def)
  show ?thesis
    using query unfolding demo_urls_parse_def demo_urls_def service_urls_def bankB_hex_def merchant_hex_def urls
    by (simp add: url_simps)
qed

text \<open>The sample run, and one whose first URL has no valid port: it panics and posts nothing.\<close>

definition bad_port_env :: env where
  "bad_port_env v = (if v = ''DEMO_SPAWN'' then ''false''
                     else if v = ''BANKA_SIGNING_ROUTER_URL'' then ''http://bank-a:port'' else [])"

theorem demo_posts_the_scenario_witness:
  "(\<exists>r w' es. run_state (demo_Run sample_lib sample_net sample_host empty_env (Ok sample_dep)) sample_world = (r, w')
     \<and> emits sample_world w' es \<and> r \<noteq> Panic \<and> length (posts es) \<le> 6) \<and>
   (\<exists>w' es. run_state (demo_Run sample_lib sample_net sample_host bad_port_env (Ok sample_dep)) sample_world = (Panic, w')
     \<and> emits sample_world w' es \<and> prefix (posts es) (demo_plan sample_lib bad_port_env))"
proof
  obtain r w' where d: "run_state (demo_Run sample_lib sample_net sample_host empty_env (Ok sample_dep)) sample_world = (r, w')"
    by fastforce
  from demo_posts_the_scenario [OF d] obtain es where es: "emits sample_world w' es"
    "(r = Done None \<and> posts es = demo_plan sample_lib empty_env) \<or>
     (\<exists>e. r = Done (Some e)) \<and> prefix (posts es) (take 4 (demo_plan sample_lib empty_env))"
    using sample_demo_urls_parse unfolding demo_urls_parse_def list_all_iff by blast
  then have "r \<noteq> Panic" "length (posts es) \<le> 6" by (auto dest: prefix_length_le)
  with d es(1) show "\<exists>r w' es. run_state (demo_Run sample_lib sample_net sample_host empty_env (Ok sample_dep)) sample_world = (r, w')
     \<and> emits sample_world w' es \<and> r \<noteq> Panic \<and> length (posts es) \<le> 6" by blast
next
  have url: "bank_SigningRouterURL (BankA sample_lib bad_port_env) = ''http://bank-a:port''"
    by (simp add: BankA_def bad_port_env_def envOr_def)
  have "\<not> url_parses (''http://bank-a:port'' @ ''/health'')" by (simp add: url_simps)
  note bad = waitHealthy_malformed [OF this]
  have "run_state (scenario sample_lib sample_net sample_host bad_port_env) v = (Panic, v)" for v
    by (simp add: scenario_def service_urls_def url proceed_def bad)
  then have "fst (run_state (demo_Run sample_lib sample_net sample_host bad_port_env (Ok sample_dep)) sample_world) = Panic"
    by (simp add: demo_Run_def bad_port_env_def split: prod.split)
  then obtain w' where d: "run_state (demo_Run sample_lib sample_net sample_host bad_port_env (Ok sample_dep)) sample_world = (Panic, w')"
    by (metis prod.collapse)
  from demo_posts_the_scenario [OF d]
  show "\<exists>w' es. run_state (demo_Run sample_lib sample_net sample_host bad_port_env (Ok sample_dep)) sample_world = (Panic, w')
     \<and> emits sample_world w' es \<and> prefix (posts es) (demo_plan sample_lib bad_port_env)"
    using d by auto
qed

theorem health_wait_is_bounded_witness:
  "(\<exists>r w' k. run_state (waitHealthy sample_net sample_host ''http://localhost:7401'') sample_world = (r, w')
     \<and> k \<le> (80 :: nat) \<and> r \<noteq> Panic
     \<and> emits sample_world w' (concat (replicate k [EHttp (probe ''http://localhost:7401''), ESleep 200]) @
          (if r = Done None then [EHttp (probe ''http://localhost:7401'')] else []))) \<and>
   fst (run_state (waitHealthy sample_net sample_host ''127.0.0.1:7401'') sample_world) = Panic"
proof
  obtain r w' where h: "run_state (waitHealthy sample_net sample_host ''http://localhost:7401'') sample_world = (r, w')"
    by fastforce
  have "url_parses (''http://localhost:7401'' @ ''/health'')" by (simp add: url_simps)
  with health_wait_is_bounded [OF h] h
  show "\<exists>r w' k. run_state (waitHealthy sample_net sample_host ''http://localhost:7401'') sample_world = (r, w')
     \<and> k \<le> (80 :: nat) \<and> r \<noteq> Panic
     \<and> emits sample_world w' (concat (replicate k [EHttp (probe ''http://localhost:7401''), ESleep 200]) @
          (if r = Done None then [EHttp (probe ''http://localhost:7401'')] else []))"
    by (simp only: if_True) (metis outcome.distinct(1))
  obtain q v where p: "run_state (waitHealthy sample_net sample_host ''127.0.0.1:7401'') sample_world = (q, v)" by fastforce
  have "\<not> url_parses (''127.0.0.1:7401'' @ ''/health'')" by (simp add: url_simps)
  with health_wait_is_bounded [OF p] p
  show "fst (run_state (waitHealthy sample_net sample_host ''127.0.0.1:7401'') sample_world) = Panic" by simp
qed

text \<open>
  C34. When the demo goes on after a write: exactly when the service's URL parses and the deposit
  service answered 200 with a body of the result's shape; the transaction's own status is only
  printed, so a reverted transaction does not stop the demo.
\<close>

theorem demo_goes_on_when_answered:
  "fst (run_state (write_step L N url to amount c) w) = Done None \<longleftrightarrow>
     url_parses url \<and>
     (\<exists>resp. fst (HttpDo N (post_req url (to_amount_json to amount)) (w_env w)) = Ok resp \<and>
             rs_status resp = 200 \<and> snd (decode_body txResult (rs_body resp)) = None)"
proof (cases "url_parses url")
  case False
  then show ?thesis
    by (simp add: write_step_def postJSON_def proceed_def http_do_def http_call_Panic)
next
  case True
  obtain a e where q: "HttpDo N (post_req url (to_amount_json to amount)) (w_env w) = (a, e)" by fastforce
  with True have run: "run_state (http_do N (post_req url (to_amount_json to amount))) w =
      (Done a, \<lparr>w_env = e, w_trace = w_trace w @ [EHttp (post_req url (to_amount_json to amount))]\<rparr>)"
    by (simp add: http_do_def http_call_parses net_call_def post_req_def)
  show ?thesis
  proof (cases a)
    case (Err x)
    with run q show ?thesis
      by (simp add: write_step_def postJSON_def proceed_def post_req_def to_amount_json_def)
  next
    case (Ok r)
    then show ?thesis
      using run q True
      by (cases "decode_body txResult (rs_body r)")
        (auto simp: write_step_def postJSON_def proceed_def post_req_def to_amount_json_def post_answer_def Let_def
          split: option.splits prod.splits)
  qed
qed



lemma digit_char_zero: "digit_char 0 = CHR ''0''"
  by code_simp

text \<open>
  What the reconciliation check shows is the equality of two texts: when the token info
  cannot be read, both supplies are the empty text, the check passes with a green mark, and both
  amounts are shown as 0.
\<close>

lemma http_do_run:
  "url_parses (hq_url q) \<Longrightarrow> run_state (http_do N q) w =
     (Done (fst (HttpDo N q (w_env w))), \<lparr>w_env = snd (HttpDo N q (w_env w)), w_trace = w_trace w @ [EHttp q]\<rparr>)"
  by (simp add: http_do_def http_call_parses net_call_def split: prod.split)

lemma getJSON_Done:
  "url_parses url \<Longrightarrow> \<exists>p v. run_state (getJSON L N url out) w = (Done p, v)"
  by (simp add: getJSON_def proceed_def http_do_run)

lemma reconcile_passes_without_data:
  assumes "\<forall>e. \<exists>x. fst (HttpDo N \<lparr>hq_method = ''GET'', hq_url = bank_DepositSvcURL (BankA L env) @ ''/info'',
                                   hq_body = Text []\<rparr> e) = Err x"
    and "demo_urls_parse L env"
  shows "\<exists>w'. run_state (showBalances L N env title) w = (Done ([], []), w') \<and>
           reconcile_line [] [] =
             ''    '' @ green @ check_mark @ reset @
             '' ReserveLedger backing 0 WFUSD == deposit-token supply 0 WFUSD'' @ nl"
proof -
  have "\<exists>x u. run_state (getJSON L N (bank_DepositSvcURL (BankA L env) @ ''/info'') supplies_body) v =
      (Done (zero_val supplies_body, Some x), u)" for v
    using assms(1) [THEN spec, of "w_env v"] demo_urls_parseD(2) [OF assms(2)]
    by (auto simp: getJSON_def proceed_def http_do_run)
  then obtain x u where info: "\<And>v. run_state (getJSON L N (bank_DepositSvcURL (BankA L env) @ ''/info'') supplies_body) v =
      (Done (zero_val supplies_body, Some (x v)), u v)" by metis
  have "\<exists>b v'. run_state (demo_balanceOf L N env a) v = (Done b, v')" if "a = bankB_hex L env \<or> a = merchant_hex L" for a v
    using getJSON_Done [OF demo_urls_parseD(3) [OF assms(2) that], of L N raw_body v]
    by (auto simp: demo_balanceOf_def proceed_def Let_def)
  then obtain b1 v1 b2 v2 where bal: "\<And>v. run_state (demo_balanceOf L N env (bankB_hex L env)) v = (Done (b1 v), v1 v)"
    "\<And>v. run_state (demo_balanceOf L N env (merchant_hex L)) v = (Done (b2 v), v2 v)" by metis
  have "fmtWFUSD [] = ''0 WFUSD''"
    by (simp add: fmtWFUSD_def big_SetString_def big_Quo_def thousands_def big_String_def
        nat_text.simps [of 0] digit_char_zero group_loop_short)
  then have "reconcile_line [] [] = ''    '' @ green @ check_mark @ reset @
             '' ReserveLedger backing 0 WFUSD == deposit-token supply 0 WFUSD'' @ nl"
    by (simp add: reconcile_line_def)
  moreover have "fst (run_state (showBalances L N env title) w) = Done ([], [])"
    by (simp add: showBalances_def proceed_def Let_def case_prod_beta info bal) (simp add: supplies_body_def)
  ultimately show ?thesis by (metis prod.collapse)
qed

section \<open>The children's output\<close>

definition prefixed :: "string \<Rightarrow> string \<Rightarrow> string \<Rightarrow> string" where
  "prefixed lbl color l = ''  '' @ [CHR 0xE2, CHR 0x94, CHR 0x8A] @ '' '' @ lbl @ '' '' @ color @ l @ reset @ nl"

lemma print_lines_run:
  "run_state (print_lines lbl color ls) w =
     ((), \<lparr>w_env = w_env w, w_trace = w_trace w @ map (\<lambda>l. EPrint (prefixed lbl color l)) ls\<rparr>)"
  by (induction ls arbitrary: w) (simp_all add: printf_def act_def net_call_def prefixed_def)

text \<open>Reads that hold whole lines, the last of each with text, are copied line by line.\<close>

lemma pipePrefixed_whole_lines:
  assumes "\<forall>ls \<in> set lss. ls \<noteq> [] \<and> last ls \<noteq> [] \<and> (\<forall>l \<in> set ls. CHR 0x0A \<notin> set l)"
  shows "run_state (pipePrefixed (map (\<lambda>ls. (concat (map (\<lambda>l. l @ [CHR 0x0A]) ls), None)) lss) lbl color) w =
     ((), \<lparr>w_env = w_env w, w_trace = w_trace w @ map (\<lambda>l. EPrint (prefixed lbl color l)) (concat lss)\<rparr>)"
  using assms
proof (induction lss arbitrary: w)
  case (Cons ls lss)
  from Cons.prems have ls: "ls \<noteq> []" "last ls \<noteq> []" "\<forall>l \<in> set ls. CHR 0x0A \<notin> set l" by auto
  have ne: "concat (map (\<lambda>l. l @ [CHR 0x0A]) ls) \<noteq> []" using ls(1) by (cases ls) auto
  from Cons.prems have "\<forall>ls \<in> set lss. ls \<noteq> [] \<and> last ls \<noteq> [] \<and> (\<forall>l \<in> set ls. CHR 0x0A \<notin> set l)" by simp
  note IH = Cons.IH [OF this]
  show ?case
    by (simp add: ne split_trimmed_lines [OF ls(1,3,2)] print_lines_run IH del: concat_eq_Nil_conv)
qed simp

text \<open>A line that two reads share is printed as two lines.\<close>

lemma pipePrefixed_splits_lines:
  "run_state (pipePrefixed [(''he'', None), (''llo'' @ [CHR 0x0A], None)] lbl color) w =
     ((), \<lparr>w_env = w_env w, w_trace = w_trace w @ [EPrint (prefixed lbl color ''he''), EPrint (prefixed lbl color ''llo'')]\<rparr>)"
  by (simp add: strings_TrimRight_def printf_def act_def net_call_def prefixed_def)

end
