(* ===== verification/Keystore.thy ===== *)
theory Keystore
  imports Lib
begin

text \<open>
  internal/signrouter/keystore.go: the table of private keys, loading one by its identifier, and
  signing a hash with it.
\<close>

definition keystore :: "string \<rightharpoonup> string" where
  "keystore = [
     ''key://bank-a/issuer'' \<mapsto> ''ac0974bec39a17e36ba4a6b4d238ff944bacb478cbed5efcae784d7bf4f2ff80'',
     ''key://bank-b/holder'' \<mapsto> ''59c6995e998f97a5a0044966f0945389dc9e86dae88c7a8412f4603b6b78690d'']"

record 'sk key =
  key_priv :: 'sk
  key_address :: address

definition loadKey :: "('sk, 'stx) lib \<Rightarrow> string \<Rightarrow> 'sk key res" where
  "loadKey L keyID =
     (case keystore keyID of
        None \<Rightarrow> Err (''keystore: no key for keyId '' @ quote L keyID)
      | Some hex \<Rightarrow>
          (case HexToECDSA L hex of
             Err e \<Rightarrow> Err (''keystore: bad key for '' @ quote L keyID @ '': '' @ e)
           | Ok priv \<Rightarrow> Ok \<lparr>key_priv = priv, key_address = PubkeyToAddress L priv\<rparr>))"

definition signHash :: "('sk, 'stx) lib \<Rightarrow> 'sk key \<Rightarrow> bytes \<Rightarrow> bytes res" where
  "signHash L k hash = cryptoSign L hash (key_priv k)"

text \<open>The keys of the store are well-formed key literals.\<close>

definition keystore_ok :: "('sk, 'stx) lib \<Rightarrow> bool" where
  "keystore_ok L \<longleftrightarrow> (\<forall>hex \<in> ran keystore. is_ok (HexToECDSA L hex))"

lemma dom_keystore: "dom keystore = {''key://bank-a/issuer'', ''key://bank-b/holder''}"
  by (auto simp: keystore_def)

lemma loadKey_Ok_iff:
  "loadKey L i = Ok k \<longleftrightarrow>
     (\<exists>hex priv. keystore i = Some hex \<and> HexToECDSA L hex = Ok priv \<and>
        k = \<lparr>key_priv = priv, key_address = PubkeyToAddress L priv\<rparr>)"
  by (auto simp: loadKey_def split: option.splits res.splits)

lemma loadKey_ok: "keystore_ok L \<Longrightarrow> is_ok (loadKey L i) \<longleftrightarrow> i \<in> dom keystore"
  by (fastforce simp: keystore_ok_def is_ok_iff loadKey_Ok_iff ran_def)

lemma loadKey_address: "loadKey L i = Ok k \<Longrightarrow> key_address k = PubkeyToAddress L (key_priv k)"
  by (auto simp: loadKey_Ok_iff)

end
