(* ===== verification/Signing_Router.thy ===== *)
theory Signing_Router
  imports Keystore Http Sample_Lib Go_Strings
begin

text \<open>
  internal/signrouter/server.go and cmd/signing-router/main.go: a router holds the keys it was
  given and signs 32-byte hashes with them. \<open>router_New\<close> is the constructor, \<open>handleSign\<close> the
  handler of POST /sign, \<open>router_Handler\<close> the mux and \<open>router_main\<close> the start-up. The
  interface the deposit service relies on is the locale \<open>signing_service\<close>.
\<close>

section \<open>State and construction\<close>

record 'sk router =
  rt_label :: string
  rt_allowed :: "string \<rightharpoonup> 'sk key"

fun load_all :: "('sk, 'stx) lib \<Rightarrow> string list \<Rightarrow> (string \<rightharpoonup> 'sk key) \<Rightarrow> (string \<rightharpoonup> 'sk key) res" where
  "load_all L [] allowed = Ok allowed"
| "load_all L (i # ids) allowed =
     (case loadKey L i of
        Err e \<Rightarrow> Err e
      | Ok k \<Rightarrow> load_all L ids (allowed(i \<mapsto> k)))"

definition router_New :: "('sk, 'stx) lib \<Rightarrow> string \<Rightarrow> string list \<Rightarrow> 'sk router res" where
  "router_New L label keyIDs =
     (if length keyIDs = 0 then Err ''signing-router: refusing to start with no keys''
      else case load_all L keyIDs Map.empty of
             Err e \<Rightarrow> Err e
           | Ok allowed \<Rightarrow> Ok \<lparr>rt_label = label, rt_allowed = allowed\<rparr>)"

section \<open>Signing\<close>

definition SignRequest :: schema where
  "SignRequest = SStruct [(''keyId'', SStr), (''hash'', SStr)]"

definition SignResponse :: "string \<Rightarrow> string \<Rightarrow> json" where
  "SignResponse sig addr = JObj [(''signature'', JStr sig), (''address'', JStr addr)]"

text \<open>
  The success path logs \<open>req.Hash[:12]\<close>, a slice that panics on a shorter text; the log line
  itself is not modelled.
\<close>

definition handleSign :: "('sk, 'stx) lib \<Rightarrow> 'sk router \<Rightarrow> request \<Rightarrow> response outcome" where
  "handleSign L s r =
     (case decode_body SignRequest (rq_body r) of
        (_, Some _) \<Rightarrow> Done (writeErr 400 ''bad json'')
      | (req, None) \<Rightarrow>
          (case rt_allowed s (str_field ''keyId'' req) of
             None \<Rightarrow>
               Done (writeErr 403 (''router '' @ quote L (rt_label s) @ '' does not hold key '' @
                                   str_field ''keyId'' req))
           | Some k \<Rightarrow>
               (case hexutilDecode L (str_field ''hash'' req) of
                  Err _ \<Rightarrow> Done (writeErr 400 ''hash must be a 32-byte 0x-hex string'')
                | Ok hash \<Rightarrow>
                    if length hash \<noteq> 32
                    then Done (writeErr 400 ''hash must be a 32-byte 0x-hex string'')
                    else
                      (case signHash L k hash of
                         Err e \<Rightarrow> Done (writeErr 500 e)
                       | Ok sig \<Rightarrow>
                           if length (str_field ''hash'' req) < 12 then Panic
                           else Done (writeJSON 200
                                  (SignResponse (hexutilEncode L sig) (AddressHex L (key_address k))))))))"

section \<open>Routing and start-up\<close>

text \<open>The order in which Go ranges over a map is the argument \<open>ord\<close>.\<close>

definition router_health :: "(('sk router) \<Rightarrow> string list) \<Rightarrow> 'sk router \<Rightarrow> response" where
  "router_health ord s =
     writeJSON 200 (jmap [(''ok'', JBool True), (''label'', JStr (rt_label s)),
                          (''keyIds'', JArr (map JStr (ord s)))])"

definition router_mux :: "('sk, 'stx) lib \<Rightarrow> (('sk router) \<Rightarrow> string list) \<Rightarrow> 'sk router
    \<Rightarrow> (string \<times> string \<times> (request \<Rightarrow> response outcome)) list" where
  "router_mux L ord s =
     [(''GET'', ''/health'', \<lambda>_. Done (router_health ord s)),
      (''POST'', ''/sign'', handleSign L s)]"

definition router_Handler :: "('sk, 'stx) lib \<Rightarrow> (('sk router) \<Rightarrow> string list) \<Rightarrow> 'sk router
    \<Rightarrow> request \<Rightarrow> response outcome" where
  "router_Handler L ord s r =
     (case mux_find (router_mux L ord s) r of
        Route h \<Rightarrow> h r
      | NotAllowed \<Rightarrow> Done not_allowed
      | NotFound \<Rightarrow> Done not_found)"

text \<open>
  \<open>main\<close> and \<open>Run\<close>: the port, the label and the keys from the environment; the result is the
  port listened on and the router served there, or the error the process exits with.
\<close>

fun split_keys :: "string list \<Rightarrow> string list" where
  "split_keys [] = []"
| "split_keys (k # ks) =
     (let k' = strings_TrimSpace k in if k' \<noteq> [] then k' # split_keys ks else split_keys ks)"

definition router_Run :: "('sk, 'stx) lib \<Rightarrow> int \<Rightarrow> string \<Rightarrow> string list \<Rightarrow> (int \<times> 'sk router) res" where
  "router_Run L port label keyIDs =
     (case router_New L label keyIDs of
        Err e \<Rightarrow> Err e
      | Ok srv \<Rightarrow> Ok (port, srv))"

definition router_main :: "('sk, 'stx) lib \<Rightarrow> env \<Rightarrow> (int \<times> 'sk router) res" where
  "router_main L env =
     (let port = (if env ''PORT'' \<noteq> [] then fst (strconv_Atoi (env ''PORT'')) else 7401);
          label = (if env ''LABEL'' = [] then ''signing-router'' else env ''LABEL'');
          keys = split_keys (strings_Split (CHR '','') (env ''ROUTER_KEYS''))
      in case router_Run L port label keys of
           Err e \<Rightarrow> Err (''signing-router: '' @ e)
         | Ok served \<Rightarrow> Ok served)"

section \<open>Lemmas\<close>

text \<open>The key a request names, when its body decodes.\<close>

definition requested_key :: "request \<Rightarrow> string option" where
  "requested_key r =
     (case decode_body SignRequest (rq_body r) of
        (_, Some _) \<Rightarrow> None
      | (req, None) \<Rightarrow> Some (str_field ''keyId'' req))"

definition requested_hash :: "request \<Rightarrow> string" where
  "requested_hash r = str_field ''hash'' (fst (decode_body SignRequest (rq_body r)))"

definition well_formed_hash :: "('sk, 'stx) lib \<Rightarrow> string \<Rightarrow> bool" where
  "well_formed_hash L h \<longleftrightarrow> (\<exists>b. hexutilDecode L h = Ok b \<and> length b = 32)"

definition router_holds :: "'sk router \<Rightarrow> string \<Rightarrow> bool" where
  "router_holds s i \<longleftrightarrow> i \<in> dom (rt_allowed s)"

lemma load_all_Ok_iff:
  "load_all L ids m = Ok m' \<longleftrightarrow>
     (\<forall>i \<in> set ids. is_ok (loadKey L i)) \<and>
     m' = (\<lambda>i. if i \<in> set ids then (case loadKey L i of Ok k \<Rightarrow> Some k | Err _ \<Rightarrow> None) else m i)"
proof (induction ids arbitrary: m)
  case Nil
  show ?case by auto
next
  case (Cons i ids)
  show ?case
  proof (cases "loadKey L i")
    case (Ok k)
    have "(\<lambda>j. if j \<in> set ids then (case loadKey L j of Ok k \<Rightarrow> Some k | Err _ \<Rightarrow> None) else (m(i \<mapsto> k)) j) =
          (\<lambda>j. if j \<in> set (i # ids) then (case loadKey L j of Ok k \<Rightarrow> Some k | Err _ \<Rightarrow> None) else m j)"
      (is "?f = ?g") using Ok by (auto simp: fun_eq_iff)
    moreover have "load_all L (i # ids) m = Ok m' \<longleftrightarrow>
        (\<forall>j \<in> set ids. is_ok (loadKey L j)) \<and> m' = ?f"
      by (simp only: load_all.simps Ok res.case Cons.IH)
    ultimately show ?thesis using Ok by simp
  next
    case (Err e)
    then show ?thesis by simp
  qed
qed

lemma router_New_Ok_iff:
  "router_New L label ids = Ok s \<longleftrightarrow>
     ids \<noteq> [] \<and> (\<forall>i \<in> set ids. is_ok (loadKey L i)) \<and>
     s = \<lparr>rt_label = label,
          rt_allowed = (\<lambda>i. if i \<in> set ids then (case loadKey L i of Ok k \<Rightarrow> Some k | Err _ \<Rightarrow> None)
                            else None)\<rparr>"
proof (cases "load_all L ids Map.empty")
  case (Ok m)
  with load_all_Ok_iff [of L ids Map.empty m] show ?thesis by (auto simp: router_New_def)
next
  case (Err e)
  with load_all_Ok_iff [of L ids Map.empty] have "\<not> (\<forall>i \<in> set ids. is_ok (loadKey L i))" by auto
  with Err show ?thesis by (auto simp: router_New_def)
qed

lemma router_New_holds: "router_New L label ids = Ok s \<Longrightarrow> router_holds s i \<longleftrightarrow> i \<in> set ids"
  by (auto simp: router_New_Ok_iff router_holds_def is_ok_iff split: res.splits if_splits)

lemma set_split_keys: "set (split_keys ks) = set (map strings_TrimSpace ks) - {[]}"
  by (induction ks) (auto simp: Let_def)

lemma router_New_keys: "router_New L label ids = Ok s \<Longrightarrow> rt_allowed s i = Some k \<Longrightarrow> loadKey L i = Ok k"
  by (auto simp: router_New_Ok_iff split: res.splits if_splits)

text \<open>The handler, branch by branch, over the three readers of the request.\<close>

lemma handleSign_cases:
  "handleSign L s r =
     (case requested_key r of
        None \<Rightarrow> Done (writeErr 400 ''bad json'')
      | Some i \<Rightarrow>
          (case rt_allowed s i of
             None \<Rightarrow> Done (writeErr 403 (''router '' @ quote L (rt_label s) @ '' does not hold key '' @ i))
           | Some k \<Rightarrow>
               (case hexutilDecode L (requested_hash r) of
                  Err _ \<Rightarrow> Done (writeErr 400 ''hash must be a 32-byte 0x-hex string'')
                | Ok hash \<Rightarrow>
                    if length hash \<noteq> 32
                    then Done (writeErr 400 ''hash must be a 32-byte 0x-hex string'')
                    else
                      (case signHash L k hash of
                         Err e \<Rightarrow> Done (writeErr 500 e)
                       | Ok sig \<Rightarrow>
                           if length (requested_hash r) < 12 then Panic
                           else Done (writeJSON 200
                                  (SignResponse (hexutilEncode L sig) (AddressHex L (key_address k))))))))"
proof (cases "decode_body SignRequest (rq_body r)")
  case (Pair req err)
  then show ?thesis
    by (cases err) (simp_all add: handleSign_def requested_key_def requested_hash_def
        split: option.split res.split)
qed

lemma handleSign_unheld:
  "requested_key r = Some i \<Longrightarrow> \<not> router_holds s i \<Longrightarrow>
     handleSign L s r =
       Done (writeErr 403 (''router '' @ quote L (rt_label s) @ '' does not hold key '' @ i))"
  by (auto simp: handleSign_cases router_holds_def domIff split: option.splits)

lemma handleSign_200:
  assumes "handleSign L s r = Done x" and "rs_status x = 200"
  shows "\<exists>i k hash sig. requested_key r = Some i \<and> rt_allowed s i = Some k \<and>
           hexutilDecode L (requested_hash r) = Ok hash \<and> length hash = 32 \<and>
           signHash L k hash = Ok sig \<and>
           x = writeJSON 200 (SignResponse (hexutilEncode L sig) (AddressHex L (key_address k)))"
  using assms by (auto simp: handleSign_cases split: option.splits res.splits if_splits)

text \<open>The body a client sends: the members in the order of their keys.\<close>

lemma requested_client_body [wire_simps]:
  assumes "rq_body r = Json (JObj [(''hash'', JStr h), (''keyId'', JStr i)])"
  shows "requested_key r = Some i" and "requested_hash r = h"
  using assms
  by (simp_all add: requested_key_def requested_hash_def decode_body_def SignRequest_def match_field_def)

lemma handleSign_serves:
  assumes "hexutil_ok L" and "requested_key r = Some i" and "rt_allowed s i = Some k"
    and "requested_hash r = hexutilEncode L b" and "length b = 32"
    and "cryptoSign L b (key_priv k) = Ok sig"
  shows "handleSign L s r =
           Done (writeJSON 200 (SignResponse (hexutilEncode L sig) (AddressHex L (key_address k))))"
proof -
  have d: "hexutilDecode L (hexutilEncode L b) = Ok b"
    using assms(1) by (rule hexutil_decode_encode)
  from hexutil_decode_length [OF assms(1) d] assms(5)
  have "\<not> length (hexutilEncode L b) < 12" by simp
  with d assms show ?thesis by (simp add: handleSign_cases signHash_def)
qed

text \<open>A sample router and request for the witnesses.\<close>

definition sample_router :: "string \<Rightarrow> string \<Rightarrow> string router" where
  "sample_router label i =
     \<lparr>rt_label = label,
      rt_allowed = (\<lambda>j. if j = i then (case loadKey sample_lib i of Ok k \<Rightarrow> Some k | Err _ \<Rightarrow> None)
                        else None)\<rparr>"

definition sample_sign_request :: "string \<Rightarrow> request" where
  "sample_sign_request i =
     \<lparr>rq_method = ''POST'', rq_path = ''/sign'', rq_query = (\<lambda>_. []),
      rq_body = Json (JObj [(''hash'', JStr (hexutilEncode sample_lib (replicate 32 0x11))),
                            (''keyId'', JStr i)])\<rparr>"

lemma sample_keys:
  "is_ok (loadKey sample_lib ''key://bank-a/issuer'')" "is_ok (loadKey sample_lib ''key://bank-b/holder'')"
  by (simp_all add: loadKey_def keystore_def sample_lib_def)

lemma sample_router_New:
  "is_ok (loadKey sample_lib i) \<Longrightarrow> router_New sample_lib label [i] = Ok (sample_router label i)"
  by (auto simp: router_New_Ok_iff sample_router_def)

lemma sample_request_served:
  assumes "is_ok (loadKey sample_lib i)"
  shows "\<exists>x. handleSign sample_lib (sample_router label i) (sample_sign_request i) = Done x
           \<and> rs_status x = 200"
proof -
  from assms obtain k where k: "loadKey sample_lib i = Ok k" by (auto simp: is_ok_iff)
  have req: "requested_key (sample_sign_request i) = Some i"
    "requested_hash (sample_sign_request i) = hexutilEncode sample_lib (replicate 32 0x11)"
    by (rule requested_client_body, simp add: sample_sign_request_def)+
  have "rt_allowed (sample_router label i) i = Some k" by (simp add: sample_router_def k)
  moreover obtain sig where "cryptoSign sample_lib (replicate 32 0x11) (key_priv k) = Ok sig"
    by (simp add: sample_lib_def)
  ultimately show ?thesis
    using handleSign_serves [OF sample_hexutil_ok req(1) _ req(2)] by simp
qed

section \<open>The interface\<close>

text \<open>
  What a client of a signing service may rely on: a request that names a key the service does
  not hold is refused with 403 whatever else it says, a request without a key is 400, and a
  signature is only given for a key that is held.
\<close>

locale signing_service =
  fixes holds :: "'s \<Rightarrow> string \<Rightarrow> bool"
    and sign :: "'s \<Rightarrow> request \<Rightarrow> response outcome"
    and names_key :: "request \<Rightarrow> string option"
  assumes refuses: "names_key r = Some i \<Longrightarrow> \<not> holds s i \<Longrightarrow> \<exists>x. sign s r = Done x \<and> rs_status x = 403"
    and malformed: "names_key r = None \<Longrightarrow> \<exists>x. sign s r = Done x \<and> rs_status x = 400"
    and signs_held: "sign s r = Done x \<Longrightarrow> rs_status x = 200 \<Longrightarrow> \<exists>i. names_key r = Some i \<and> holds s i"
begin

text \<open>Two services with no key in common: what one signs, the other refuses.\<close>

lemma isolation:
  assumes "\<forall>i. \<not> (holds s i \<and> holds t i)" and "sign s r = Done x" and "rs_status x = 200"
  shows "\<exists>y. sign t r = Done y \<and> rs_status y = 403"
proof -
  from signs_held [OF assms(2,3)] obtain i where i: "names_key r = Some i" "holds s i" by blast
  with assms(1) have "\<not> holds t i" by blast
  from refuses [OF i(1) this] show ?thesis .
qed

lemma never_both:
  assumes "\<forall>i. \<not> (holds s i \<and> holds t i)"
    and "sign s r = Done x" "rs_status x = 200" and "sign t r = Done y"
  shows "rs_status y \<noteq> 200"
  using isolation [OF assms(1-3)] assms(4) by auto

end

interpretation rs: signing_service router_holds "handleSign L" requested_key for L :: "('sk, 'stx) lib"
proof (unfold_locales, goal_cases)
  case (1 r i s)
  then show ?case by (simp add: handleSign_unheld)
next
  case (2 r s)
  then show ?case by (simp add: handleSign_cases)
next
  case (3 s r x)
  from handleSign_200 [OF 3] show ?case by (auto simp: router_holds_def domIff)
qed

section \<open>Properties\<close>

text \<open>
  C3. A signing router gives a signature only with a key it was provisioned with: a 200 answer
  to POST /sign carries the signature, under the held key the request names, of the 32-byte
  hash the request gives, and the address of that same key.
\<close>

theorem router_signs_only_held_keys:
  assumes "handleSign L s r = Done x" and "rs_status x = 200"
  shows "\<exists>i k hash sig. requested_key r = Some i \<and> rt_allowed s i = Some k
           \<and> hexutilDecode L (requested_hash r) = Ok hash \<and> length hash = 32
           \<and> cryptoSign L hash (key_priv k) = Ok sig
           \<and> rs_body x = Json (SignResponse (hexutilEncode L sig) (AddressHex L (key_address k)))"
  using handleSign_200 [OF assms] by (fastforce simp: signHash_def writeJSON_def)

theorem router_signs_only_held_keys_witness:
  "\<exists>x k. handleSign sample_lib (sample_router ''Bank A router'' ''key://bank-a/issuer'')
           (sample_sign_request ''key://bank-a/issuer'') = Done x
     \<and> rt_allowed (sample_router ''Bank A router'' ''key://bank-a/issuer'') ''key://bank-a/issuer'' = Some k
     \<and> (\<exists>hash sig. cryptoSign sample_lib hash (key_priv k) = Ok sig)"
proof -
  obtain x where x: "handleSign sample_lib (sample_router ''Bank A router'' ''key://bank-a/issuer'')
      (sample_sign_request ''key://bank-a/issuer'') = Done x" "rs_status x = 200"
    using sample_request_served [OF sample_keys(1)] by blast
  from router_signs_only_held_keys [OF x] x(1) show ?thesis
    by (fastforce simp: sample_router_def split: if_splits)
qed

text \<open>
  C4. Key isolation between routers: two routers started with disjoint key lists never sign
  for each other. Whatever request one of them answers with a signature, the other answers
  with 403.
\<close>

theorem routers_are_isolated:
  assumes "router_New L labelA idsA = Ok a" and "router_New L labelB idsB = Ok b"
    and "set idsA \<inter> set idsB = {}"
    and "handleSign L a r = Done x" and "rs_status x = 200"
  shows "\<exists>y. handleSign L b r = Done y \<and> rs_status y = 403"
proof (rule rs.isolation)
  show "\<forall>i. \<not> (router_holds a i \<and> router_holds b i)"
    using assms(3) by (auto simp: router_New_holds [OF assms(1)] router_New_holds [OF assms(2)])
qed (use assms(4,5) in auto)

theorem routers_are_isolated_witness:
  "\<exists>y. handleSign sample_lib (sample_router ''Bank A router'' ''key://bank-a/issuer'')
         (sample_sign_request ''key://bank-b/holder'') = Done y \<and> rs_status y = 403"
proof -
  obtain x where x: "handleSign sample_lib (sample_router ''Bank B router'' ''key://bank-b/holder'')
      (sample_sign_request ''key://bank-b/holder'') = Done x" "rs_status x = 200"
    using sample_request_served [OF sample_keys(2)] by blast
  show ?thesis
    by (rule routers_are_isolated [OF sample_router_New [OF sample_keys(2)]
          sample_router_New [OF sample_keys(1)] _ x]) simp
qed

text \<open>What a started router holds: \<open>New\<close> succeeds exactly when it is given at least one key identifier and
  every one of them loads, and then it holds exactly these identifiers, each with the key of the
  keystore.\<close>

lemma router_New_provisions_exactly:
  "(is_ok (router_New L label ids) \<longleftrightarrow> ids \<noteq> [] \<and> (\<forall>i \<in> set ids. is_ok (loadKey L i))) \<and>
   (\<forall>s. router_New L label ids = Ok s \<longrightarrow>
      rt_label s = label \<and> dom (rt_allowed s) = set ids \<and>
      (\<forall>i k. rt_allowed s i = Some k \<longrightarrow> loadKey L i = Ok k))"
proof -
  have "dom (rt_allowed s) = set ids" if "router_New L label ids = Ok s" for s
    using router_New_holds [OF that] by (auto simp: router_holds_def)
  then show ?thesis
    by (auto simp: is_ok_iff router_New_Ok_iff split: if_splits res.splits)
qed

text \<open>
  C26. Every request to POST /sign is answered, without a panic (the log line slices the hash
  text), and the status tells why: 400 for a body that does not decode, then 403 for a key that
  is not held, whatever the hash, then 400 for anything but a 32-byte hex hash, 500 when the
  key cannot sign it, and 200 otherwise.
\<close>

theorem handleSign_total:
  assumes "hexutil_ok L"
  shows "\<exists>x. handleSign L s r = Done x \<and>
           rs_status x =
             (case requested_key r of
                None \<Rightarrow> 400
              | Some i \<Rightarrow>
                  (case rt_allowed s i of
                     None \<Rightarrow> 403
                   | Some k \<Rightarrow>
                       (case hexutilDecode L (requested_hash r) of
                          Err _ \<Rightarrow> 400
                        | Ok hash \<Rightarrow>
                            if length hash \<noteq> 32 then 400
                            else if is_ok (cryptoSign L hash (key_priv k)) then 200 else 500)))"
  using hexutil_decode_length [OF assms, of "requested_hash r"]
  by (auto simp: handleSign_cases signHash_def split: option.split res.split)

theorem handleSign_total_witness:
  "\<exists>x. handleSign sample_lib (sample_router ''Bank A router'' ''key://bank-a/issuer'')
         \<lparr>rq_method = ''POST'', rq_path = ''/sign'', rq_query = (\<lambda>_. []), rq_body = Text ''{''\<rparr> = Done x
     \<and> rs_status x = 400"
  using handleSign_total [OF sample_hexutil_ok, of "sample_router ''Bank A router'' ''key://bank-a/issuer''"
      "\<lparr>rq_method = ''POST'', rq_path = ''/sign'', rq_query = (\<lambda>_. []), rq_body = Text ''{''\<rparr>"]
  by (simp add: requested_key_def)

text \<open>
  A request of the form the deposit service sends, for a held key and a 32-byte hash, is
  served: the router answers 200 with the signature of exactly that hash.
\<close>

lemma router_serves_the_wire_format:
  assumes "hexutil_ok L" and "rt_allowed s i = Some k" and "length b = 32"
    and "cryptoSign L b (key_priv k) = Ok sig"
    and "rq_body r = Json (jmap [(''keyId'', JStr i), (''hash'', JStr (hexutilEncode L b))])"
  shows "handleSign L s r =
           Done (writeJSON 200 (SignResponse (hexutilEncode L sig) (AddressHex L (key_address k))))"
proof -
  have b: "rq_body r = Json (JObj [(''hash'', JStr (hexutilEncode L b)), (''keyId'', JStr i)])"
    using assms(5) by (simp add: jmap_def)
  show ?thesis
    by (rule handleSign_serves [OF assms(1) requested_client_body(1) [OF b] assms(2)
          requested_client_body(2) [OF b] assms(3,4)])
qed

text \<open>
  C40. Start-up from the environment: when the router process starts, it listens on port 7401
  unless PORT says otherwise, is never without a key, and holds exactly the entries of the comma
  separated ROUTER_KEYS that are not blank, trimmed, each with its key of the keystore; it stops
  with an error exactly when there is no such entry or one of them does not load.
\<close>

theorem router_starts_with_the_configured_keys:
  "case router_main L env of
     Ok (port, s) \<Rightarrow>
       (env ''PORT'' = [] \<longrightarrow> port = 7401) \<and>
       dom (rt_allowed s) = set (map strings_TrimSpace (strings_Split (CHR '','') (env ''ROUTER_KEYS''))) - {[]} \<and>
       dom (rt_allowed s) \<noteq> {} \<and> (\<forall>i k. rt_allowed s i = Some k \<longrightarrow> loadKey L i = Ok k)
   | Err e \<Rightarrow>
       (\<forall>x \<in> set (strings_Split (CHR '','') (env ''ROUTER_KEYS'')). strings_TrimSpace x = []) \<or>
       (\<exists>x \<in> set (strings_Split (CHR '','') (env ''ROUTER_KEYS'')).
          strings_TrimSpace x \<noteq> [] \<and> \<not> is_ok (loadKey L (strings_TrimSpace x)))"
proof -
  define ids where "ids = split_keys (strings_Split (CHR '','') (env ''ROUTER_KEYS''))"
  have ids: "set ids = set (map strings_TrimSpace (strings_Split (CHR '','') (env ''ROUTER_KEYS''))) - {[]}"
    by (simp add: ids_def set_split_keys)
  define label where "label = (if env ''LABEL'' = [] then ''signing-router'' else env ''LABEL'')"
  show ?thesis
  proof (cases "router_New L label ids")
    case (Ok s)
    then have "dom (rt_allowed s) = set ids" "set ids \<noteq> {}"
      using router_New_holds [OF Ok] router_New_Ok_iff [of L label ids s] by (auto simp: router_holds_def)
    then have "dom (rt_allowed s) = set (map strings_TrimSpace (strings_Split (CHR '','') (env ''ROUTER_KEYS''))) - {[]}"
      and "dom (rt_allowed s) \<noteq> {}" by (simp_all only: ids not_False_eq_True)
    moreover have "router_main L env = Ok (if env ''PORT'' \<noteq> [] then fst (strconv_Atoi (env ''PORT'')) else 7401, s)"
      using Ok by (simp only: router_main_def router_Run_def Let_def ids_def [symmetric] label_def [symmetric] res.case)
    ultimately show ?thesis using router_New_keys [OF Ok] by (simp del: dom_eq_empty_conv)
  next
    case (Err e)
    then have "\<not> is_ok (router_New L label ids)" by simp
    then have "ids = [] \<or> (\<exists>i \<in> set ids. \<not> is_ok (loadKey L i))"
      by (auto simp: is_ok_iff router_New_Ok_iff)
    with Err ids show ?thesis
      by (auto simp: router_main_def router_Run_def Let_def ids_def [symmetric] label_def [symmetric])
  qed
qed

definition sample_router_env :: env where
  "sample_router_env k = (if k = ''ROUTER_KEYS'' then '' key://bank-a/issuer , '' else [])"

lemma sample_router_env:
  "sample_router_env ''PORT'' = []" "sample_router_env ''LABEL'' = []"
  "map strings_TrimSpace (strings_Split (CHR '','') (sample_router_env ''ROUTER_KEYS'')) = [''key://bank-a/issuer'', []]"
  "split_keys (strings_Split (CHR '','') (sample_router_env ''ROUTER_KEYS'')) = [''key://bank-a/issuer'']"
  by code_simp+

theorem router_starts_with_the_configured_keys_witness:
  "\<exists>s. router_main sample_lib sample_router_env = Ok (7401, s) \<and> dom (rt_allowed s) = {''key://bank-a/issuer''}"
proof -
  obtain port s where r: "router_main sample_lib sample_router_env = Ok (port, s)"
    by (simp add: router_main_def router_Run_def sample_router_env(1,2,4) sample_router_New [OF sample_keys(1)])
  from router_starts_with_the_configured_keys [of sample_router_env sample_lib] r show ?thesis
    by (auto simp: sample_router_env(1,3))
qed

end
