(* ===== verification/Network.thy ===== *)
theory Network
  imports Demo_Properties Signing_Router
begin

text \<open>
  The services composed, as docker-compose and the demo compose them: a deposit service whose
  HTTP client reaches the two modelled signing routers, and a client (the demo) that reaches the
  two modelled deposit services and the routers. The network hands a request to the service
  whose base URL its URL starts with; every other request goes to an unknown outside. A handler
  that panics closes the connection, which its client sees as an error.
\<close>

section \<open>Delivering a request\<close>

text \<open>The request a server sees: the path is what precedes the question mark.\<close>

definition query_value :: "string \<Rightarrow> string \<Rightarrow> string" where
  "query_value q k =
     (case find (\<lambda>kv. takeWhile (\<lambda>c. c \<noteq> CHR ''='') kv = k) (strings_Split (CHR ''&'') q) of
        Some kv \<Rightarrow> drop (length k + 1) kv
      | None \<Rightarrow> [])"

definition deliver :: "string \<Rightarrow> http_req \<Rightarrow> request option" where
  "deliver base q =
     (if prefix base (hq_url q)
      then (let rest = drop (length base) (hq_url q);
                path = takeWhile (\<lambda>c. c \<noteq> CHR ''?'') rest
            in Some \<lparr>rq_method = hq_method q, rq_path = path,
                     rq_query = query_value (drop (length path + 1) rest), rq_body = hq_body q\<rparr>)
      else None)"

fun answer :: "response outcome \<Rightarrow> response res" where
  "answer (Done x) = Ok x"
| "answer Panic = Err ''EOF''"

section \<open>The two compositions\<close>

text \<open>Two routers with one key each, and the order a map is ranged over.\<close>

record 'sk routers =
  rs_A :: "'sk router"
  rs_B :: "'sk router"
  rs_ord :: "'sk router \<Rightarrow> string list"

definition router_net :: "('sk, 'stx) lib \<Rightarrow> env \<Rightarrow> 'sk routers \<Rightarrow> ('e, 'stx) net \<Rightarrow> ('e, 'stx) net" where
  "router_net L env R N =
     N\<lparr>HttpDo := \<lambda>q e.
       (case deliver (bank_SigningRouterURL (BankA L env)) q of
          Some r \<Rightarrow> (answer (router_Handler L (rs_ord R) (rs_A R) r), e)
        | None \<Rightarrow>
            (case deliver (bank_SigningRouterURL (BankB L env)) q of
               Some r \<Rightarrow> (answer (router_Handler L (rs_ord R) (rs_B R) r), e)
             | None \<Rightarrow> HttpDo N q e))\<rparr>"

definition bank_service :: "('sk, 'stx) lib \<Rightarrow> env \<Rightarrow> deployment \<Rightarrow> bool \<Rightarrow> service" where
  "bank_service L env dep issuer = \<lparr>sv_bank = (if issuer then BankA L env else BankB L env), sv_dep = dep\<rparr>"

definition serve_deposit :: "('sk, 'stx) lib \<Rightarrow> ('e, 'stx) net \<Rightarrow> service \<Rightarrow> request \<Rightarrow> 'e \<Rightarrow> response res \<times> 'e" where
  "serve_deposit L N s r e =
     (case deposit_Handler L N s r \<lparr>w_env = e, w_trace = []\<rparr> of (x, w) \<Rightarrow> (answer x, w_env w))"

definition demo_net :: "('sk, 'stx) lib \<Rightarrow> env \<Rightarrow> 'sk routers \<Rightarrow> deployment \<Rightarrow> ('e, 'stx) net \<Rightarrow> ('e, 'stx) net" where
  "demo_net L env R dep N =
     (let RN = router_net L env R N in
      RN\<lparr>HttpDo := \<lambda>q e.
        (case deliver (bank_DepositSvcURL (BankA L env)) q of
           Some r \<Rightarrow> serve_deposit L RN (bank_service L env dep True) r e
         | None \<Rightarrow>
             (case deliver (bank_DepositSvcURL (BankB L env)) q of
                Some r \<Rightarrow> serve_deposit L RN (bank_service L env dep False) r e
              | None \<Rightarrow> HttpDo RN q e))\<rparr>)"

text \<open>The four base URLs: none is the beginning of another.\<close>

definition urls_apart :: "('sk, 'stx) lib \<Rightarrow> env \<Rightarrow> bool" where
  "urls_apart L env \<longleftrightarrow>
     distinct (service_urls L env) \<and>
     (\<forall>a \<in> set (service_urls L env). \<forall>b \<in> set (service_urls L env). a \<noteq> b \<longrightarrow> \<not> prefix a b)"

text \<open>
  Every URL a run of the demo asks for parses, those the deposit services post hashes to included.
\<close>

definition urls_parse :: "('sk, 'stx) lib \<Rightarrow> env \<Rightarrow> bool" where
  "urls_parse L env \<longleftrightarrow> demo_urls_parse L env \<and> url_parses (bank_SigningRouterURL (BankB L env) @ ''/sign'')"

definition routers_started :: "('sk, 'stx) lib \<Rightarrow> env \<Rightarrow> 'sk routers \<Rightarrow> bool" where
  "routers_started L env R \<longleftrightarrow>
     router_New L ''Bank A router'' [bank_KeyID (BankA L env)] = Ok (rs_A R) \<and>
     router_New L ''Bank B router'' [bank_KeyID (BankB L env)] = Ok (rs_B R)"

section \<open>Lemmas\<close>

lemma urls_parse_router: "urls_parse L env \<Longrightarrow> router_url_parses (bank_service L env dep issuer)"
  using demo_urls_parseD(8) [of L env] by (simp add: urls_parse_def router_url_parses_def bank_service_def)

lemma parallel_prefix:
  "prefix a (c :: 'a list) \<Longrightarrow> prefix b c \<Longrightarrow> prefix a b \<or> prefix b a"
  by (rule prefix_same_cases)

lemma deliver_own: "deliver base \<lparr>hq_method = m, hq_url = base @ p, hq_body = b\<rparr> \<noteq> None"
  by (simp add: deliver_def Let_def)

lemma deliver_path:
  assumes "CHR ''?'' \<notin> set p"
  shows "deliver base \<lparr>hq_method = m, hq_url = base @ p, hq_body = b\<rparr> =
           Some \<lparr>rq_method = m, rq_path = p, rq_query = query_value [], rq_body = b\<rparr>"
proof -
  from assms have whole: "takeWhile (\<lambda>c. c \<noteq> CHR ''?'') p = p" by (auto simp: takeWhile_eq_all_conv)
  show ?thesis by (simp add: deliver_def Let_def whole)
qed

lemma deliver_other:
  assumes "\<not> prefix a b" and "\<not> prefix b a"
  shows "deliver a \<lparr>hq_method = m, hq_url = b @ p, hq_body = body\<rparr> = None"
proof -
  have "\<not> prefix a (b @ p)"
  proof
    assume "prefix a (b @ p)"
    moreover have "prefix b (b @ p)" by simp
    ultimately have "prefix a b \<or> prefix b a" by (rule parallel_prefix)
    with assms show False by blast
  qed
  then show ?thesis by (simp add: deliver_def)
qed

text \<open>Who answers what, in both compositions.\<close>

lemma router_net_fields [simp]:
  "PendingNonceAt (router_net L env R N) = PendingNonceAt N"
  "HeaderByNumber (router_net L env R N) = HeaderByNumber N"
  "EstimateGas (router_net L env R N) = EstimateGas N"
  "SendTransaction (router_net L env R N) = SendTransaction N"
  "WaitMined (router_net L env R N) = WaitMined N"
  by (simp_all add: router_net_def)

lemma router_net_sign:
  assumes "urls_apart L env" and "bank \<in> {BankA L env, BankB L env}" and "R' = (if bank = BankA L env then rs_A R else rs_B R)"
  shows "HttpDo (router_net L env R N) \<lparr>hq_method = ''POST'', hq_url = bank_SigningRouterURL bank @ ''/sign'', hq_body = b\<rparr> e =
    (answer (handleSign L R' \<lparr>rq_method = ''POST'', rq_path = ''/sign'', rq_query = query_value [], rq_body = b\<rparr>), e)"
proof -
  let ?A = "bank_SigningRouterURL (BankA L env)" and ?B = "bank_SigningRouterURL (BankB L env)"
  from assms(1) have ap: "\<not> prefix ?A ?B" "\<not> prefix ?B ?A" by (auto simp: urls_apart_def service_urls_def)
  have ne: "BankB L env \<noteq> BankA L env" by (simp add: BankA_def BankB_def)
  have h: "router_Handler L ord s \<lparr>rq_method = ''POST'', rq_path = ''/sign'', rq_query = query_value [], rq_body = b\<rparr> =
      handleSign L s \<lparr>rq_method = ''POST'', rq_path = ''/sign'', rq_query = query_value [], rq_body = b\<rparr>" for ord s
    by (simp add: router_Handler_def router_mux_def mux_find_def pattern_method_def)
  show ?thesis
  proof (cases "bank = BankA L env")
    case True
    with assms(3) show ?thesis by (simp add: router_net_def deliver_path h)
  next
    case False
    with assms(2,3) show ?thesis
      by (simp add: router_net_def deliver_path deliver_other [OF ap] h)
  qed
qed

text \<open>What a granted signature is, when the bank's own router answers.\<close>

lemma router_net_grants:
  assumes "hexutil_ok L" and "urls_apart L env" and "routers_started L env R"
    and "s = bank_service L env dep issuer" and "router_granted L (router_net L env R N) s hash sig addr"
  shows "\<exists>k. loadKey L (bank_KeyID (sv_bank s)) = Ok k \<and> cryptoSign L hash (key_priv k) = Ok sig \<and>
             addr = AddressHex L (key_address k)"
proof -
  define R' where "R' = (if issuer then rs_A R else rs_B R)"
  have bank: "sv_bank s \<in> {BankA L env, BankB L env}" "R' = (if sv_bank s = BankA L env then rs_A R else rs_B R)"
    using assms(4) by (simp_all add: bank_service_def R'_def BankA_def BankB_def)
  obtain lbl where new: "router_New L lbl [bank_KeyID (sv_bank s)] = Ok R'"
    using assms(3,4) by (cases issuer) (auto simp: routers_started_def bank_service_def R'_def)
  let ?r = "\<lparr>rq_method = ''POST'', rq_path = ''/sign'', rq_query = query_value [],
      rq_body = Json (jmap [(''keyId'', JStr (bank_KeyID (sv_bank s))), (''hash'', JStr (hexutilEncode L hash))])\<rparr>"
  have body: "rq_body ?r = Json (JObj [(''hash'', JStr (hexutilEncode L hash)), (''keyId'', JStr (bank_KeyID (sv_bank s)))])"
    by (simp add: jmap_def)
  from assms(5) obtain e e' resp out where g: "HttpDo (router_net L env R N) (sign_http_req L s hash) e = (Ok resp, e')"
    "rs_status resp = 200" "decode_body sign_answer (rs_body resp) = (out, None)"
    "hexutilDecode L (str_field ''signature'' out) = Ok sig" "str_field ''address'' out = addr"
    by (auto simp: router_granted_def)
  from g(1) have "answer (handleSign L R' ?r) = Ok resp"
    by (simp add: sign_http_req_def router_net_sign [OF assms(2) bank])
  then have h: "handleSign L R' ?r = Done resp" by (cases "handleSign L R' ?r") simp_all
  from handleSign_200 [OF h g(2)] requested_client_body [OF body] hexutil_decode_encode [OF assms(1)]
  obtain k sig' where k: "rt_allowed R' (bank_KeyID (sv_bank s)) = Some k" "signHash L k hash = Ok sig'"
    "resp = writeJSON 200 (SignResponse (hexutilEncode L sig') (AddressHex L (key_address k)))" by auto
  have "loadKey L (bank_KeyID (sv_bank s)) = Ok k"
    using router_New_keys [OF new k(1)] .
  moreover have "sig = sig'" "addr = AddressHex L (key_address k)"
    using g(3-5) k(3) hexutil_decode_encode [OF assms(1)]
    by (auto simp: writeJSON_def SignResponse_def sign_answer_def decode_body_def match_field_def)
  ultimately show ?thesis using k(2) by (simp add: signHash_def)
qed

text \<open>A node that answers, and a library whose keys can sign.\<close>

definition node_ok :: "('e, 'stx) net \<Rightarrow> bool" where
  "node_ok N \<longleftrightarrow>
     (\<forall>e. (\<forall>a. is_ok (fst (PendingNonceAt N a e))) \<and> is_ok (fst (HeaderByNumber N e)) \<and>
          (\<forall>t. is_ok (fst (SendTransaction N t e)) \<and> is_ok (fst (WaitMined N t e))))"

definition signing_ok :: "('sk, 'stx) lib \<Rightarrow> bool" where
  "signing_ok L \<longleftrightarrow>
     (\<forall>h k. length h = 32 \<longrightarrow> is_ok (cryptoSign L h k)) \<and>
     (\<forall>tx k sig. cryptoSign L (SignerHash L tx) k = Ok sig \<longrightarrow> is_ok (WithSignature L tx sig))"

lemma router_net_routerSign:
  assumes "hexutil_ok L" and "urls_apart L env" and "routers_started L env R"
    and "s = bank_service L env dep issuer" and "length hash = 32" and "signing_ok L" and "urls_parse L env"
  obtains k sig v where "loadKey L (bank_KeyID (sv_bank s)) = Ok k" "cryptoSign L hash (key_priv k) = Ok sig"
    "routerSign L (router_net L env R N) s hash w = (Done (Ok (sig, AddressHex L (key_address k))), v)" "w_env v = w_env w"
proof -
  define R' where "R' = (if issuer then rs_A R else rs_B R)"
  have bank: "sv_bank s \<in> {BankA L env, BankB L env}" "R' = (if sv_bank s = BankA L env then rs_A R else rs_B R)"
    using assms(4) by (simp_all add: bank_service_def R'_def BankA_def BankB_def)
  obtain lbl where new: "router_New L lbl [bank_KeyID (sv_bank s)] = Ok R'"
    using assms(3,4) by (cases issuer) (auto simp: routers_started_def bank_service_def R'_def)
  from router_New_holds [OF new, of "bank_KeyID (sv_bank s)"] obtain k where
    k: "rt_allowed R' (bank_KeyID (sv_bank s)) = Some k" by (auto simp: router_holds_def)
  from assms(5,6) have "is_ok (cryptoSign L hash (key_priv k))" unfolding signing_ok_def by blast
  then obtain sig where sig: "cryptoSign L hash (key_priv k) = Ok sig" by (auto simp: is_ok_iff)
  have "handleSign L R' \<lparr>rq_method = ''POST'', rq_path = ''/sign'', rq_query = query_value [],
      rq_body = Json (jmap [(''keyId'', JStr (bank_KeyID (sv_bank s))), (''hash'', JStr (hexutilEncode L hash))])\<rparr> =
      Done (writeJSON 200 (SignResponse (hexutilEncode L sig) (AddressHex L (key_address k))))"
    by (rule handleSign_serves [OF assms(1) requested_client_body(1) k requested_client_body(2) assms(5) sig])
      (simp_all add: jmap_def)
  then have q: "HttpDo (router_net L env R N) (sign_http_req L s hash) e =
      (Ok (writeJSON 200 (SignResponse (hexutilEncode L sig) (AddressHex L (key_address k)))), e)" for e
    by (simp add: sign_http_req_def router_net_sign [OF assms(2) bank])
  have "router_url_parses s" using urls_parse_router [OF assms(7)] assms(4) by simp
  then have "\<exists>v. routerSign L (router_net L env R N) s hash w = (Done (Ok (sig, AddressHex L (key_address k))), v) \<and> w_env v = w_env w"
    by (simp add: routerSign_def sign_response_def http_call_parses net_call_def q writeJSON_def SignResponse_def
        decode_body_def sign_answer_def match_field_def hexutil_decode_encode [OF assms(1)])
  with router_New_keys [OF new k] sig show thesis using that by blast
qed

lemma net_call_ok:
  assumes "\<forall>e. is_ok (fst (f e))"
  obtains x v where "net_call ev f w = (Ok x, v)"
  using assms unfolding net_call_def by (cases "f (w_env w)") (auto simp: is_ok_iff, metis fst_conv)

lemma wired_write_succeeds:
  assumes "hexutil_ok L" and "signer_ok L" and "signing_ok L" and "urls_apart L env"
    and "routers_started L env R" and "node_ok N" and "s = bank_service L env dep issuer" and "urls_parse L env"
  shows "\<exists>x w' k. buildSignBroadcast L (router_net L env R N) s op to data w = (Done (Ok x), w') \<and> tr_Op x = op \<and>
           loadKey L (bank_KeyID (sv_bank s)) = Ok k \<and> tr_SignedBy x = AddressHex L (key_address k)"
proof -
  let ?N = "router_net L env R N" and ?a = "bank_Address (sv_bank s)" and ?m = "est_msg s to data"
  from assms(6) have ok: "\<forall>e. is_ok (fst (PendingNonceAt N ?a e))" "\<forall>e. is_ok (fst (HeaderByNumber N e))"
    "\<forall>e. is_ok (fst (SendTransaction N t e))" "\<forall>e. is_ok (fst (WaitMined N t e))" for t
    unfolding node_ok_def by blast+
  obtain nonce w1 where c1: "net_call (ENonce ?a) (PendingNonceAt N ?a) w = (Ok nonce, w1)"
    by (rule net_call_ok [OF ok(1)])
  obtain head w2 where c2: "net_call EHead (HeaderByNumber N) w1 = (Ok head, w2)"
    by (rule net_call_ok [OF ok(2)])
  obtain est w3 where c3: "net_call (EEstimate ?m) (EstimateGas N ?m) w2 = (est, w3)" by fastforce
  define tx where "tx = unsigned_tx nonce (base_fee head) (ok_or 800000 est) to data"
  have "length (SignerHash L tx) = 32" using assms(2) by (simp add: signer_ok_def)
  then obtain k sig w4 where k: "loadKey L (bank_KeyID (sv_bank s)) = Ok k"
    and sig: "cryptoSign L (SignerHash L tx) (key_priv k) = Ok sig"
    and c4: "routerSign L ?N s (SignerHash L tx) w3 = (Done (Ok (sig, AddressHex L (key_address k))), w4)"
    using router_net_routerSign [OF assms(1,4,5,7) _ assms(3,8)] by blast
  from assms(3) sig have "is_ok (WithSignature L tx sig)" unfolding signing_ok_def by blast
  then obtain stx where stx: "WithSignature L tx sig = Ok stx" by (auto simp: is_ok_iff)
  obtain u w5 where c5: "net_call (ESend stx) (SendTransaction N stx) w4 = (Ok u, w5)"
    by (rule net_call_ok [OF ok(3)])
  obtain rc w6 where c6: "net_call (EWait stx) (WaitMined N stx) w5 = (Ok rc, w6)"
    by (rule net_call_ok [OF ok(4)])
  from c1 c2 c3 c4 have "buildSignBroadcast L ?N s op to data w =
      (case assembleBroadcast L ?N op tx sig (AddressHex L (key_address k)) w4 of (r, w) \<Rightarrow> (Done r, w))"
    by (simp add: buildSignBroadcast_def Let_def tx_def)
  with stx c5 c6 k show ?thesis by (simp add: assembleBroadcast_def)
qed

section \<open>The sample system\<close>

definition sample_routers :: "string routers" where
  "sample_routers =
     \<lparr>rs_A = sample_router ''Bank A router'' ''key://bank-a/issuer'',
      rs_B = sample_router ''Bank B router'' ''key://bank-b/holder'', rs_ord = (\<lambda>_. [])\<rparr>"

lemma sample_urls_apart: "urls_apart sample_lib empty_env"
  by (simp add: urls_apart_def service_urls_def BankA_def BankB_def empty_env_def)

lemma sample_urls_parse: "urls_parse sample_lib empty_env"
proof -
  have "bank_SigningRouterURL (BankB sample_lib empty_env) = ''http://localhost:7402''" by (simp add: BankB_def empty_env_def)
  then show ?thesis using sample_demo_urls_parse by (simp add: urls_parse_def url_simps)
qed

lemma sample_routers_started: "routers_started sample_lib empty_env sample_routers"
  unfolding routers_started_def
  using sample_router_New [OF sample_keys(1)] sample_router_New [OF sample_keys(2)]
  by (simp add: sample_routers_def BankA_def BankB_def)

lemma sample_signing_ok: "signing_ok sample_lib"
proof -
  have "cryptoSign sample_lib h k = (if length h = 32 then Ok (h @ key_bytes k @ [0])
      else Err ''hash is required to be exactly 32 bytes'')"
    and "WithSignature sample_lib tx sig = (if length sig = 65 then Ok (tx, sig) else Err ''wrong size for signature'')"
    for h k tx sig by (simp_all add: sample_lib_def)
  then show ?thesis by (auto simp: signing_ok_def split: if_splits)
qed

lemma sample_node_ok: "node_ok sample_net"
  by (simp add: node_ok_def sample_net_def)

section \<open>Properties\<close>

text \<open>
  C2. Key isolation end to end: when both routers were started with their own bank's key and the
  services are wired as configured, every transaction a bank's service ever broadcasts in a
  write carries a signature made with that bank's own key, over the hash of exactly that
  transaction, whatever the node does.
\<close>

theorem banks_sign_with_their_own_key:
  assumes "hexutil_ok L" and "urls_apart L env" and "routers_started L env R"
    and "s = bank_service L env dep issuer"
    and "buildSignBroadcast L (router_net L env R N) s op to data w = (r, w')"
    and "emits w w' es" and "t \<in> set (sent es)"
  shows "\<exists>tx sig k. WithSignature L tx sig = Ok t \<and> loadKey L (bank_KeyID (sv_bank s)) = Ok k \<and>
           cryptoSign L (SignerHash L tx) (key_priv k) = Ok sig \<and> tx_To tx = to \<and> tx_Data tx = data"
  using assms(5)
proof (cases rule: buildSignBroadcast_sent)
  case (none fs)
  from emits_unique [OF assms(6) none(1)] none(2) assms(7) show ?thesis by simp
next
  case (one fs u)
  from emits_unique [OF assms(6) one(1)] one(2) assms(7) have "u = t" by simp
  with one(3) obtain tx sig addr where tx: "WithSignature L tx sig = Ok t" "tx_To tx = to" "tx_Data tx = data"
    "router_granted L (router_net L env R N) s (SignerHash L tx) sig addr"
    unfolding signed_for_def by blast
  from router_net_grants [OF assms(1-4) tx(4)] tx(1-3) show ?thesis by blast
qed

theorem banks_sign_with_their_own_key_witness:
  "\<exists>es t k sig tx. sent es = [t] \<and> WithSignature sample_lib tx sig = Ok t \<and>
     loadKey sample_lib ''key://bank-b/holder'' = Ok k \<and> cryptoSign sample_lib (SignerHash sample_lib tx) (key_priv k) = Ok sig"
proof -
  define s where "s = bank_service sample_lib empty_env sample_dep False"
  obtain r w' where run: "buildSignBroadcast sample_lib (router_net sample_lib empty_env sample_routers sample_net) s
      ''transfer'' 9 [1] sample_world = (r, w')" by fastforce
  have "returned r"
    using wired_write_succeeds [OF sample_hexutil_ok sample_signer_ok sample_signing_ok sample_urls_apart
        sample_routers_started sample_node_ok s_def sample_urls_parse, of "''transfer''" 9 "[1]" sample_world] run by auto
  with run obtain es t where es: "emits sample_world w' es" "sent es = [t]"
    by (cases rule: buildSignBroadcast_sent) auto
  have key: "bank_KeyID (sv_bank s) = ''key://bank-b/holder''" by (simp add: s_def bank_service_def BankB_def)
  have "t \<in> set (sent es)" by (simp add: es(2))
  from banks_sign_with_their_own_key [OF sample_hexutil_ok sample_urls_apart sample_routers_started s_def run es(1) this]
  obtain tx sig k where "WithSignature sample_lib tx sig = Ok t" "loadKey sample_lib ''key://bank-b/holder'' = Ok k"
    "cryptoSign sample_lib (SignerHash sample_lib tx) (key_priv k) = Ok sig"
    unfolding key by blast
  with es(2) show ?thesis by blast
qed

text \<open>
  The wired system works: when the node answers and the library can sign, every write of a
  bank's service comes back with a result, and the signer it reports is the address of that
  bank's own key.
\<close>

lemma wired_writes_succeed:
  assumes "hexutil_ok L" and "signer_ok L" and "signing_ok L" and "urls_apart L env"
    and "routers_started L env R" and "node_ok N" and "s = bank_service L env dep issuer" and "urls_parse L env"
  shows "\<exists>x w' k. buildSignBroadcast L (router_net L env R N) s op to data w = (Done (Ok x), w') \<and> tr_Op x = op \<and>
           loadKey L (bank_KeyID (sv_bank s)) = Ok k \<and> tr_SignedBy x = AddressHex L (key_address k)"
  using assms by (rule wired_write_succeeds)

section \<open>The demo's isolation checks\<close>

definition printed :: "'stx event list \<Rightarrow> string list" where
  "printed es = List.map_filter (\<lambda>e. case e of EPrint t \<Rightarrow> Some t | _ \<Rightarrow> None) es"

lemma printed_simps [simp]:
  "printed [] = []" "printed (EPrint t # es) = t # printed es" "printed (EHttp q # es) = printed es"
  by (simp_all add: printed_def map_filter_simps)

lemma demo_net_mint:
  assumes "urls_apart L env"
  shows "\<exists>x e'. HttpDo (demo_net L env R dep N) (post_req (bank_DepositSvcURL (BankB L env) @ ''/mint'') b) e = (Ok x, e') \<and>
           rs_status x = 400"
proof -
  let ?A = "bank_DepositSvcURL (BankA L env)" and ?B = "bank_DepositSvcURL (BankB L env)"
  from assms have ap: "\<not> prefix ?A ?B" "\<not> prefix ?B ?A" by (auto simp: urls_apart_def service_urls_def)
  let ?r = "\<lparr>rq_method = ''POST'', rq_path = ''/mint'', rq_query = query_value [], rq_body = Json b\<rparr>"
  have "bank_Role (sv_bank (bank_service L env dep False)) \<noteq> RoleIssuer"
    by (simp add: bank_service_def BankB_def RoleHolder_def RoleIssuer_def)
  from holder_mint_refused [OF this, of ?r L "router_net L env R N" "\<lparr>w_env = e, w_trace = []\<rparr>"]
  obtain x where "deposit_Handler L (router_net L env R N) (bank_service L env dep False) ?r \<lparr>w_env = e, w_trace = []\<rparr> =
      (Done x, \<lparr>w_env = e, w_trace = []\<rparr>)" "rs_status x = 400" by auto
  then show ?thesis
    by (simp add: demo_net_def post_req_def Let_def deliver_path deliver_other [OF ap] serve_deposit_def)
qed

lemma demo_net_wrong_key:
  assumes "urls_apart L env" and "routers_started L env R"
  shows "\<exists>x. HttpDo (demo_net L env R dep N) (wrong_key_req L env) e = (Ok x, e) \<and> rs_status x = 403"
proof -
  let ?RA = "bank_SigningRouterURL (BankA L env)"
  define b where "b = Json (jmap [(''keyId'', JStr (bank_KeyID (BankB L env))), (''hash'', JStr (''0x'' @ strings_Repeat ''11'' 32))])"
  have req: "wrong_key_req L env = \<lparr>hq_method = ''POST'', hq_url = ?RA @ ''/sign'', hq_body = b\<rparr>"
    by (simp only: wrong_key_req_def b_def)
  let ?r = "\<lparr>rq_method = ''POST'', rq_path = ''/sign'', rq_query = query_value [], rq_body = b\<rparr>"
  have out: "deliver u \<lparr>hq_method = ''POST'', hq_url = ?RA @ ''/sign'', hq_body = b\<rparr> = None"
    if "u \<in> {bank_DepositSvcURL (BankA L env), bank_DepositSvcURL (BankB L env)}" for u
    using assms(1) that by (intro deliver_other) (auto simp: urls_apart_def service_urls_def)
  have key: "requested_key ?r = Some (bank_KeyID (BankB L env))"
    by (rule requested_client_body(1)) (simp add: b_def jmap_def)
  have "\<not> router_holds (rs_A R) (bank_KeyID (BankB L env))"
    using assms(2) by (auto simp: routers_started_def router_New_holds) (simp add: BankA_def BankB_def)
  from handleSign_unheld [OF key this, of L] obtain x where "handleSign L (rs_A R) ?r = Done x" "rs_status x = 403"
    by (metis rs_status_writeErr)
  moreover have "HttpDo (router_net L env R N) \<lparr>hq_method = ''POST'', hq_url = ?RA @ ''/sign'', hq_body = b\<rparr> e =
      (answer (handleSign L (rs_A R) ?r), e)"
    by (rule router_net_sign [OF assms(1)]) simp_all
  ultimately show ?thesis
    by (simp add: demo_net_def req Let_def out)
qed

lemma run_printf [simp]:
  "run_state (printf t) v = ((), \<lparr>w_env = w_env v, w_trace = w_trace v @ [EPrint t]\<rparr>)"
  by (simp add: printf_def act_def net_call_def)

text \<open>
  The demo's two isolation checks pass in the system it describes: with the routers started
  with one key each and the four services at distinct URLs, the last step prints the green line
  for Bank B's refused mint and the green line for the 403 of Bank A's router, whatever the node
  does and whatever the supplies are.
\<close>

lemma demo_isolation_checks_pass:
  assumes "urls_apart L env" and "routers_started L env R" and "demo_urls_parse L env"
  shows "\<exists>w' es e. run_state (checks L (demo_net L env R dep N) env supply rl) w = (Done (), w') \<and> emits w w' es \<and>
           take 3 (drop 1 (printed es)) = [reconcile_line supply rl, mint_check_line (Some e), key_check_line 403]"
proof -
  let ?N = "demo_net L env R dep N"
  let ?m = "post_req (bank_DepositSvcURL (BankB L env) @ ''/mint'') (to_amount_json (bankB_hex L env) ''1'')"
  have "\<exists>y e u. run_state (postJSON L ?N (bank_DepositSvcURL (BankB L env) @ ''/mint'') (jmap [(''to'', JStr (bankB_hex L env)), (''amount'', JStr ''1'')]) (SStruct [])) v =
      (Done (y, Some e), \<lparr>w_env = u, w_trace = w_trace v @ [EHttp ?m]\<rparr>)" for v
    using demo_net_mint [OF assms(1), of R dep N "to_amount_json (bankB_hex L env) ''1''" "w_env v"] demo_urls_parseD(7) [OF assms(3)]
    by (auto simp: postJSON_def proceed_def http_do_run post_req_def to_amount_json_def post_answer_def Let_def)
  then obtain y e u where po: "\<And>v. run_state (postJSON L ?N (bank_DepositSvcURL (BankB L env) @ ''/mint'') (jmap [(''to'', JStr (bankB_hex L env)), (''amount'', JStr ''1'')]) (SStruct [])) v =
      (Done (y v, Some (e v)), \<lparr>w_env = u v, w_trace = w_trace v @ [EHttp ?m]\<rparr>)"
    by metis
  have si: "run_state (signWithWrongKey L ?N env) v =
      (Done 403, \<lparr>w_env = w_env v, w_trace = w_trace v @ [EHttp (wrong_key_req L env)]\<rparr>)" for v
    using demo_net_wrong_key [OF assms(1,2), of dep N "w_env v"] demo_urls_parseD(8) [OF assms(3)]
    by (auto simp: signWithWrongKey_def proceed_def http_do_run wrong_key_req_def)
  show ?thesis
    by (simp add: checks_def proceed_def po si emits_def, rule exI, rule refl)
qed

end
