(* ===== verification/Boot.thy ===== *)
theory Boot
  imports Network
begin

text \<open>
  Starting the system: the demo spawns the two routers and the two deposit services, each with
  variables of its own added to the environment it inherits, and every child runs its \<open>main\<close> in
  that environment. This discharges the hypothesis \<open>routers_started\<close> of Network from the code
  that does the starting.
\<close>

section \<open>A child's environment\<close>

text \<open>os/exec: the parent's environment with the entries KEY=value added, the last one winning.\<close>

definition child_env :: "env \<Rightarrow> string list \<Rightarrow> env" where
  "child_env env vars k =
     (case find (\<lambda>kv. takeWhile (\<lambda>c. c \<noteq> CHR ''='') kv = k) (rev vars) of
        Some kv \<Rightarrow> drop (length k + 1) kv
      | None \<Rightarrow> env k)"

definition spawned :: "'stx event list \<Rightarrow> (string \<times> string list) list" where
  "spawned es = List.map_filter (\<lambda>e. case e of ESpawn p vs \<Rightarrow> Some (p, vs) | _ \<Rightarrow> None) es"

lemma spawned_simps [simp]:
  "spawned [] = []" "spawned (ESpawn p vs # es) = (p, vs) # spawned es" "spawned (EPrint t # es) = spawned es"
  "spawned (es @ fs) = spawned es @ spawned fs"
  by (simp_all add: spawned_def map_filter_simps) (simp add: List.map_filter_def)

definition router_vars :: "bank \<Rightarrow> string \<Rightarrow> string list" where
  "router_vars b lbl =
     [''PORT='' @ big_String (bank_SigningRouterPort b), ''LABEL='' @ lbl, ''ROUTER_KEYS='' @ bank_KeyID b]"

definition deposit_vars :: "bank \<Rightarrow> string list" where
  "deposit_vars b = [''BANK_ID='' @ bank_ID b]"

lemma child_env_router:
  "child_env env (router_vars b lbl) ''PORT'' = big_String (bank_SigningRouterPort b)"
  "child_env env (router_vars b lbl) ''LABEL'' = lbl"
  "child_env env (router_vars b lbl) ''ROUTER_KEYS'' = bank_KeyID b"
  by (simp_all add: child_env_def router_vars_def)

lemma child_env_deposit:
  "child_env env (deposit_vars b) ''BANK_ID'' = bank_ID b"
  "k \<noteq> ''BANK_ID'' \<Longrightarrow> child_env env (deposit_vars b) k = env k"
  by (auto simp: child_env_def deposit_vars_def)

text \<open>A deposit service reads the same bank table as its parent.\<close>

lemma banks_child_env:
  "BankA L (child_env env (deposit_vars b)) = BankA L env"
  "BankB L (child_env env (deposit_vars b)) = BankB L env"
  "RPCURL (child_env env (deposit_vars b)) = RPCURL env"
  by (simp_all add: BankA_def BankB_def RPCURL_def envOr_def child_env_deposit)

section \<open>What is spawned\<close>

lemma spawn_spawned:
  "io_spec (spawn H dir bin vars) (\<lambda>_ es. spawned es = [(filepath_Join [dir, bin], vars)])"
proof (rule io_specI)
  fix w r w' assume run: "run_state (spawn H dir bin vars) w = (r, w')"
  obtain x e where s: "hs_start H (filepath_Join [dir, bin]) vars (w_env w) = (x, e)" by fastforce
  show "\<exists>es. emits w w' es \<and> spawned es = [(filepath_Join [dir, bin], vars)]"
  proof (cases x)
    case (Ok u)
    with run s show ?thesis
      by (intro exI [of _ "[ESpawn (filepath_Join [dir, bin]) vars]"]) (auto simp: spawn_def act_def net_call_def emits_def)
  next
    case (Err t)
    with run s show ?thesis
      by (intro exI [of _ "[ESpawn (filepath_Join [dir, bin]) vars,
            EPrint (red @ ''  '' @ cross_mark @ '' failed to start '' @ bin @ '': '' @ t @ reset @ nl)]"])
        (auto simp: spawn_def act_def net_call_def emits_def printf_def)
  qed
qed

lemma spawn_services_spawned:
  "io_spec (spawn_services L H env dir) (\<lambda>_ es. spawned es =
     [(filepath_Join [dir, ''signing-router''], router_vars (BankA L env) ''Bank A router''),
      (filepath_Join [dir, ''signing-router''], router_vars (BankB L env) ''Bank B router''),
      (filepath_Join [dir, ''deposit-svc''], deposit_vars (BankA L env)),
      (filepath_Join [dir, ''deposit-svc''], deposit_vars (BankB L env))])"
  unfolding spawn_services_def Let_def
  by (rule io_bind, rule spawn_spawned, rule io_bind, rule spawn_spawned, rule io_bind, rule spawn_spawned,
      rule io_bind, rule spawn_spawned, rule io_return)
    (simp add: router_vars_def deposit_vars_def)

section \<open>What the children become\<close>

lemma key_entries:
  "split_keys (strings_Split (CHR '','') ''key://bank-a/issuer'') = [''key://bank-a/issuer'']"
  "split_keys (strings_Split (CHR '','') ''key://bank-b/holder'') = [''key://bank-b/holder'']"
  by code_simp+

lemma port_back: "0 \<le> p \<Longrightarrow> p < 2 ^ 63 \<Longrightarrow> fst (strconv_Atoi (big_String p)) = p"
  by (simp add: strconv_Atoi_def big_SetString_String)

lemma port_text: "big_String p \<noteq> []"
  by (simp add: big_String_def)

lemma bank_consts:
  "bank_KeyID (BankA L env) = ''key://bank-a/issuer''" "bank_KeyID (BankB L env) = ''key://bank-b/holder''"
  "bank_SigningRouterPort (BankA L env) = 7401" "bank_SigningRouterPort (BankB L env) = 7402"
  by (simp_all add: BankA_def BankB_def)

lemma bank_key_entries:
  "split_keys (strings_Split (CHR '','') (bank_KeyID (BankA L env))) = [bank_KeyID (BankA L env)]"
  "split_keys (strings_Split (CHR '','') (bank_KeyID (BankB L env))) = [bank_KeyID (BankB L env)]"
  unfolding bank_consts key_entries by (rule refl)+

lemma spawned_router:
  assumes "split_keys (strings_Split (CHR '','') (bank_KeyID b)) = [bank_KeyID b]"
    and "0 \<le> bank_SigningRouterPort b" and "bank_SigningRouterPort b < 2 ^ 63"
    and "is_ok (loadKey L (bank_KeyID b))" and "lbl \<noteq> []"
  obtains R where "router_main L (child_env env (router_vars b lbl)) = Ok (bank_SigningRouterPort b, R)"
    "router_New L lbl [bank_KeyID b] = Ok R"
proof -
  from assms(4) obtain R where R: "router_New L lbl [bank_KeyID b] = Ok R" by (auto simp: router_New_Ok_iff)
  with assms(1-3,5) show thesis
    by (intro that [of R]) (simp_all add: router_main_def router_Run_def child_env_router port_back port_text)
qed

lemma spawned_deposit:
  assumes "dial (RPCURL env) = Ok ()" and "b \<in> {BankA L env, BankB L env}"
  shows "deposit_main L (child_env env (deposit_vars b)) (Ok dep) dial =
           Ok (if env ''PORT'' \<noteq> [] then fst (strconv_Atoi (env ''PORT'')) else bank_DepositSvcPort b,
               \<lparr>sv_bank = b, sv_dep = dep\<rparr>)"
proof -
  let ?e = "child_env env (deposit_vars b)"
  have "Banks L ?e (bank_ID b) = Some b"
    using assms(2) by (auto simp: Banks_iff banks_child_env) (simp_all add: BankA_def BankB_def)
  moreover have "?e ''BANK_ID'' = bank_ID b" "?e ''PORT'' = env ''PORT''"
    by (simp_all add: child_env_deposit)
  ultimately show ?thesis
    using assms(1) by (simp add: deposit_main_def deposit_Run_def service_New_def banks_child_env Let_def)
qed

section \<open>Property\<close>

text \<open>
  C24. The demo boots the system whose isolation is proved: whatever the host answers, it spawns
  two routers and two deposit services in this order, with environments under which the routers
  come up on their configured ports holding only their own bank's key, and the deposit services
  come up as the issuer's and the holder's. The deposit services get their own ports only when
  the demo itself was started without PORT: it is inherited, and then both take the same one.
\<close>

theorem demo_boots_the_isolated_system:
  assumes "keystore_ok L" and "dial (RPCURL env) = Ok ()"
    and "run_state (spawn_services L H env dir) w = (ps, w')"
  shows "\<exists>es va vb vc vd RA RB. emits w w' es \<and>
     spawned es = [(filepath_Join [dir, ''signing-router''], va), (filepath_Join [dir, ''signing-router''], vb),
                   (filepath_Join [dir, ''deposit-svc''], vc), (filepath_Join [dir, ''deposit-svc''], vd)] \<and>
     router_main L (child_env env va) = Ok (bank_SigningRouterPort (BankA L env), RA) \<and>
     router_main L (child_env env vb) = Ok (bank_SigningRouterPort (BankB L env), RB) \<and>
     routers_started L env \<lparr>rs_A = RA, rs_B = RB, rs_ord = ord\<rparr> \<and>
     deposit_main L (child_env env vc) (Ok dep) dial =
       Ok (if env ''PORT'' = [] then bank_DepositSvcPort (BankA L env) else fst (strconv_Atoi (env ''PORT'')),
           bank_service L env dep True) \<and>
     deposit_main L (child_env env vd) (Ok dep) dial =
       Ok (if env ''PORT'' = [] then bank_DepositSvcPort (BankB L env) else fst (strconv_Atoi (env ''PORT'')),
           bank_service L env dep False)"
proof -
  let ?A = "BankA L env" and ?B = "BankB L env"
  have k: "is_ok (loadKey L (bank_KeyID ?A))" "is_ok (loadKey L (bank_KeyID ?B))"
    using loadKey_ok [OF assms(1)] by (simp_all add: dom_keystore bank_consts)
  obtain RA where A: "router_main L (child_env env (router_vars ?A ''Bank A router'')) = Ok (bank_SigningRouterPort ?A, RA)"
    "router_New L ''Bank A router'' [bank_KeyID ?A] = Ok RA"
    by (rule spawned_router [OF bank_key_entries(1) _ _ k(1), of "''Bank A router''" env]) (simp_all add: bank_consts)
  obtain RB where B: "router_main L (child_env env (router_vars ?B ''Bank B router'')) = Ok (bank_SigningRouterPort ?B, RB)"
    "router_New L ''Bank B router'' [bank_KeyID ?B] = Ok RB"
    by (rule spawned_router [OF bank_key_entries(2) _ _ k(2), of "''Bank B router''" env]) (simp_all add: bank_consts)
  have "routers_started L env \<lparr>rs_A = RA, rs_B = RB, rs_ord = ord\<rparr>"
    using A(2) B(2) by (simp add: routers_started_def)
  moreover have "deposit_main L (child_env env (deposit_vars b)) (Ok dep) dial =
      Ok (if env ''PORT'' = [] then bank_DepositSvcPort b else fst (strconv_Atoi (env ''PORT'')), \<lparr>sv_bank = b, sv_dep = dep\<rparr>)"
    if "b \<in> {?A, ?B}" for b using spawned_deposit [where dial = dial and env = env, OF assms(2) that] by simp
  ultimately show ?thesis
    using io_specD [OF spawn_services_spawned assms(3)] A(1) B(1)
    by (auto simp: bank_service_def)
qed

lemma sample_keystore_ok: "keystore_ok sample_lib"
  by (auto simp: keystore_ok_def keystore_def sample_lib_def split: if_splits)

theorem demo_boots_the_isolated_system_witness:
  "\<exists>ps w' es. run_state (spawn_services sample_lib sample_host empty_env ''/bin'') sample_world = (ps, w') \<and>
     emits sample_world w' es \<and> length (spawned es) = 4"
proof -
  obtain ps w' where r: "run_state (spawn_services sample_lib sample_host empty_env ''/bin'') sample_world = (ps, w')"
    by fastforce
  have "(\<lambda>_. Ok ()) (RPCURL empty_env) = Ok ()" by simp
  from demo_boots_the_isolated_system [OF sample_keystore_ok this r, of undefined sample_dep]
  obtain es va vb vc vd where "emits sample_world w' es" "spawned es = [(filepath_Join [''/bin'', ''signing-router''], va),
      (filepath_Join [''/bin'', ''signing-router''], vb), (filepath_Join [''/bin'', ''deposit-svc''], vc), (filepath_Join [''/bin'', ''deposit-svc''], vd)]" by blast
  then have "length (spawned es) = 4" by simp
  with r \<open>emits sample_world w' es\<close> show ?thesis by blast
qed

end
