(* ===== verification/Completion.thy ===== *)
theory Completion
  imports Boot
begin

text \<open>
  The whole demo against the whole system: with the services wired as configured and a node that
  answers, every step of the scenario is answered and the run succeeds. \<open>returns m Q\<close> says that
  whatever the world, \<open>m\<close> returns a value with \<open>Q\<close>; its rules follow the monad, one lemma per
  request of the scenario.
\<close>

section \<open>Results of a program\<close>

definition returns :: "('e, 'stx, 'a) io \<Rightarrow> ('a \<Rightarrow> bool) \<Rightarrow> bool" where
  "returns m Q \<longleftrightarrow> (\<forall>w. Q (fst (run_state m w)))"

lemma returnsI: "(\<And>w. Q (fst (run_state m w))) \<Longrightarrow> returns m Q"
  by (simp add: returns_def)

lemma returns_any: "returns m (\<lambda>_. True)"
  by (simp add: returns_def)

lemma returns_return: "Q x \<Longrightarrow> returns (State_Monad.return x) Q"
  by (simp add: returns_def)

lemma returns_bind: "returns m P \<Longrightarrow> (\<And>x. P x \<Longrightarrow> returns (f x) Q) \<Longrightarrow> returns (State_Monad.bind m f) Q"
  by (auto simp: returns_def split: prod.split) (metis fst_conv)

lemma returns_then: "returns k Q \<Longrightarrow> returns (State_Monad.bind m (\<lambda>_. k)) Q"
  by (rule returns_bind [OF returns_any])

lemma returns_guard: "returns k Q \<Longrightarrow> e = None \<Longrightarrow> returns (guard_ok e k) Q"
  by (simp add: guard_ok_def)

text \<open>A step that does not panic and gives a value with \<open>P\<close>.\<close>

definition gives :: "('e, 'stx, 'a outcome) io \<Rightarrow> ('a \<Rightarrow> bool) \<Rightarrow> bool" where
  "gives m P \<longleftrightarrow> returns m (\<lambda>r. \<exists>x. r = Done x \<and> P x)"

lemma gives_return: "P x \<Longrightarrow> gives (State_Monad.return (Done x)) P"
  unfolding gives_def by (rule returns_return) simp

lemma returns_proceed: "gives m P \<Longrightarrow> (\<And>x. P x \<Longrightarrow> returns (f x) Q) \<Longrightarrow> returns (proceed m f) Q"
  unfolding gives_def proceed_def by (erule returns_bind) auto

lemma gives_proceed: "gives m P \<Longrightarrow> (\<And>x. P x \<Longrightarrow> gives (f x) Q) \<Longrightarrow> gives (proceed m f) Q"
  unfolding gives_def [of "proceed m f"] gives_def [of "f _"] by (rule returns_proceed)

lemma gives_then: "gives k Q \<Longrightarrow> gives (State_Monad.bind m (\<lambda>_. k)) Q"
  unfolding gives_def by (rule returns_then)

lemma gives_http_do:
  "url_parses (hq_url q) \<Longrightarrow> (\<And>e. \<exists>r e'. HttpDo N q e = (Ok r, e') \<and> P r) \<Longrightarrow> gives (http_do N q) (\<lambda>x. \<exists>r. x = Ok r \<and> P r)"
  unfolding gives_def by (rule returnsI) (simp add: http_do_run, metis fst_conv)

lemma calm_gives: "calm ok m \<Longrightarrow> ok \<Longrightarrow> gives m (\<lambda>_. True)"
  unfolding gives_def calm_def
proof (rule returnsI, goal_cases)
  case (1 w)
  obtain r w' where run: "run_state m w = (r, w')" by fastforce
  from io_specD [OF 1(1) run] 1(2) have "r \<noteq> Panic" by auto
  with run show ?case by (cases r) auto
qed

section \<open>Who answers\<close>

text \<open>A bank's deposit service, by whether it is the issuer's.\<close>

definition bank_of :: "('sk, 'stx) lib \<Rightarrow> env \<Rightarrow> bool \<Rightarrow> bank" where
  "bank_of L env issuer = (if issuer then BankA L env else BankB L env)"

lemma sv_bank_service [simp]: "sv_bank (bank_service L env dep issuer) = bank_of L env issuer"
  "sv_dep (bank_service L env dep issuer) = dep"
  by (simp_all add: bank_service_def bank_of_def)

lemma demo_net_deposit:
  assumes "urls_apart L env" and "CHR ''?'' \<notin> set p"
  shows "HttpDo (demo_net L env R dep N) \<lparr>hq_method = m, hq_url = bank_DepositSvcURL (bank_of L env issuer) @ p, hq_body = b\<rparr> e =
           serve_deposit L (router_net L env R N) (bank_service L env dep issuer)
             \<lparr>rq_method = m, rq_path = p, rq_query = query_value [], rq_body = b\<rparr> e"
proof -
  from assms(1) have "\<not> prefix (bank_DepositSvcURL (BankA L env)) (bank_DepositSvcURL (BankB L env))"
    "\<not> prefix (bank_DepositSvcURL (BankB L env)) (bank_DepositSvcURL (BankA L env))"
    by (auto simp: urls_apart_def service_urls_def)
  then show ?thesis
    using assms(2) by (cases issuer) (simp_all add: demo_net_def Let_def bank_of_def deliver_path deliver_other)
qed

lemma demo_net_router_health:
  assumes "urls_apart L env" and "u = bank_SigningRouterURL (bank_of L env issuer)"
  shows "\<exists>x. HttpDo (demo_net L env R dep N) \<lparr>hq_method = ''GET'', hq_url = u @ ''/health'', hq_body = Text []\<rparr> e = (Ok x, e) \<and>
           rs_status x = 200"
proof -
  let ?ok = "\<lambda>a b. \<not> prefix a b \<and> \<not> prefix b a"
  from assms(1) have ap: "?ok (bank_DepositSvcURL (BankA L env)) u" "?ok (bank_DepositSvcURL (BankB L env)) u"
    "?ok (bank_SigningRouterURL (BankA L env)) (bank_SigningRouterURL (BankB L env))"
    unfolding assms(2) by (auto simp: urls_apart_def service_urls_def bank_of_def)
  let ?r = "\<lparr>rq_method = ''GET'', rq_path = ''/health'', rq_query = query_value [], rq_body = Text []\<rparr>"
  have h: "router_Handler L ord s ?r = Done (router_health ord s)" for ord s
    by (simp add: router_Handler_def router_mux_def mux_find_def pattern_method_def)
  show ?thesis
    using ap assms(2)
    by (cases issuer) (simp_all add: demo_net_def router_net_def Let_def bank_of_def deliver_path deliver_other h router_health_def)
qed

section \<open>Each step is answered\<close>

lemma wait_loop_first:
  assumes "gives (http_do N \<lparr>hq_method = ''GET'', hq_url = u @ ''/health'', hq_body = Text []\<rparr>) (\<lambda>x. \<exists>r. x = Ok r \<and> rs_status r = 200)"
  shows "gives (wait_loop N H u (Suc n)) (\<lambda>e. e = None)"
  unfolding wait_loop.simps by (rule gives_proceed [OF assms]) (auto intro: gives_return)

lemma health_steps:
  assumes "urls_apart L env" and "u \<in> set (service_urls L env)" and "demo_urls_parse L env"
  shows "gives (waitHealthy (demo_net L env R dep N) H u) (\<lambda>e. e = None)"
proof -
  let ?q = "\<lparr>hq_method = ''GET'', hq_url = u @ ''/health'', hq_body = Text []\<rparr>"
  have "\<exists>r e'. HttpDo (demo_net L env R dep N) ?q e = (Ok r, e') \<and> rs_status r = 200" for e
  proof -
    from assms(2) have "u = bank_SigningRouterURL (bank_of L env True) \<or> u = bank_SigningRouterURL (bank_of L env False) \<or>
        u = bank_DepositSvcURL (bank_of L env True) \<or> u = bank_DepositSvcURL (bank_of L env False)"
      by (auto simp: service_urls_def bank_of_def)
    then consider b where "u = bank_SigningRouterURL (bank_of L env b)" | b where "u = bank_DepositSvcURL (bank_of L env b)"
      by blast
    then show ?thesis
    proof cases
      case 1
      from demo_net_router_health [OF assms(1) 1, of R dep N e] show ?thesis by auto
    next
      case 2
      then show ?thesis
        by (simp add: demo_net_deposit [OF assms(1)] serve_deposit_def deposit_routes h_health_def)
    qed
  qed
  moreover have "url_parses (hq_url ?q)" using demo_urls_parseD(1) [OF assms(3,2)] by simp
  ultimately have "gives (http_do (demo_net L env R dep N) ?q) (\<lambda>x. \<exists>r. x = Ok r \<and> rs_status r = 200)"
    by (intro gives_http_do) auto
  from wait_loop_first [OF this, where n = 79 and H = H] show ?thesis by (simp add: waitHealthy_def)
qed

lemma wait_all_steps:
  assumes "urls_apart L env" and "set us \<subseteq> set (service_urls L env)" and "demo_urls_parse L env"
  shows "gives (wait_all (demo_net L env R dep N) H us) (\<lambda>e. e = None)"
  using assms(2)
proof (induction us)
  case (Cons u us)
  then have "u \<in> set (service_urls L env)" by simp
  from health_steps [OF assms(1) this assms(3)] Cons show ?case
    by (auto intro!: gives_proceed [of _ "\<lambda>e. e = None"])
qed (simp add: gives_return)

section \<open>Reading the token\<close>

text \<open>The token contract answers the two reads \<open>/info\<close> cannot do without.\<close>

definition token_answers :: "('sk, 'stx) lib \<Rightarrow> ('e, 'stx) net \<Rightarrow> deployment \<Rightarrow> bool" where
  "token_answers L N dep \<longleftrightarrow>
     (\<forall>w. (\<exists>n v. readString L N (dep_DepositToken dep) DepositToken_abi ''name'' w = (Done (Ok n), v)) \<and>
          (\<exists>d v. readUint L N (dep_DepositToken dep) DepositToken_abi ''decimals'' [] w = (Done (Ok d), v)))"

lemma router_net_reads [simp]:
  "readString L (router_net L env R N) a b m w = readString L N a b m w"
  "readUint L (router_net L env R N) a b m args w = readUint L N a b m args w"
proof -
  have "CallContract (router_net L env R N) = CallContract N" by (simp add: router_net_def)
  then show "readString L (router_net L env R N) a b m w = readString L N a b m w"
    "readUint L (router_net L env R N) a b m args w = readUint L N a b m args w"
    unfolding readString_def readUint_def call_def by (simp_all only:)
qed

lemma info_answered:
  assumes "unpack_ok L" and "token_answers L N dep"
  shows "\<exists>i v t. h_info L (router_net L env R N) (bank_service L env dep issuer) r w =
    (Done (writeJSON 200 (jmap
       [(''bank'', JStr (bank_Label (bank_of L env issuer))),
        (''address'', JStr (AddressHex L (bank_Address (bank_of L env issuer)))),
        (''token'', token_info_json i), (''balance'', JStr t)])), v)"
proof -
  let ?dt = "dep_DepositToken dep" and ?s = "bank_service L env dep issuer"
  obtain n w1 where n: "readString L N ?dt DepositToken_abi ''name'' w = (Done (Ok n), w1)"
    using assms(2) unfolding token_answers_def by blast
  obtain y w2 where y: "readString L N ?dt DepositToken_abi ''symbol'' w1 = (Done y, w2)"
    using readString_cases [OF assms(1)] token_outputs by blast
  obtain d w3 where d: "readUint L N ?dt DepositToken_abi ''decimals'' [] w2 = (Done (Ok d), w3)"
    using assms(2) unfolding token_answers_def by blast
  from TokenInfo_reads [OF assms(1), of "router_net L env R N" ?s w n w1 y w2 "Ok d" w3] n y d
  obtain i w5 where i: "TokenInfo L (router_net L env R N) ?s w = (Done (Ok i), w5)" by auto
  obtain b w6 where "BalanceOf L (router_net L env R N) ?s (bank_Address (bank_of L env issuer)) w5 = (Done b, w6)"
    unfolding BalanceOf_def using readUint_cases [OF assms(1)] token_outputs by blast
  with i show ?thesis by (auto simp: h_info_def)
qed

text \<open>What the demo decodes of the answer.\<close>

lemma capitals: "char_of (78 :: nat) = CHR ''N''" "char_of (83 :: nat) = CHR ''S''" "char_of (68 :: nat) = CHR ''D''"
  by code_simp+

lemma token_body_decodes:
  "snd (decode_body token_body (Json (jmap
       [(''bank'', JStr a), (''address'', JStr b), (''token'', token_info_json i), (''balance'', JStr t)]))) = None"
  (is "snd (decode_body _ (Json ?j)) = None")
proof -
  have j: "?j = JObj [(''address'', JStr b), (''balance'', JStr t), (''bank'', JStr a), (''token'', token_info_json i)]"
    by (simp add: jmap_def)
  have "uint (ti_Decimals i) < 256" using unsigned_less [where ?'a = int, of "ti_Decimals i"] by simp
  then have at: "strconv_Atoi (big_String (uint (ti_Decimals i))) = (uint (ti_Decimals i), False)"
    by (simp add: strconv_Atoi_def big_SetString_String) (use uint_ge_0 [of "ti_Decimals i"] in linarith)
  have m: "match_field [(''Name'', SStr), (''Symbol'', SStr), (''Decimals'', SInt)] ''name'' = Some (''Name'', SStr)"
    "match_field [(''Name'', SStr), (''Symbol'', SStr), (''Decimals'', SInt)] ''symbol'' = Some (''Symbol'', SStr)"
    "match_field [(''Name'', SStr), (''Symbol'', SStr), (''Decimals'', SInt)] ''decimals'' = Some (''Decimals'', SInt)"
    "match_field [(''Name'', SStr), (''Symbol'', SStr), (''Decimals'', SInt)] ''totalSupply'' = None"
    "match_field [(''Name'', SStr), (''Symbol'', SStr), (''Decimals'', SInt)] ''reserveLedgerSupply'' = None"
    "match_field [(''token'', SStruct fs)] ''token'' = Some (''token'', SStruct fs)"
    "match_field [(''token'', SStruct fs)] ''address'' = None"
    "match_field [(''token'', SStruct fs)] ''balance'' = None"
    "match_field [(''token'', SStruct fs)] ''bank'' = None" for fs
    by (simp_all add: match_field_def upper_char_def capitals)
  show ?thesis
    unfolding j by (simp add: decode_body_def token_body_def token_info_json_def jint_def m at)
qed

lemma info_step:
  assumes "urls_apart L env" and "unpack_ok L" and "token_answers L N dep" and "demo_urls_parse L env"
  shows "gives (getJSON L (demo_net L env R dep N) (bank_DepositSvcURL (BankA L env) @ ''/info'') token_body) (\<lambda>p. snd p = None)"
proof -
  let ?q = "\<lparr>hq_method = ''GET'', hq_url = bank_DepositSvcURL (BankA L env) @ ''/info'', hq_body = Text []\<rparr>"
  have "\<exists>r e'. HttpDo (demo_net L env R dep N) ?q e = (Ok r, e') \<and> snd (decode_body token_body (rs_body r)) = None" for e
  proof -
    let ?r = "\<lparr>rq_method = ''GET'', rq_path = ''/info'', rq_query = query_value [], rq_body = Text []\<rparr>"
    obtain i v t where "h_info L (router_net L env R N) (bank_service L env dep True) ?r \<lparr>w_env = e, w_trace = []\<rparr> =
      (Done (writeJSON 200 (jmap
         [(''bank'', JStr (bank_Label (bank_of L env True))),
          (''address'', JStr (AddressHex L (bank_Address (bank_of L env True)))),
          (''token'', token_info_json i), (''balance'', JStr t)])), v)"
      using info_answered [OF assms(2,3)] by blast
    then show ?thesis
      using demo_net_deposit [OF assms(1), of "''/info''" R dep N "''GET''" True "Text []" e]
      by (simp add: serve_deposit_def deposit_routes bank_of_def token_body_decodes writeJSON_def)
  qed
  moreover have "url_parses (hq_url ?q)" using demo_urls_parseD(2) [OF assms(4)] by simp
  ultimately have "gives (http_do (demo_net L env R dep N) ?q) (\<lambda>x. \<exists>r. x = Ok r \<and> snd (decode_body token_body (rs_body r)) = None)"
    by (intro gives_http_do) auto
  then show ?thesis
    unfolding getJSON_def
    by (rule gives_proceed) (auto intro!: gives_return split: prod.split)
qed

section \<open>The writes\<close>

text \<open>Packing the calldata of the three writes, for amounts a uint256 holds.\<close>

definition pack_ok :: "('sk, 'stx) lib \<Rightarrow> bool" where
  "pack_ok L \<longleftrightarrow>
     (\<forall>t a n. 0 \<le> n \<and> n < 2 ^ 256 \<longrightarrow> is_ok (Pack L TokenAuthority_abi ''mint'' [AAddress t, AAddress a, ABigInt n])) \<and>
     (\<forall>a n. 0 \<le> n \<and> n < 2 ^ 256 \<longrightarrow> is_ok (Pack L DepositToken_abi ''transfer'' [AAddress a, ABigInt n])) \<and>
     (\<forall>p a. is_ok (Pack L AuthRegistry_abi ''modifyPolicyWhitelist'' [AUint64 p, AAddress a, ABool True]))"

text \<open>The system as the scenario finds it.\<close>

definition wired :: "('sk, 'stx) lib \<Rightarrow> env \<Rightarrow> 'sk routers \<Rightarrow> deployment \<Rightarrow> ('e, 'stx) net \<Rightarrow> bool" where
  "wired L env R dep N \<longleftrightarrow>
     hexutil_ok L \<and> signer_ok L \<and> signing_ok L \<and> pack_ok L \<and> unpack_ok L \<and>
     urls_apart L env \<and> urls_parse L env \<and> routers_started L env R \<and> node_ok N \<and> token_answers L N dep"

lemma wired_write:
  assumes "wired L env R dep N"
  obtains x v where "buildSignBroadcast L (router_net L env R N) (bank_service L env dep issuer) op to data w = (Done (Ok x), v)"
  using assms wired_write_succeeds [of L env R N "bank_service L env dep issuer" dep issuer op to data w]
  unfolding wired_def by blast

lemma wired_authorize_loop:
  assumes "wired L env R dep N"
  shows "\<exists>xs v. authorize_loop L (router_net L env R N) (bank_service L env dep issuer) a steps out w = (Done (Ok xs), v)"
proof (induction steps arbitrary: out w)
  case (Cons st steps)
  obtain p tag where st: "st = (p, tag)" by (cases st)
  from assms obtain data where "Pack L AuthRegistry_abi ''modifyPolicyWhitelist'' [AUint64 p, AAddress a, ABool True] = Ok data"
    unfolding wired_def pack_ok_def is_ok_iff by blast
  moreover obtain x v where "buildSignBroadcast L (router_net L env R N) (bank_service L env dep issuer) tag
      (dep_AuthRegistry dep) data w = (Done (Ok x), v)" using wired_write [OF assms] by blast
  ultimately show ?case using Cons.IH [of "out @ [x]" v] by (simp add: st)
qed simp

text \<open>The results the demo decodes.\<close>

lemma txResult_decodes: "snd (decode txResult (tx_result_json x) (zero_val txResult)) = False"
proof -
  let ?fs = "[(''op'', SStr), (''txHash'', SStr), (''status'', SStr), (''blockNumber'', SStr), (''signedBy'', SStr)]"
  have "match_field ?fs ''op'' = Some (''op'', SStr)" "match_field ?fs ''txHash'' = Some (''txHash'', SStr)"
    "match_field ?fs ''status'' = Some (''status'', SStr)" "match_field ?fs ''blockNumber'' = Some (''blockNumber'', SStr)"
    "match_field ?fs ''signedBy'' = Some (''signedBy'', SStr)" "match_field ?fs ''gasUsed'' = None"
    by (simp_all add: match_field_def upper_char_def capitals)
  then show ?thesis by (simp add: txResult_def tx_result_json_def)
qed

lemma txResults_decode: "snd (decode_elems txResult (map tx_result_json xs)) = False"
  using txResult_decodes by (induction xs) (auto split: prod.split, (metis snd_conv)+)

lemma post_step:
  assumes "url_parses url"
    and "\<And>e. \<exists>r e'. HttpDo N (post_req url b) e = (Ok r, e') \<and> rs_status r = 200 \<and> snd (decode_body out (rs_body r)) = None"
  shows "gives (postJSON L N url b out) (\<lambda>p. snd p = None)"
proof -
  have "url_parses (hq_url (post_req url b))" using assms(1) by (simp add: post_req_def)
  from gives_http_do [OF this assms(2)] show ?thesis
    unfolding postJSON_def post_req_def [symmetric]
    by (rule gives_proceed) (auto simp: post_answer_def split: prod.split intro!: gives_return)
qed

lemma authorize_step:
  assumes "wired L env R dep N"
  shows "gives (postJSON L (demo_net L env R dep N) (bank_DepositSvcURL (BankA L env) @ ''/authorize'')
           (jmap [(''account'', JStr a)]) (SSlice txResult)) (\<lambda>p. snd p = None)"
proof (rule post_step)
  from assms show "url_parses (bank_DepositSvcURL (BankA L env) @ ''/authorize'')"
    by (simp add: wired_def urls_parse_def demo_urls_parseD(4))
next
  fix e
  let ?r = "\<lparr>rq_method = ''POST'', rq_path = ''/authorize'', rq_query = query_value [],
      rq_body = Json (jmap [(''account'', JStr a)])\<rparr>" and ?s = "bank_service L env dep True"
  have "decode_body account_body (rq_body ?r) = (DStruct [(''account'', DStr a)], None)"
    by (simp add: jmap_def decode_body_def account_body_def match_field_def)
  moreover obtain xs v where "authorize_loop L (router_net L env R N) ?s (HexToAddress L a) (authorize_steps ?s) [] \<lparr>w_env = e, w_trace = []\<rparr> = (Done (Ok xs), v)"
    using wired_authorize_loop [OF assms] by blast
  moreover have "requireRole L ?s RoleIssuer ''authorize'' = None"
    by (rule requireRole_same) (simp add: bank_of_def BankA_def)
  ultimately have "h_authorize L (router_net L env R N) ?s ?r \<lparr>w_env = e, w_trace = []\<rparr> =
      (Done (writeJSON 200 (JArr (map tx_result_json xs))), v)"
    by (simp add: h_authorize_def Authorize_def respond_def)
  moreover have "urls_apart L env" using assms by (simp add: wired_def)
  note demo_net_deposit [OF this, of "''/authorize''" R dep N "''POST''" True "Json (jmap [(''account'', JStr a)])" e]
  ultimately have "HttpDo (demo_net L env R dep N) (post_req (bank_DepositSvcURL (BankA L env) @ ''/authorize'') (jmap [(''account'', JStr a)])) e =
      (Ok (writeJSON 200 (JArr (map tx_result_json xs))), w_env v)"
    by (simp add: post_req_def bank_of_def serve_deposit_def deposit_routes)
  then show "\<exists>r e'. HttpDo (demo_net L env R dep N) (post_req (bank_DepositSvcURL (BankA L env) @ ''/authorize'') (jmap [(''account'', JStr a)])) e = (Ok r, e') \<and>
      rs_status r = 200 \<and> snd (decode_body (SSlice txResult) (rs_body r)) = None"
    using txResults_decode [of xs] by (simp add: writeJSON_def decode_body_def split: prod.split) (metis snd_conv)
qed

text \<open>The mint at the issuer or the transfer at the holder.\<close>

lemma write_steps:
  fixes L :: "('sk, 'stx) lib" and N :: "('e, 'stx) net"
  assumes "wired L env R dep N" and "0 \<le> n" and "n < 2 ^ 256"
    and "path = ''/mint'' \<and> issuer \<or> path = ''/transfer'' \<and> \<not> issuer"
  shows "gives (write_step L (demo_net L env R dep N) (bank_DepositSvcURL (bank_of L env issuer) @ path) a (big_String n) c)
           (\<lambda>e. e = None)"
proof -
  let ?b = "jmap [(''to'', JStr a), (''amount'', JStr (big_String n))]" and ?s = "bank_service L env dep issuer"
  let ?r = "\<lparr>rq_method = ''POST'', rq_path = path, rq_query = query_value [], rq_body = Json ?b\<rparr>"
  have "gives (postJSON L (demo_net L env R dep N) (bank_DepositSvcURL (bank_of L env issuer) @ path) ?b txResult) (\<lambda>p. snd p = None)"
  proof (rule post_step)
    from assms(1,4) show "url_parses (bank_DepositSvcURL (bank_of L env issuer) @ path)"
      by (auto simp: wired_def urls_parse_def bank_of_def demo_urls_parseD(5,6))
  next
    fix e :: 'e
    let ?w = "\<lparr>w_env = e, w_trace = []\<rparr> :: ('e, 'stx) world"
    have "rq_body ?r = Json (JObj [(''amount'', JStr (big_String n)), (''to'', JStr a)])" by (simp add: jmap_def)
    then have dec: "decodeToAmount L ?r = Ok (HexToAddress L a, n)"
      by (simp add: decodeToAmount_client big_SetString_String)
    have role: "issuer \<Longrightarrow> requireRole L ?s RoleIssuer ''mint'' = None"
      by (rule requireRole_same) (simp add: bank_of_def BankA_def)
    from assms(1-3) obtain d1 d2 where pack: "Pack L TokenAuthority_abi ''mint'' [AAddress (dep_DepositToken dep), AAddress (HexToAddress L a), ABigInt n] = Ok d1"
      "Pack L DepositToken_abi ''transfer'' [AAddress (HexToAddress L a), ABigInt n] = Ok d2"
      unfolding wired_def pack_ok_def is_ok_iff by blast
    obtain x1 v1 where b1: "buildSignBroadcast L (router_net L env R N) ?s ''mint'' (dep_TokenAuthority dep) d1 ?w = (Done (Ok x1), v1)"
      using wired_write [OF assms(1)] by blast
    obtain x2 v2 where b2: "buildSignBroadcast L (router_net L env R N) ?s ''transfer'' (dep_DepositToken dep) d2 ?w = (Done (Ok x2), v2)"
      using wired_write [OF assms(1)] by blast
    have "\<exists>x v. deposit_Handler L (router_net L env R N) ?s ?r ?w = (Done (writeJSON 200 (tx_result_json x)), v)"
      using assms(4) dec role pack b1 b2
      by (auto simp: deposit_routes h_mint_def h_transfer_def Mint_def Transfer_def respond_def)
    moreover have "urls_apart L env" "CHR ''?'' \<notin> set path" using assms(1,4) by (auto simp: wired_def)
    note demo_net_deposit [OF this, of R dep N "''POST''" issuer "Json ?b" e]
    ultimately obtain x v where "HttpDo (demo_net L env R dep N) (post_req (bank_DepositSvcURL (bank_of L env issuer) @ path) ?b) e =
        (Ok (writeJSON 200 (tx_result_json x)), v)"
      by (auto simp: post_req_def serve_deposit_def)
    then show "\<exists>r e'. HttpDo (demo_net L env R dep N) (post_req (bank_DepositSvcURL (bank_of L env issuer) @ path) ?b) e = (Ok r, e') \<and>
        rs_status r = 200 \<and> snd (decode_body txResult (rs_body r)) = None"
      using txResult_decodes [of x] by (simp add: writeJSON_def decode_body_def split: prod.split) (metis snd_conv)
  qed
  then show ?thesis
    unfolding write_step_def by (rule gives_proceed) (auto intro: gives_then gives_return)
qed

section \<open>The run\<close>

lemma onboard_steps:
  assumes "wired L env R dep N"
  shows "gives (onboard_loop L (demo_net L env R dep N) env ts) (\<lambda>e. e = None)"
proof (induction ts)
  case (Cons t ts)
  show ?case
    by (cases t) (auto intro!: gives_proceed [OF authorize_step [OF assms]] gives_then Cons.IH)
qed (simp add: gives_return)

lemma scenario_succeeds:
  assumes "wired L env R dep N"
  shows "returns (scenario L (demo_net L env R dep N) H env) (\<lambda>r. r = Done None)"
proof -
  from assms have apart: "urls_apart L env" and u: "unpack_ok L" and t: "token_answers L N dep" and ok: "demo_urls_parse L env"
    by (simp_all add: wired_def urls_parse_def)
  note balances = calm_gives [OF calm_showBalances ok]
  have checks: "gives (checks L (demo_net L env R dep N) env a b) (\<lambda>_. True)" for a b
    unfolding gives_def
  proof (rule returnsI)
    fix w
    obtain r w' where run: "run_state (checks L (demo_net L env R dep N) env a b) w = (r, w')" by fastforce
    from io_specD [OF checks_stop [unfolded stops_def] run] ok have "r \<noteq> Panic" by auto
    with run show "\<exists>x. fst (run_state (checks L (demo_net L env R dep N) env a b) w) = Done x \<and> True" by (cases r) auto
  qed
  have mint: "gives (write_step L (demo_net L env R dep N) (bank_DepositSvcURL (BankA L env) @ ''/mint'') a
      (big_String (1000000 * 1000000)) c) (\<lambda>e. e = None)" for a c
    using write_steps [OF assms, of "1000000 * 1000000" "''/mint''" True a c] by (simp add: bank_of_def)
  have move: "gives (write_step L (demo_net L env R dep N) (bank_DepositSvcURL (BankB L env) @ ''/transfer'') a
      (big_String (250000 * 1000000)) c) (\<lambda>e. e = None)" for a c
    using write_steps [OF assms, of "250000 * 1000000" "''/transfer''" False a c] by (simp add: bank_of_def)
  show ?thesis
    unfolding scenario_def wfusd_literals proceed_Done
    by (rule returns_proceed [OF wait_all_steps [OF apart subset_refl ok]], rule returns_guard, rule returns_then,
        rule returns_proceed [OF info_step [OF apart u t ok]], rule returns_guard, rule returns_then,
        rule returns_proceed [OF balances], rule returns_then, rule returns_proceed [OF onboard_steps [OF assms]], rule returns_guard,
        rule returns_then, rule returns_proceed [OF mint], rule returns_guard, rule returns_proceed [OF balances], rule returns_then,
        rule returns_proceed [OF move], rule returns_guard, rule returns_proceed [OF balances], rule returns_proceed [OF checks],
        rule returns_return, rule refl) assumption+
qed

section \<open>Property\<close>

text \<open>
  C7. The demo completes: when the routers hold their own bank's key, the services have URLs of
  their own that parse, the node answers and the token contract is deployed, a run of the demo against the
  composed system succeeds, whatever the node's values, the gas estimates and the hosts' process
  starts are: every health check passes, both accounts are onboarded, the mint and the transfer
  come back with a result, and exactly the planned requests were posted.
\<close>

theorem demo_completes:
  assumes "hexutil_ok L" and "signer_ok L" and "signing_ok L" and "pack_ok L" and "unpack_ok L"
    and "urls_apart L env" and "urls_parse L env" and "routers_started L env R" and "node_ok N" and "token_answers L N dep"
    and "env ''DEMO_SPAWN'' = ''false'' \<or> is_ok (hs_Executable H)"
    and "run_state (demo_Run L (demo_net L env R dep N) H env (Ok dep)) w = (r, w')"
  shows "r = Done None \<and> (\<exists>es. emits w w' es \<and> posts es = demo_plan L env)"
proof -
  have sys: "wired L env R dep N" using assms(1-10) by (simp add: wired_def)
  note run = scenario_succeeds [OF sys]
  have kill: "returns (State_Monad.bind (spawn_services L H env dir) (\<lambda>ps.
      State_Monad.bind (scenario L (demo_net L env R dep N) H env) (\<lambda>r. State_Monad.bind (kill_all H ps) (\<lambda>_. State_Monad.return r))))
      (\<lambda>r. r = Done None)" for dir
    by (rule returns_bind [OF returns_any], rule returns_bind [OF run], rule returns_then, rule returns_return)
  have "returns (demo_Run L (demo_net L env R dep N) H env (Ok dep)) (\<lambda>r. r = Done None)"
    using assms(11) run kill unfolding demo_Run_def binDir_def res.case
    by (intro returns_then) (auto simp: is_ok_iff)
  with assms(12) have r: "r = Done None" by (auto simp: returns_def dest: spec [of _ w])
  with io_specD [OF demo_Run_ends assms(12)] show ?thesis by (auto simp: ends_def)
qed

text \<open>The sample system with a node whose calls return one 32-byte word.\<close>

definition token_net :: "(unit, DynamicFeeTx \<times> bytes) net" where
  "token_net = sample_net\<lparr>CallContract := (\<lambda>_ e. (Ok (uint_bytes 6), e))\<rparr>"

lemma sample_unpack_ok: "unpack_ok sample_lib"
proof -
  have un: "Unpack sample_lib a m bs = (case abi_lookup a m of None \<Rightarrow> Err ''method not found''
      | Some e \<Rightarrow> args_values (outputs e) bs)" for a m bs by (simp add: sample_lib_def)
  have "args_values as bs \<noteq> Ok []" if "as \<noteq> []" for as bs
    using that by (cases as) (auto split: res.splits)
  then show ?thesis
    by (auto simp: unpack_ok_def un has_output_def split: option.splits abi_entry.splits)
qed

lemma sample_pack_ok: "pack_ok sample_lib"
proof -
  have "Pack sample_lib a m args = (case abi_lookup a m of None \<Rightarrow> Err ''method not found''
      | Some e \<Rightarrow> if length args = length (inputs e) then Ok (name_bytes m @ concat (map any_bytes args))
                  else Err ''argument count mismatch'')" for a m args by (simp add: sample_lib_def)
  then show ?thesis
    by (simp add: pack_ok_def abi_lookup_def TokenAuthority_abi_def DepositToken_abi_def AuthRegistry_abi_def)
qed

lemma sample_token_answers: "token_answers sample_lib token_net sample_dep"
proof -
  have un: "Unpack sample_lib a m bs = (case abi_lookup a m of None \<Rightarrow> Err ''method not found''
      | Some e \<Rightarrow> args_values (outputs e) bs)"
    and pk: "Pack sample_lib a m args = (case abi_lookup a m of None \<Rightarrow> Err ''method not found''
      | Some e \<Rightarrow> if length args = length (inputs e) then Ok (name_bytes m @ concat (map any_bytes args))
                  else Err ''argument count mismatch'')"
    and cc: "CallContract token_net msg e = (Ok (uint_bytes 6), e)" for a m bs args msg e
    by (simp_all add: sample_lib_def token_net_def)
  have "length (uint_bytes 6) = 32" by (simp add: uint_bytes_def)
  then show ?thesis
    by (simp add: token_answers_def readString_def readUint_def call_def net_call_def Let_def un pk cc abi_lookup_def
        DepositToken_abi_def)
qed

theorem demo_completes_witness:
  "\<exists>w' es. run_state (demo_Run sample_lib (demo_net sample_lib empty_env sample_routers sample_dep token_net) sample_host
       empty_env (Ok sample_dep)) sample_world = (Done None, w') \<and>
     emits sample_world w' es \<and> length (posts es) = 6"
proof -
  obtain r w' where run: "run_state (demo_Run sample_lib (demo_net sample_lib empty_env sample_routers sample_dep token_net) sample_host
       empty_env (Ok sample_dep)) sample_world = (r, w')" by fastforce
  have node: "node_ok token_net" by (simp add: node_ok_def token_net_def sample_net_def)
  have "empty_env ''DEMO_SPAWN'' = ''false'' \<or> is_ok (hs_Executable sample_host)" by (simp add: sample_host_def)
  from demo_completes [OF sample_hexutil_ok sample_signer_ok sample_signing_ok sample_pack_ok sample_unpack_ok sample_urls_apart
      sample_urls_parse sample_routers_started node sample_token_answers this run] run show ?thesis by auto
qed

end
