(* ===== verification/Json_Types.thy ===== *)
theory Json_Types
  imports Go_Json
begin

text \<open>
  The types of decoded values: whatever a body is, decoding it leaves a value of the type of the
  Go variable it is decoded into, so that the readers of its fields never meet another type.
\<close>

section \<open>Typing\<close>

text \<open>The values a Go variable of a declared type can hold.\<close>

fun has_type :: "schema \<Rightarrow> dval \<Rightarrow> bool" and has_fields :: "(string \<times> schema) list \<Rightarrow> (string \<times> dval) list \<Rightarrow> bool" where
  "has_type SStr v = (case v of DStr _ \<Rightarrow> True | _ \<Rightarrow> False)"
| "has_type SInt v = (case v of DInt _ \<Rightarrow> True | _ \<Rightarrow> False)"
| "has_type (SSlice s) v = (case v of DSlice vs \<Rightarrow> list_all (has_type s) vs | _ \<Rightarrow> False)"
| "has_type (SStruct fs) v = (case v of DStruct vs \<Rightarrow> has_fields fs vs | _ \<Rightarrow> False)"
| "has_fields [] vs = (vs = [])"
| "has_fields ((n, s) # fs) vs =
     (case vs of (m, v) # vs' \<Rightarrow> n = m \<and> has_type s v \<and> has_fields fs vs' | [] \<Rightarrow> False)"

text \<open>Go rejects a struct that declares a field twice.\<close>

fun wf_schema :: "schema \<Rightarrow> bool" and wf_fields :: "(string \<times> schema) list \<Rightarrow> bool" where
  "wf_schema SStr = True"
| "wf_schema SInt = True"
| "wf_schema (SSlice s) = wf_schema s"
| "wf_schema (SStruct fs) = (distinct (map fst fs) \<and> wf_fields fs)"
| "wf_fields [] = True"
| "wf_fields ((n, s) # fs) = (wf_schema s \<and> wf_fields fs)"

lemma zero_typed: "has_type s (zero_val s)" and zeros_typed: "has_fields fs (zero_fields fs)"
  by (induction s and fs rule: zero_val_zero_fields.induct) simp_all

lemma match_field_mem: "match_field fs k = Some f \<Longrightarrow> f \<in> set fs"
  by (auto simp: match_field_def dest: find_SomeD split: option.splits)

lemma has_fields_get:
  "has_fields fs vs \<Longrightarrow> distinct (map fst fs) \<Longrightarrow> (n, s) \<in> set fs \<Longrightarrow> get_field n vs = Some v \<Longrightarrow> has_type s v"
proof (induction fs arbitrary: vs)
  case (Cons f fs)
  then show ?case by (cases f; cases vs) (auto simp: rev_image_eqI split: if_splits)
qed simp

lemma has_fields_set:
  "has_fields fs vs \<Longrightarrow> distinct (map fst fs) \<Longrightarrow> (n, s) \<in> set fs \<Longrightarrow> has_type s v \<Longrightarrow> has_fields fs (set_field n v vs)"
proof (induction fs arbitrary: vs)
  case (Cons f fs)
  then show ?case by (cases f; cases vs) (auto simp: rev_image_eqI)
qed simp

lemma wf_fields_mem: "wf_fields fs \<Longrightarrow> (n, s) \<in> set fs \<Longrightarrow> wf_schema s"
  by (induction fs) auto

text \<open>Decoding keeps the type of its destination, also when it reports an error.\<close>

lemma decode_typed:
  "wf_schema s \<Longrightarrow> has_type s v \<Longrightarrow> has_type s (fst (decode s j v))"
  "wf_schema s \<Longrightarrow> list_all (has_type s) (fst (decode_elems s js))"
  "wf_fields fs \<Longrightarrow> distinct (map fst fs) \<Longrightarrow> has_fields fs vs \<Longrightarrow> has_fields fs (fst (decode_members fs kvs vs))"
proof (induction s j v and s js and fs kvs vs rule: decode_decode_elems_decode_members.induct)
  case (11 fs k j kvs vs)
  show ?case
  proof (cases "match_field fs k")
    case (Some f)
    obtain n s where f: "f = (n, s)" by (cases f)
    with Some have mem: "(n, s) \<in> set fs" by (simp add: match_field_mem)
    show ?thesis
    proof (cases "get_field n vs")
      case None
      with 11 Some f show ?thesis by simp
    next
      case v: (Some v)
      obtain v' e1 where d: "decode s j v = (v', e1)" by fastforce
      have "has_type s (fst (decode s j v))"
        by (rule 11(3) [OF Some f [symmetric] v wf_fields_mem [OF 11(5) mem] has_fields_get [OF 11(7,6) mem v]])
      then have "has_type s v'" using d by simp
      then have "has_fields fs (set_field n v' vs)"
        by (rule has_fields_set [OF 11(7,6) mem])
      from 11(4) [OF Some f [symmetric] v d [symmetric] 11(5,6) this] Some f v d show ?thesis
        by (cases "decode_members fs kvs (set_field n v' vs)") simp
    qed
  qed (use 11 in simp)
qed (auto simp: zero_typed split: prod.splits)

end
