(* ===== verification/Wire_Types.thy ===== *)
theory Wire_Types
  imports Completion Json_Types
begin

text \<open>
  The types of what goes over the wire between the programs: every answer a service writes decodes
  without an error into the structs its clients declare for it, the error answers included.
\<close>

section \<open>What the clients declare\<close>

text \<open>The destinations the demo decodes a 200 answer of a deposit service into, by route.\<close>

definition client_types :: "string \<Rightarrow> schema list" where
  "client_types path =
     (if path = ''/info'' then [token_body, supplies_body]
      else if path = ''/balance'' then [raw_body]
      else if path = ''/authorize'' then [SSlice txResult]
      else if path = ''/mint'' \<or> path = ''/transfer'' then [txResult]
      else [])"

lemmas body_defs = token_body_def supplies_body_def raw_body_def txResult_def error_body_def sign_answer_def

lemma client_types_wf: "s \<in> set (client_types path) \<Longrightarrow> wf_schema s"
  by (auto simp: client_types_def body_defs split: if_splits)

text \<open>A body that decodes without an error has the type it is decoded into.\<close>

lemma decoded_typed:
  assumes "wf_schema s" and "snd (decode_body s b) = None"
  obtains v where "decode_body s b = (v, None)" "has_type s v"
proof (rule that [of "fst (decode_body s b)"])
  show "decode_body s b = (fst (decode_body s b), None)" using assms(2) by (metis prod.collapse)
  show "has_type s (fst (decode_body s b))"
    using decode_typed(1) [OF assms(1) zero_typed] zero_typed
    by (auto simp: decode_body_def split: body.split prod.split) (metis fst_conv)
qed

section \<open>The answers\<close>

definition answers_as :: "string \<Rightarrow> response \<Rightarrow> bool" where
  "answers_as path x \<longleftrightarrow>
     (rs_status x = 200 \<and> (\<forall>s \<in> set (client_types path). snd (decode_body s (rs_body x)) = None)) \<or>
     (\<exists>m. x = writeErr 400 m \<or> x = writeErr 500 m)"

lemma answers_as_err: "s = 400 \<or> s = 500 \<Longrightarrow> answers_as path (writeErr s m)"
  by (auto simp: answers_as_def)

lemma error_decodes: "decode_body error_body (rs_body (writeErr s m)) = (DStruct [(''error'', DStr m)], None)"
  by (simp add: writeErr_def writeJSON_def jmap_def decode_body_def error_body_def match_field_def)

lemma supplies_decode:
  "snd (decode_body supplies_body (Json (jmap
       [(''bank'', JStr a), (''address'', JStr b), (''token'', token_info_json i), (''balance'', JStr t)]))) = None"
proof -
  have j: "jmap [(''bank'', JStr a), (''address'', JStr b), (''token'', token_info_json i), (''balance'', JStr t)] =
      JObj [(''address'', JStr b), (''balance'', JStr t), (''bank'', JStr a), (''token'', token_info_json i)]"
    by (simp add: jmap_def)
  let ?fs = "[(''totalSupply'', SStr), (''reserveLedgerSupply'', SStr)]"
  have m: "match_field ?fs ''name'' = None" "match_field ?fs ''symbol'' = None" "match_field ?fs ''decimals'' = None"
    "match_field ?fs ''totalSupply'' = Some (''totalSupply'', SStr)"
    "match_field ?fs ''reserveLedgerSupply'' = Some (''reserveLedgerSupply'', SStr)"
    "match_field [(''token'', SStruct fs)] ''token'' = Some (''token'', SStruct fs)"
    "match_field [(''token'', SStruct fs)] ''address'' = None"
    "match_field [(''token'', SStruct fs)] ''balance'' = None"
    "match_field [(''token'', SStruct fs)] ''bank'' = None" for fs
    by (simp_all add: match_field_def upper_char_def capitals)
  show ?thesis
    unfolding j by (simp add: decode_body_def supplies_body_def token_info_json_def jint_def m)
qed

lemma info_typed: "h_info L N s r w = (Done x, w') \<Longrightarrow> answers_as ''/info'' x"
  by (auto simp: h_info_def answers_as_err split: prod.splits outcome.splits res.splits)
    (auto simp: answers_as_def client_types_def writeJSON_def token_body_decodes supplies_decode)

lemma balance_typed: "h_balance L N s r w = (Done x, w') \<Longrightarrow> answers_as ''/balance'' x"
  by (auto simp: h_balance_def Let_def answers_as_err split: prod.splits outcome.splits res.splits)
    (auto simp: answers_as_def client_types_def writeJSON_def jmap_def decode_body_def raw_body_def match_field_def
      upper_char_def capitals)

lemma tx_typed: "path = ''/mint'' \<or> path = ''/transfer'' \<Longrightarrow> answers_as path (respond tx_result_json res)"
  using txResult_decodes
  by (cases res) (auto simp: respond_def answers_as_err, auto simp: answers_as_def client_types_def writeJSON_def
      decode_body_def split: prod.splits, (metis snd_conv)+)

lemma txs_typed: "answers_as ''/authorize'' (respond (\<lambda>xs. JArr (map tx_result_json xs)) res)"
  using txResults_decode
  by (cases res) (auto simp: respond_def answers_as_err, auto simp: answers_as_def client_types_def writeJSON_def
      decode_body_def split: prod.splits, (metis snd_conv)+)

lemma h_mint_typed: "h_mint L N s r w = (Done x, w') \<Longrightarrow> answers_as ''/mint'' x"
  by (auto simp: h_mint_def answers_as_err tx_typed split: res.splits prod.splits outcome.splits)

lemma h_transfer_typed: "h_transfer L N s r w = (Done x, w') \<Longrightarrow> answers_as ''/transfer'' x"
  by (auto simp: h_transfer_def answers_as_err tx_typed split: res.splits prod.splits outcome.splits)

lemma h_authorize_typed: "h_authorize L N s r w = (Done x, w') \<Longrightarrow> answers_as ''/authorize'' x"
  by (auto simp: h_authorize_def answers_as_err txs_typed split: option.splits prod.splits outcome.splits)

lemma h_health_typed: "h_health L s r w = (Done x, w') \<Longrightarrow> answers_as ''/health'' x"
  by (auto simp: h_health_def answers_as_def client_types_def)

text \<open>The routes of the mux, and the answers beside them.\<close>

lemma handler_typed:
  assumes "deposit_Handler L N s r w = (Done x, w')"
  shows "answers_as (rq_path r) x \<or> x = not_found \<or> x = not_allowed"
proof (cases "mux_find (deposit_mux L N s) r")
  case (Route h)
  with assms have h: "h r w = (Done x, w')" by (simp add: deposit_Handler_def)
  from Route have "(\<exists>m. (m, rq_path r, h) \<in> set (deposit_mux L N s))"
    unfolding mux_find_def by (auto dest!: find_SomeD split: option.splits if_splits)
  then consider "rq_path r = ''/health''" "h = h_health L s" | "rq_path r = ''/info''" "h = h_info L N s"
    | "rq_path r = ''/balance''" "h = h_balance L N s" | "rq_path r = ''/mint''" "h = h_mint L N s"
    | "rq_path r = ''/authorize''" "h = h_authorize L N s" | "rq_path r = ''/transfer''" "h = h_transfer L N s"
    by (auto simp: deposit_mux_def)
  then have "answers_as (rq_path r) x"
    using h by cases (simp_all add: h_health_typed info_typed balance_typed h_mint_typed h_authorize_typed h_transfer_typed)
  then show ?thesis ..
qed (use assms in \<open>simp_all add: deposit_Handler_def\<close>)

text \<open>The router's answers, which its client decodes whatever their status.\<close>

lemma sign_typed: "handleSign L R q = Done y \<Longrightarrow> snd (decode_body sign_answer (rs_body y)) = None"
proof -
  have "snd (decode_body sign_answer (rs_body (writeErr s m))) = None"
    "snd (decode_body sign_answer (rs_body (writeJSON 200 (SignResponse a b)))) = None" for s m a b
    by (simp_all add: writeErr_def writeJSON_def SignResponse_def jmap_def decode_body_def sign_answer_def match_field_def)
  then show "handleSign L R q = Done y \<Longrightarrow> snd (decode_body sign_answer (rs_body y)) = None"
    by (auto simp: handleSign_cases split: option.splits res.splits if_splits)
qed

section \<open>Property\<close>

text \<open>
  C37. The wire is typed: whatever request a deposit service is sent and whatever its node and
  router answer, its own answer is a 404 or 405 of the mux, or a 200 whose body decodes without an
  error into every struct the demo declares for that route, as a value of that type, or a 400 or
  500 whose body decodes into the error struct with exactly the message. Every answer of a router
  decodes into the struct the deposit service declares for it.
\<close>

theorem answers_have_their_clients_types:
  assumes "deposit_Handler L N s r w = (Done x, w')" and "handleSign L R q = Done y"
  shows "(x = not_found \<or> x = not_allowed
          \<or> rs_status x = 200 \<and> (\<forall>t \<in> set (client_types (rq_path r)). \<exists>v. decode_body t (rs_body x) = (v, None) \<and> has_type t v)
          \<or> rs_status x \<in> {400, 500} \<and> (\<exists>m. decode_body error_body (rs_body x) = (DStruct [(''error'', DStr m)], None)))
       \<and> (\<exists>v. decode_body sign_answer (rs_body y) = (v, None) \<and> has_type sign_answer v)"
proof -
  have sign: "\<exists>v. decode_body sign_answer (rs_body y) = (v, None) \<and> has_type sign_answer v"
    using decoded_typed [OF _ sign_typed [OF assms(2)]] by (auto simp: sign_answer_def)
  have typed: "\<exists>v. decode_body t b = (v, None) \<and> has_type t v"
    if "t \<in> set (client_types p)" and "snd (decode_body t b) = None" for t b p
    using decoded_typed [OF client_types_wf [OF that(1)] that(2)] by blast
  consider "x = not_found \<or> x = not_allowed" | "answers_as (rq_path r) x"
    using handler_typed [OF assms(1)] by blast
  then show ?thesis
  proof cases
    case 2
    then show ?thesis
      unfolding answers_as_def using sign typed error_decodes by fastforce
  qed (use sign in blast)
qed

theorem answers_have_their_clients_types_witness:
  "\<exists>x w' m. deposit_Handler sample_lib sample_net sample_holder
       \<lparr>rq_method = ''POST'', rq_path = ''/mint'', rq_query = (\<lambda>_. []), rq_body = Text ''{''\<rparr> sample_world = (Done x, w') \<and>
     decode_body error_body (rs_body x) = (DStruct [(''error'', DStr m)], None)"
proof -
  let ?r = "\<lparr>rq_method = ''POST'', rq_path = ''/mint'', rq_query = (\<lambda>_. []), rq_body = Text ''{''\<rparr>"
  obtain x where x: "deposit_Handler sample_lib sample_net sample_holder ?r sample_world = (Done x, sample_world)" "rs_status x = 400"
    by (simp add: deposit_routes h_mint_def decodeToAmount_def)
  obtain y where y: "handleSign sample_lib (sample_router ''Bank A router'' ''key://bank-a/issuer'')
      (sample_sign_request ''key://bank-a/issuer'') = Done y"
    using sample_request_served [OF sample_keys(1)] by blast
  from answers_have_their_clients_types [OF x(1) y] x show ?thesis
    by (auto simp: not_found_def not_allowed_def)
qed

end
