(* ===== verification/OpenZeppelin.thy ===== *)
theory OpenZeppelin
  imports Prelude
begin

text \<open>
  The OpenZeppelin contracts the token contracts inherit from, as a parameter. Their storage is the
  opaque type \<open>'b\<close>; \<open>oz\<close> is the record of the functions the contracts call on it, and of the
  inherited functions that call back into the overriding contract, whose state is \<open>'t\<close> and whose
  overridden functions are their first arguments. What a theorem relies on is the named hypothesis
  \<open>oz_ok\<close>: each function does what its documentation says, on the part of the storage that
  \<open>oz_view\<close> names. A uint256 is a natural number and the checked arithmetic is written out.
\<close>

section \<open>Results of a call\<close>

text \<open>\<open>require\<close>, and the next statement after one that may revert.\<close>

definition require :: "bool \<Rightarrow> error \<Rightarrow> 'a res \<Rightarrow> 'a res" where
  "require c e k = (if c then k else Err e)"

definition andThen :: "'a res \<Rightarrow> ('a \<Rightarrow> 'b res) \<Rightarrow> 'b res" where
  "andThen m f = (case m of Err e \<Rightarrow> Err e | Ok x \<Rightarrow> f x)"

lemma require_Ok_iff [simp]: "require c e k = Ok x \<longleftrightarrow> c \<and> k = Ok x"
  by (simp add: require_def)

lemma andThen_Ok_iff: "andThen m f = Ok y \<longleftrightarrow> (\<exists>x. m = Ok x \<and> f x = Ok y)"
  by (cases m) (simp_all add: andThen_def)

lemma andThen_simps [simp]: "andThen (Ok x) f = f x" "andThen (Err e) f = Err e"
  by (simp_all add: andThen_def)

lemma require_simps [simp]: "require True e k = k" "require False e k = Err e"
  by (simp_all add: require_def)

section \<open>Roles and the documented state\<close>

text \<open>The roles of the contracts; each is the hash of its name, distinct names have distinct hashes.\<close>

datatype role_id =
    DEFAULT_ADMIN_ROLE
  | MINTER_ROLE
  | PAUSER_ROLE
  | UNPAUSER_ROLE
  | BLOCKED_ADDRESS_BURNER_ROLE
  | MINT_RATE_LIMIT_SETTER_ROLE
  | BURNER_ROLE
  | UNWRAPPER_ROLE
  | BRIDGE_ECOSYSTEM_CONTRACT_ROLE
  | TOKEN_AUTHORITY_HANDLER_SETTER_ROLE
  | OtherRole bytes

record oz_view =
  vw_balance :: "address \<Rightarrow> nat"
  vw_supply :: nat
  vw_allowance :: "address \<Rightarrow> address \<Rightarrow> nat"
  vw_paused :: bool
  vw_role :: "role_id \<Rightarrow> address list"
  vw_owner :: address

definition empty_view :: oz_view where
  "empty_view = \<lparr>vw_balance = (\<lambda>_. 0), vw_supply = 0, vw_allowance = (\<lambda>_ _. 0), vw_paused = False,
     vw_role = (\<lambda>_. []), vw_owner = 0\<rparr>"

text \<open>What the documentation says, as functions on that state; \<open>None\<close> is a revert.\<close>

definition debit :: "address \<Rightarrow> nat \<Rightarrow> (address \<Rightarrow> nat) \<Rightarrow> address \<Rightarrow> nat" where
  "debit a n f = (if a = 0 then f else f(a := f a - n))"

definition credit :: "address \<Rightarrow> nat \<Rightarrow> (address \<Rightarrow> nat) \<Rightarrow> address \<Rightarrow> nat" where
  "credit a n f = (if a = 0 then f else f(a := f a + n))"

text \<open>ERC20 \<open>_update\<close>: a transfer, a mint from the zero address or a burn to it.\<close>

definition update_spec :: "address \<Rightarrow> address \<Rightarrow> nat \<Rightarrow> oz_view \<Rightarrow> oz_view option" where
  "update_spec from to n v =
     (if (if from = 0 then 2 ^ 256 \<le> vw_supply v + n else vw_balance v from < n) then None
      else Some (v\<lparr>vw_balance := credit to n (debit from n (vw_balance v)),
                   vw_supply := (vw_supply v + (if from = 0 then n else 0)) - (if to = 0 then n else 0)\<rparr>))"

definition approve_spec :: "address \<Rightarrow> address \<Rightarrow> nat \<Rightarrow> oz_view \<Rightarrow> oz_view option" where
  "approve_spec owner spender n v =
     (if owner = 0 \<or> spender = 0 then None
      else Some (v\<lparr>vw_allowance := (vw_allowance v)(owner := (vw_allowance v owner)(spender := n))\<rparr>))"

text \<open>The largest allowance is infinite: it is not spent.\<close>

definition spend_spec :: "address \<Rightarrow> address \<Rightarrow> nat \<Rightarrow> oz_view \<Rightarrow> oz_view option" where
  "spend_spec owner spender n v =
     (if vw_allowance v owner spender = 2 ^ 256 - 1 then Some v
      else if vw_allowance v owner spender < n then None
      else approve_spec owner spender (vw_allowance v owner spender - n) v)"

definition pause_spec :: "oz_view \<Rightarrow> oz_view option" where
  "pause_spec v = (if vw_paused v then None else Some (v\<lparr>vw_paused := True\<rparr>))"

definition unpause_spec :: "oz_view \<Rightarrow> oz_view option" where
  "unpause_spec v = (if vw_paused v then Some (v\<lparr>vw_paused := False\<rparr>) else None)"

definition grant_spec :: "role_id \<Rightarrow> address \<Rightarrow> oz_view \<Rightarrow> oz_view" where
  "grant_spec r a v = v\<lparr>vw_role := (vw_role v)(r := List.insert a (vw_role v r))\<rparr>"

definition revoke_spec :: "role_id \<Rightarrow> address \<Rightarrow> oz_view \<Rightarrow> oz_view" where
  "revoke_spec r a v = v\<lparr>vw_role := (vw_role v)(r := remove1 a (vw_role v r))\<rparr>"

definition ownership_spec :: "address \<Rightarrow> address \<Rightarrow> oz_view \<Rightarrow> oz_view option" where
  "ownership_spec sender newOwner v =
     (if sender = vw_owner v \<and> newOwner \<noteq> 0 then Some (v\<lparr>vw_owner := newOwner\<rparr>) else None)"

definition renounce_spec :: "address \<Rightarrow> oz_view \<Rightarrow> oz_view option" where
  "renounce_spec sender v = (if sender = vw_owner v then Some (v\<lparr>vw_owner := 0\<rparr>) else None)"

section \<open>The parameter\<close>

type_synonym 't transfer_hook = "address \<Rightarrow> address \<Rightarrow> nat \<Rightarrow> 't \<Rightarrow> 't res"
type_synonym 't role_hook = "role_id \<Rightarrow> address \<Rightarrow> 't \<Rightarrow> 't res"

record ('b, 't) oz =
  \<comment> \<open>storage of a fresh proxy, of one that the proxy factory made for an owner, and what is read of a storage\<close>
  oz_empty :: 'b
  oz_owned :: "address \<Rightarrow> 'b"
  oz_state :: "'b \<Rightarrow> oz_view"
  \<comment> \<open>\<open>super._update\<close>, \<open>_approve\<close>, \<open>_spendAllowance\<close>, \<open>_pause\<close>, \<open>_unpause\<close>, \<open>super._grantRole\<close>,
    \<open>super._revokeRole\<close>, \<open>transferOwnership\<close>, \<open>renounceOwnership\<close>, and the initializers of an admin\<close>
  oz_update :: "'b transfer_hook"
  oz_approve :: "'b transfer_hook"
  oz_spendAllowance :: "'b transfer_hook"
  oz_pause :: "'b \<Rightarrow> 'b res"
  oz_unpause :: "'b \<Rightarrow> 'b res"
  oz_grant :: "role_id \<Rightarrow> address \<Rightarrow> 'b \<Rightarrow> 'b"
  oz_revoke :: "role_id \<Rightarrow> address \<Rightarrow> 'b \<Rightarrow> 'b"
  oz_transferOwnership :: "address \<Rightarrow> address \<Rightarrow> 'b \<Rightarrow> 'b res"
  oz_renounceOwnership :: "address \<Rightarrow> 'b \<Rightarrow> 'b res"
  oz_init :: "string \<Rightarrow> string \<Rightarrow> address \<Rightarrow> 'b \<Rightarrow> 'b"
  \<comment> \<open>\<open>permit\<close>: owner, spender, value, deadline and signature\<close>
  oz_permit :: "address \<Rightarrow> address \<Rightarrow> nat \<Rightarrow> nat \<Rightarrow> bytes \<Rightarrow> 'b \<Rightarrow> 'b res"
  \<comment> \<open>\<open>_mint\<close>, \<open>_burn\<close>, \<open>transfer\<close> over the contract's \<open>_update\<close>; \<open>transferFrom\<close> also over its
    \<open>_spendAllowance\<close>\<close>
  oz_mint :: "'t transfer_hook \<Rightarrow> address \<Rightarrow> nat \<Rightarrow> 't \<Rightarrow> 't res"
  oz_burn :: "'t transfer_hook \<Rightarrow> address \<Rightarrow> nat \<Rightarrow> 't \<Rightarrow> 't res"
  oz_transfer :: "'t transfer_hook \<Rightarrow> 't transfer_hook"
  oz_transferFrom :: "'t transfer_hook \<Rightarrow> 't transfer_hook \<Rightarrow> address \<Rightarrow> 't transfer_hook"
  \<comment> \<open>\<open>grantRole\<close>, \<open>revokeRole\<close> by a caller of whom it is known whether he has the admin role\<close>
  oz_grantRole :: "'t role_hook \<Rightarrow> bool \<Rightarrow> 't role_hook"
  oz_revokeRole :: "'t role_hook \<Rightarrow> bool \<Rightarrow> 't role_hook"
  \<comment> \<open>\<open>renounceRole\<close>, over the contract's \<open>_revokeRole\<close>: the caller names the role and itself\<close>
  oz_renounceRole :: "'t role_hook \<Rightarrow> address \<Rightarrow> 't role_hook"

text \<open>A call that behaves as its documentation: it reverts, or the storage after it is the one said.\<close>

definition meets :: "('b \<Rightarrow> oz_view) \<Rightarrow> 'b res \<Rightarrow> oz_view option \<Rightarrow> bool" where
  "meets vw r s \<longleftrightarrow> (case s of None \<Rightarrow> \<not> is_ok r | Some v \<Rightarrow> \<exists>b. r = Ok b \<and> vw b = v)"

text \<open>The storage functions, ERC20, Pausable, AccessControlEnumerable and Ownable. A permit that is
  accepted is an approval; which signatures are accepted is not said.\<close>

definition oz_storage_ok :: "('b, 't) oz \<Rightarrow> bool" where
  "oz_storage_ok Z \<longleftrightarrow>
     oz_state Z (oz_empty Z) = empty_view \<and>
     (\<forall>a. oz_state Z (oz_owned Z a) = empty_view\<lparr>vw_owner := a\<rparr>) \<and>
     (\<forall>s a b. meets (oz_state Z) (oz_transferOwnership Z s a b) (ownership_spec s a (oz_state Z b))) \<and>
     (\<forall>s b. meets (oz_state Z) (oz_renounceOwnership Z s b) (renounce_spec s (oz_state Z b))) \<and>
     (\<forall>from to n b. meets (oz_state Z) (oz_update Z from to n b) (update_spec from to n (oz_state Z b))) \<and>
     (\<forall>owner spender n b. meets (oz_state Z) (oz_approve Z owner spender n b) (approve_spec owner spender n (oz_state Z b))) \<and>
     (\<forall>owner spender n b. meets (oz_state Z) (oz_spendAllowance Z owner spender n b) (spend_spec owner spender n (oz_state Z b))) \<and>
     (\<forall>b. meets (oz_state Z) (oz_pause Z b) (pause_spec (oz_state Z b))) \<and>
     (\<forall>b. meets (oz_state Z) (oz_unpause Z b) (unpause_spec (oz_state Z b))) \<and>
     (\<forall>r a b. oz_state Z (oz_grant Z r a b) = grant_spec r a (oz_state Z b)) \<and>
     (\<forall>r a b. oz_state Z (oz_revoke Z r a b) = revoke_spec r a (oz_state Z b)) \<and>
     (\<forall>nm sy a b. oz_state Z (oz_init Z nm sy a b) = (oz_state Z b)\<lparr>vw_paused := False, vw_owner := a\<rparr>) \<and>
     (\<forall>owner spender n deadline sig b b'. oz_permit Z owner spender n deadline sig b = Ok b' \<longrightarrow>
        approve_spec owner spender n (oz_state Z b) = Some (oz_state Z b'))"

text \<open>The inherited functions: the zero address is refused, the rest is the overridden function.\<close>

definition oz_hooks_ok :: "('b, 't) oz \<Rightarrow> bool" where
  "oz_hooks_ok Z \<longleftrightarrow>
     (\<forall>upd to n t. if to = 0 then \<not> is_ok (oz_mint Z upd to n t) else oz_mint Z upd to n t = upd 0 to n t) \<and>
     (\<forall>upd from n t. if from = 0 then \<not> is_ok (oz_burn Z upd from n t) else oz_burn Z upd from n t = upd from 0 n t) \<and>
     (\<forall>upd from to n t. if from = 0 \<or> to = 0 then \<not> is_ok (oz_transfer Z upd from to n t)
        else oz_transfer Z upd from to n t = upd from to n t) \<and>
     (\<forall>spend upd sp from to n t. if from = 0 \<or> to = 0 then \<not> is_ok (oz_transferFrom Z spend upd sp from to n t)
        else oz_transferFrom Z spend upd sp from to n t = andThen (spend from sp n t) (upd from to n)) \<and>
     (\<forall>h adm r a t. if adm then oz_grantRole Z h adm r a t = h r a t else \<not> is_ok (oz_grantRole Z h adm r a t)) \<and>
     (\<forall>h adm r a t. if adm then oz_revokeRole Z h adm r a t = h r a t else \<not> is_ok (oz_revokeRole Z h adm r a t)) \<and>
     (\<forall>h s r a t. if a = s then oz_renounceRole Z h s r a t = h r a t else \<not> is_ok (oz_renounceRole Z h s r a t))"

definition oz_ok :: "('b, 't) oz \<Rightarrow> bool" where
  "oz_ok Z \<longleftrightarrow> oz_storage_ok Z \<and> oz_hooks_ok Z"

section \<open>Consequences\<close>

lemma meets_Ok: "meets vw r s \<Longrightarrow> r = Ok b \<Longrightarrow> s = Some (vw b)"
  by (auto simp: meets_def split: option.splits)

lemma meets_Some: "meets vw r (Some v) \<Longrightarrow> \<exists>b. r = Ok b \<and> vw b = v"
  by (simp add: meets_def)

lemma meets_None: "meets vw r None \<Longrightarrow> r \<noteq> Ok b"
  by (auto simp: meets_def)

lemma oz_meets:
  assumes "oz_ok Z"
  shows "meets (oz_state Z) (oz_update Z from to n b) (update_spec from to n (oz_state Z b))"
    "meets (oz_state Z) (oz_approve Z from to n b) (approve_spec from to n (oz_state Z b))"
    "meets (oz_state Z) (oz_spendAllowance Z from to n b) (spend_spec from to n (oz_state Z b))"
    "meets (oz_state Z) (oz_pause Z b) (pause_spec (oz_state Z b))"
    "meets (oz_state Z) (oz_unpause Z b) (unpause_spec (oz_state Z b))"
    "meets (oz_state Z) (oz_transferOwnership Z from to b) (ownership_spec from to (oz_state Z b))"
    "meets (oz_state Z) (oz_renounceOwnership Z from b) (renounce_spec from (oz_state Z b))"
  using assms by (simp_all add: oz_ok_def oz_storage_ok_def)

lemmas oz_update_Ok = meets_Ok [OF oz_meets(1)]
  and oz_approve_Ok = meets_Ok [OF oz_meets(2)]
  and oz_spend_Ok = meets_Ok [OF oz_meets(3)]
  and oz_pause_Ok = meets_Ok [OF oz_meets(4)]
  and oz_unpause_Ok = meets_Ok [OF oz_meets(5)]
  and oz_transferOwnership_Ok = meets_Ok [OF oz_meets(6)]
  and oz_renounceOwnership_Ok = meets_Ok [OF oz_meets(7)]

lemma oz_update_succeeds:
  "oz_ok Z \<Longrightarrow> update_spec from to n (oz_state Z b) = Some v \<Longrightarrow> \<exists>b'. oz_update Z from to n b = Ok b' \<and> oz_state Z b' = v"
  by (metis meets_Some oz_meets(1))

lemma oz_approve_succeeds:
  "oz_ok Z \<Longrightarrow> approve_spec from to n (oz_state Z b) = Some v \<Longrightarrow> \<exists>b'. oz_approve Z from to n b = Ok b' \<and> oz_state Z b' = v"
  by (metis meets_Some oz_meets(2))

lemma oz_spend_succeeds:
  "oz_ok Z \<Longrightarrow> spend_spec from to n (oz_state Z b) = Some v \<Longrightarrow> \<exists>b'. oz_spendAllowance Z from to n b = Ok b' \<and> oz_state Z b' = v"
  by (metis meets_Some oz_meets(3))

lemma oz_transferOwnership_succeeds:
  "oz_ok Z \<Longrightarrow> ownership_spec s a (oz_state Z b) = Some v \<Longrightarrow> \<exists>b'. oz_transferOwnership Z s a b = Ok b' \<and> oz_state Z b' = v"
  by (metis meets_Some oz_meets(6))

lemma oz_views:
  assumes "oz_ok Z"
  shows "oz_state Z (oz_empty Z) = empty_view" "oz_state Z (oz_grant Z r a b) = grant_spec r a (oz_state Z b)"
    "oz_state Z (oz_revoke Z r a b) = revoke_spec r a (oz_state Z b)"
    "oz_state Z (oz_init Z nm sy a b) = (oz_state Z b)\<lparr>vw_paused := False, vw_owner := a\<rparr>"
    "oz_state Z (oz_owned Z a) = empty_view\<lparr>vw_owner := a\<rparr>"
  using assms by (simp_all add: oz_ok_def oz_storage_ok_def)

lemma oz_permit_Ok:
  "oz_ok Z \<Longrightarrow> oz_permit Z owner spender n deadline sig b = Ok b' \<Longrightarrow> approve_spec owner spender n (oz_state Z b) = Some (oz_state Z b')"
  by (simp add: oz_ok_def oz_storage_ok_def)

lemma oz_hooks:
  assumes "oz_ok Z"
  shows "if to = 0 then \<not> is_ok (oz_mint Z upd to n t) else oz_mint Z upd to n t = upd 0 to n t"
    "if from = 0 then \<not> is_ok (oz_burn Z upd from n t) else oz_burn Z upd from n t = upd from 0 n t"
    "if from = 0 \<or> to = 0 then \<not> is_ok (oz_transfer Z upd from to n t) else oz_transfer Z upd from to n t = upd from to n t"
    "if from = 0 \<or> to = 0 then \<not> is_ok (oz_transferFrom Z spend upd sp from to n t)
     else oz_transferFrom Z spend upd sp from to n t = andThen (spend from sp n t) (upd from to n)"
    "if adm then oz_grantRole Z h adm r a t = h r a t else \<not> is_ok (oz_grantRole Z h adm r a t)"
    "if adm then oz_revokeRole Z h adm r a t = h r a t else \<not> is_ok (oz_revokeRole Z h adm r a t)"
    "if a = sp then oz_renounceRole Z h sp r a t = h r a t else \<not> is_ok (oz_renounceRole Z h sp r a t)"
  using assms by (simp_all add: oz_ok_def oz_hooks_ok_def)

lemma if_Ok_iff: "(if c then \<not> is_ok r else r = s) \<Longrightarrow> r = Ok x \<longleftrightarrow> \<not> c \<and> s = Ok x"
  by (cases r) (auto split: if_splits)

lemmas oz_mint_iff = if_Ok_iff [OF oz_hooks(1)]
  and oz_burn_iff = if_Ok_iff [OF oz_hooks(2)]
  and oz_transfer_iff = if_Ok_iff [OF oz_hooks(3)]
  and oz_transferFrom_iff = if_Ok_iff [OF oz_hooks(4)]

lemma oz_grantRole_iff: "oz_ok Z \<Longrightarrow> oz_grantRole Z h adm r a t = Ok t' \<longleftrightarrow> adm \<and> h r a t = Ok t'"
  using oz_hooks(5) [of Z adm h r a t] by (cases adm) auto

lemma oz_revokeRole_iff: "oz_ok Z \<Longrightarrow> oz_revokeRole Z h adm r a t = Ok t' \<longleftrightarrow> adm \<and> h r a t = Ok t'"
  using oz_hooks(6) [of Z adm h r a t] by (cases adm) auto

lemma oz_renounceRole_iff: "oz_ok Z \<Longrightarrow> oz_renounceRole Z h s r a t = Ok t' \<longleftrightarrow> a = s \<and> h r a t = Ok t'"
  using oz_hooks(7) [of Z a s h r t] by (cases "a = s") auto

section \<open>An instance\<close>

text \<open>The documented state as storage.\<close>

definition of_spec :: "oz_view option \<Rightarrow> oz_view res" where
  "of_spec s = (case s of None \<Rightarrow> Err ''reverted'' | Some v \<Rightarrow> Ok v)"

definition sample_oz :: "(oz_view, 't) oz" where
  "sample_oz = \<lparr>oz_empty = empty_view, oz_owned = (\<lambda>a. empty_view\<lparr>vw_owner := a\<rparr>), oz_state = (\<lambda>v. v),
     oz_update = (\<lambda>from to n v. of_spec (update_spec from to n v)),
     oz_approve = (\<lambda>owner spender n v. of_spec (approve_spec owner spender n v)),
     oz_spendAllowance = (\<lambda>owner spender n v. of_spec (spend_spec owner spender n v)),
     oz_pause = (\<lambda>v. of_spec (pause_spec v)), oz_unpause = (\<lambda>v. of_spec (unpause_spec v)),
     oz_grant = grant_spec, oz_revoke = revoke_spec,
     oz_transferOwnership = (\<lambda>s a v. of_spec (ownership_spec s a v)), oz_renounceOwnership = (\<lambda>s v. of_spec (renounce_spec s v)),
     oz_init = (\<lambda>_ _ a v. v\<lparr>vw_paused := False, vw_owner := a\<rparr>),
     oz_permit = (\<lambda>owner spender n deadline sig v. if sig = [] then Err ''ERC2612InvalidSigner''
        else of_spec (approve_spec owner spender n v)),
     oz_mint = (\<lambda>upd to n t. if to = 0 then Err ''ERC20InvalidReceiver'' else upd 0 to n t),
     oz_burn = (\<lambda>upd from n t. if from = 0 then Err ''ERC20InvalidSender'' else upd from 0 n t),
     oz_transfer = (\<lambda>upd from to n t. if from = 0 then Err ''ERC20InvalidSender''
        else if to = 0 then Err ''ERC20InvalidReceiver'' else upd from to n t),
     oz_transferFrom = (\<lambda>spend upd sp from to n t. if from = 0 then Err ''ERC20InvalidSender''
        else if to = 0 then Err ''ERC20InvalidReceiver'' else andThen (spend from sp n t) (upd from to n)),
     oz_grantRole = (\<lambda>h adm r a t. if adm then h r a t else Err ''AccessControlUnauthorizedAccount''),
     oz_revokeRole = (\<lambda>h adm r a t. if adm then h r a t else Err ''AccessControlUnauthorizedAccount''),
     oz_renounceRole = (\<lambda>h s r a t. if a = s then h r a t else Err ''AccessControlBadConfirmation'')\<rparr>"

lemma meets_of_spec: "meets (\<lambda>v. v) (of_spec s) s"
  by (cases s) (simp_all add: meets_def of_spec_def)

lemma of_spec_Ok: "of_spec s = Ok v \<longleftrightarrow> s = Some v"
  by (cases s) (simp_all add: of_spec_def)

lemma sample_oz_ok: "oz_ok sample_oz"
  by (simp add: oz_ok_def oz_storage_ok_def oz_hooks_ok_def sample_oz_def meets_of_spec of_spec_Ok)

end
