(* ===== verification/AuthRegistry.thy ===== *)
theory AuthRegistry
  imports Prelude
begin

text \<open>
  contracts/lib/auth-registry/src/AuthRegistry.sol: the on-chain policy registry whose
  \<open>modifyPolicyWhitelist\<close> the deposit service calls for onboarding. A call returns its result or
  the reason it reverts with; a reverted call leaves the state unchanged. \<open>isAuthorized\<close>
  recurses along the parents, so it is a partial function, and that it always returns is
  proved for every reachable state. The part a client relies on is the locale
  \<open>access_registry\<close>.
\<close>

section \<open>State\<close>

datatype policy_type = WHITELIST | BLACKLIST

record policy =
  pl_admin :: address
  pl_policyType :: policy_type
  pl_parent :: u64
  pl_exists :: bool
  pl_member :: "address \<Rightarrow> bool"

datatype auth_event =
    PolicyCreated u64 address policy_type u64
  | PolicyMembershipChanged u64 address bool

record registry =
  rg_nextPolicyId :: u64
  rg_policies :: "u64 \<Rightarrow> policy"
  rg_events :: "auth_event list"

text \<open>A mapping starts with every field zero.\<close>

definition no_policy :: policy where
  "no_policy = \<lparr>pl_admin = 0, pl_policyType = WHITELIST, pl_parent = 0, pl_exists = False, pl_member = (\<lambda>_. False)\<rparr>"

definition registry_init :: registry where
  "registry_init = \<lparr>rg_nextPolicyId = 2, rg_policies = (\<lambda>_. no_policy), rg_events = []\<rparr>"

datatype revert = PolicyNotFound | Unauthorized | ArithmeticOverflow

section \<open>Creation\<close>

text \<open>\<open>_nextPolicyId++\<close> is checked arithmetic: it reverts at the last id.\<close>

definition create :: "address \<Rightarrow> policy_type \<Rightarrow> u64 \<Rightarrow> registry \<Rightarrow> revert + u64 \<times> registry" where
  "create admin t parent g =
     (let policyId = rg_nextPolicyId g in
      if policyId = - 1 then Inl ArithmeticOverflow
      else Inr (policyId,
        \<lparr>rg_nextPolicyId = policyId + 1,
         rg_policies = (rg_policies g)(policyId := (rg_policies g policyId)
            \<lparr>pl_admin := admin, pl_policyType := t, pl_parent := parent, pl_exists := True\<rparr>),
         rg_events = rg_events g @ [PolicyCreated policyId admin t parent]\<rparr>))"

definition createPolicy :: "address \<Rightarrow> policy_type \<Rightarrow> registry \<Rightarrow> revert + u64 \<times> registry" where
  "createPolicy admin t g = create admin t 0 g"

definition createChildPolicy :: "address \<Rightarrow> policy_type \<Rightarrow> u64 \<Rightarrow> registry \<Rightarrow> revert + u64 \<times> registry" where
  "createChildPolicy admin t parent g =
     (if parent \<noteq> 0 \<and> \<not> pl_exists (rg_policies g parent) then Inl PolicyNotFound
      else create admin t parent g)"

section \<open>Membership\<close>

definition setMember :: "address \<Rightarrow> u64 \<Rightarrow> address \<Rightarrow> bool \<Rightarrow> registry \<Rightarrow> revert + registry" where
  "setMember sender policyId account v g =
     (let p = rg_policies g policyId in
      if \<not> pl_exists p then Inl PolicyNotFound
      else if sender \<noteq> pl_admin p then Inl Unauthorized
      else Inr (g\<lparr>rg_policies := (rg_policies g)(policyId := p\<lparr>pl_member := (pl_member p)(account := v)\<rparr>),
                  rg_events := rg_events g @ [PolicyMembershipChanged policyId account v]\<rparr>))"

definition modifyPolicyWhitelist :: "address \<Rightarrow> u64 \<Rightarrow> address \<Rightarrow> bool \<Rightarrow> registry \<Rightarrow> revert + registry" where
  "modifyPolicyWhitelist sender policyId account allowed g = setMember sender policyId account allowed g"

definition modifyPolicyBlacklist :: "address \<Rightarrow> u64 \<Rightarrow> address \<Rightarrow> bool \<Rightarrow> registry \<Rightarrow> revert + registry" where
  "modifyPolicyBlacklist sender policyId account blocked g = setMember sender policyId account blocked g"

section \<open>Authorization\<close>

partial_function (option) isAuthorized :: "registry \<Rightarrow> u64 \<Rightarrow> address \<Rightarrow> (revert + bool) option" where
  "isAuthorized g policyId account =
     (let p = rg_policies g policyId in
      if \<not> pl_exists p then Some (Inl PolicyNotFound)
      else if pl_policyType p = WHITELIST then
        (if pl_member p account then Some (Inr True)
         else if pl_parent p \<noteq> 0 then isAuthorized g (pl_parent p) account
         else Some (Inr False))
      else
        (if pl_member p account then Some (Inr False)
         else if pl_parent p \<noteq> 0 then isAuthorized g (pl_parent p) account
         else Some (Inr True)))"

definition policyAdmin :: "registry \<Rightarrow> u64 \<Rightarrow> address" where
  "policyAdmin g policyId = pl_admin (rg_policies g policyId)"

definition getPolicyType :: "registry \<Rightarrow> u64 \<Rightarrow> policy_type" where
  "getPolicyType g policyId = pl_policyType (rg_policies g policyId)"

section \<open>Transactions and reachable states\<close>

text \<open>One transaction that changes the registry, by the account \<open>sender\<close>; a revert changes nothing.\<close>

inductive reg_step :: "registry \<Rightarrow> address \<Rightarrow> registry \<Rightarrow> bool" where
  root: "createPolicy admin t g = Inr (i, g') \<Longrightarrow> reg_step g sender g'"
| child: "createChildPolicy admin t parent g = Inr (i, g') \<Longrightarrow> reg_step g sender g'"
| white: "modifyPolicyWhitelist sender i account v g = Inr g' \<Longrightarrow> reg_step g sender g'"
| black: "modifyPolicyBlacklist sender i account v g = Inr g' \<Longrightarrow> reg_step g sender g'"

inductive reachable :: "registry \<Rightarrow> bool" where
  init: "reachable registry_init"
| step: "reachable g \<Longrightarrow> reg_step g sender g' \<Longrightarrow> reachable g'"

inductive_cases reg_stepE: "reg_step g sender g'"

text \<open>Ids from 2 up to the next one exist, no others; a parent is 0 or an older policy.\<close>

definition wf_registry :: "registry \<Rightarrow> bool" where
  "wf_registry g \<longleftrightarrow>
     2 \<le> rg_nextPolicyId g \<and>
     (\<forall>i. pl_exists (rg_policies g i) \<longleftrightarrow> 2 \<le> i \<and> i < rg_nextPolicyId g) \<and>
     (\<forall>i. pl_exists (rg_policies g i) \<longrightarrow>
        pl_parent (rg_policies g i) = 0 \<or>
        (pl_parent (rg_policies g i) < i \<and> pl_exists (rg_policies g (pl_parent (rg_policies g i)))))"

lemma wf_init: "wf_registry registry_init"
  by (auto simp: wf_registry_def registry_init_def no_policy_def)

lemma create_wf:
  assumes "wf_registry g" and "create admin t parent g = Inr (i, g')"
    and "parent = 0 \<or> pl_exists (rg_policies g parent)"
  shows "wf_registry g'"
proof -
  let ?n = "rg_nextPolicyId g"
  from assms(2) have n: "?n \<noteq> - 1" by (auto simp: create_def Let_def split: if_splits)
  then have "1 + ?n \<noteq> 0" by (metis add_eq_0_iff)
  then have "unat (?n + 1) = Suc (unat ?n)" by (simp add: unatSuc add.commute)
  then have lt: "j < ?n + 1 \<longleftrightarrow> j < ?n \<or> j = ?n" for j
    by (simp add: word_less_nat_alt word_unat_eq_iff) auto
  from assms(1) have old: "2 \<le> ?n" "\<And>i. pl_exists (rg_policies g i) \<longleftrightarrow> 2 \<le> i \<and> i < ?n"
    "\<And>i. pl_exists (rg_policies g i) \<Longrightarrow> pl_parent (rg_policies g i) = 0 \<or>
        (pl_parent (rg_policies g i) < i \<and> pl_exists (rg_policies g (pl_parent (rg_policies g i))))"
    unfolding wf_registry_def by blast+
  from assms(2) n have g': "rg_nextPolicyId g' = ?n + 1"
    "\<And>j. pl_exists (rg_policies g' j) \<longleftrightarrow> j = ?n \<or> pl_exists (rg_policies g j)"
    "\<And>j. pl_parent (rg_policies g' j) = (if j = ?n then parent else pl_parent (rg_policies g j))"
    by (auto simp: create_def Let_def split: if_splits)
  have p: "parent = 0 \<or> (parent < ?n \<and> pl_exists (rg_policies g parent))" using assms(3) old(2) by blast
  have "2 \<le> rg_nextPolicyId g'" using old(1) lt [of ?n] g'(1) by simp
  moreover have "pl_exists (rg_policies g' j) \<longleftrightarrow> 2 \<le> j \<and> j < rg_nextPolicyId g'" for j
    unfolding g'(1,2) lt old(2) using old(1) by blast
  moreover have "pl_parent (rg_policies g' j) = 0 \<or>
      (pl_parent (rg_policies g' j) < j \<and> pl_exists (rg_policies g' (pl_parent (rg_policies g' j))))"
    if "pl_exists (rg_policies g' j)" for j
  proof (cases "j = ?n")
    case True
    with p show ?thesis by (auto simp: g'(2,3))
  next
    case False
    with that old(3) [of j] show ?thesis by (auto simp: g'(2,3))
  qed
  ultimately show ?thesis unfolding wf_registry_def by blast
qed

lemma setMember_wf: "wf_registry g \<Longrightarrow> setMember sender i a v g = Inr g' \<Longrightarrow> wf_registry g'"
  by (auto simp: wf_registry_def setMember_def Let_def split: if_splits)

lemma reg_step_wf: "reg_step g sender g' \<Longrightarrow> wf_registry g \<Longrightarrow> wf_registry g'"
  by (erule reg_stepE)
    (auto simp: createPolicy_def createChildPolicy_def modifyPolicyWhitelist_def modifyPolicyBlacklist_def
      intro: create_wf setMember_wf split: if_splits)

lemma reachable_wf: "reachable g \<Longrightarrow> wf_registry g"
  by (induction rule: reachable.induct) (auto simp: wf_init reg_step_wf)

section \<open>Authorization returns\<close>

lemma wf_parent:
  assumes "wf_registry g" and "pl_exists (rg_policies g i)" and "pl_parent (rg_policies g i) \<noteq> 0"
  shows "pl_parent (rg_policies g i) < i" and "pl_exists (rg_policies g (pl_parent (rg_policies g i)))"
  using assms unfolding wf_registry_def by blast+

text \<open>Induction along the parents of an existing policy.\<close>

lemma policy_induct [consumes 2, case_names root child]:
  assumes "wf_registry g" and "pl_exists (rg_policies g i)"
    and "\<And>i. pl_exists (rg_policies g i) \<Longrightarrow> pl_parent (rg_policies g i) = 0 \<Longrightarrow> P i"
    and "\<And>i. pl_exists (rg_policies g i) \<Longrightarrow> pl_parent (rg_policies g i) \<noteq> 0 \<Longrightarrow>
           P (pl_parent (rg_policies g i)) \<Longrightarrow> P i"
  shows "P i"
  using assms(2)
proof (induction "unat i" arbitrary: i rule: less_induct)
  case less
  show ?case
  proof (cases "pl_parent (rg_policies g i) = 0")
    case False
    from wf_parent [OF assms(1) less.prems False] have "P (pl_parent (rg_policies g i))"
      by (intro less.hyps) (simp_all add: word_less_nat_alt)
    then show ?thesis by (rule assms(4) [OF less.prems False])
  qed (rule assms(3) [OF less.prems])
qed

lemma isAuthorized_missing: "\<not> pl_exists (rg_policies g i) \<Longrightarrow> isAuthorized g i a = Some (Inl PolicyNotFound)"
  by (subst isAuthorized.simps) (simp add: Let_def)

lemma isAuthorized_root:
  "pl_exists (rg_policies g i) \<Longrightarrow> pl_parent (rg_policies g i) = 0 \<Longrightarrow>
     isAuthorized g i a = Some (Inr (pl_member (rg_policies g i) a = (pl_policyType (rg_policies g i) = WHITELIST)))"
  by (subst isAuthorized.simps) (cases "pl_policyType (rg_policies g i)"; simp add: Let_def)

lemma isAuthorized_child:
  "pl_exists (rg_policies g i) \<Longrightarrow> pl_parent (rg_policies g i) \<noteq> 0 \<Longrightarrow>
     isAuthorized g i a =
       (if pl_member (rg_policies g i) a then Some (Inr (pl_policyType (rg_policies g i) = WHITELIST))
        else isAuthorized g (pl_parent (rg_policies g i)) a)"
  by (subst isAuthorized.simps) (cases "pl_policyType (rg_policies g i)"; simp add: Let_def)

lemma isAuthorized_returns:
  assumes "wf_registry g" and "pl_exists (rg_policies g i)"
  shows "\<exists>b. isAuthorized g i a = Some (Inr b)"
  using assms by (induction rule: policy_induct) (simp_all add: isAuthorized_root isAuthorized_child)

section \<open>The accounts a policy authorizes\<close>

definition auth_set :: "registry \<Rightarrow> u64 \<Rightarrow> address set" where
  "auth_set g i = {a. isAuthorized g i a = Some (Inr True)}"

definition members :: "registry \<Rightarrow> u64 \<Rightarrow> address set" where
  "members g i = {a. pl_member (rg_policies g i) a}"

lemma auth_set_eqs:
  assumes "pl_exists (rg_policies g i)"
  shows "auth_set g i =
     (let up = pl_parent (rg_policies g i) in
      case pl_policyType (rg_policies g i) of
        WHITELIST \<Rightarrow> members g i \<union> (if up = 0 then {} else auth_set g up)
      | BLACKLIST \<Rightarrow> (if up = 0 then UNIV else auth_set g up) - members g i)"
  using assms
  by (cases "pl_parent (rg_policies g i) = 0"; cases "pl_policyType (rg_policies g i)")
    (auto simp: auth_set_def members_def isAuthorized_root isAuthorized_child Let_def)

lemma setMember_policies:
  assumes "setMember sender i a v g = Inr g'"
  shows "pl_exists (rg_policies g' j) = pl_exists (rg_policies g j)"
    and "pl_parent (rg_policies g' j) = pl_parent (rg_policies g j)"
    and "pl_policyType (rg_policies g' j) = pl_policyType (rg_policies g j)"
    and "pl_admin (rg_policies g' j) = pl_admin (rg_policies g j)"
    and "members g' j = (if j = i then (if v then insert a (members g j) else members g j - {a}) else members g j)"
    and "pl_exists (rg_policies g i)" and "sender = pl_admin (rg_policies g i)"
  using assms by (auto simp: setMember_def members_def Let_def split: if_splits)

text \<open>Adding a member to a whitelist takes nothing away from any policy.\<close>

lemma whitelisting_monotone:
  assumes "wf_registry g" and "setMember sender i a True g = Inr g'"
    and "pl_policyType (rg_policies g i) = WHITELIST" and "pl_exists (rg_policies g j)"
  shows "auth_set g j \<subseteq> auth_set g' j"
  using assms(1,4)
proof (induction rule: policy_induct)
  case (root j)
  note p = setMember_policies [OF assms(2)]
  from root assms(3) show ?case
    by (auto simp: auth_set_eqs [of g j] auth_set_eqs [of g' j] p(1-3,5) Let_def split: policy_type.split)
next
  case (child j)
  note p = setMember_policies [OF assms(2)]
  from child assms(3) show ?case
    by (auto simp: auth_set_eqs [of g j] auth_set_eqs [of g' j] p(1-3,5) Let_def split: policy_type.split)
qed

lemma whitelisting_grants:
  assumes "setMember sender i a True g = Inr g'" and "pl_policyType (rg_policies g i) = WHITELIST"
  shows "a \<in> auth_set g' i"
proof -
  note p = setMember_policies [OF assms(1)]
  have "pl_exists (rg_policies g' i)" using p(1,6) by simp
  with assms(2) show ?thesis by (simp add: auth_set_eqs p(3,5) Let_def)
qed

section \<open>The interface\<close>

text \<open>Granting along a list of policies, stopping at the first one that reverts.\<close>

fun grant_all :: "('r \<Rightarrow> 'i \<Rightarrow> 'a \<Rightarrow> 'r option) \<Rightarrow> 'i list \<Rightarrow> 'a \<Rightarrow> 'r \<Rightarrow> 'r option" where
  "grant_all grant [] a r = Some r"
| "grant_all grant (i # is) a r = (case grant r i a of None \<Rightarrow> None | Some r' \<Rightarrow> grant_all grant is a r')"

text \<open>
  What onboarding relies on: where the caller may grant, granting succeeds and authorizes the
  account, authorizes nobody less anywhere, and leaves the caller free to grant elsewhere.
\<close>

locale access_registry =
  fixes grant :: "'r \<Rightarrow> 'i \<Rightarrow> 'a \<Rightarrow> 'r option"
    and authorized :: "'r \<Rightarrow> 'i \<Rightarrow> 'a \<Rightarrow> bool"
    and grantable :: "'r \<Rightarrow> 'i \<Rightarrow> bool"
  assumes grants: "grantable r i \<Longrightarrow> \<exists>r'. grant r i a = Some r'"
    and granted: "grantable r i \<Longrightarrow> grant r i a = Some r' \<Longrightarrow> authorized r' i a"
    and keeps: "grantable r i \<Longrightarrow> grant r i a = Some r' \<Longrightarrow> authorized r j b \<Longrightarrow> authorized r' j b"
    and grantable_after: "grantable r i \<Longrightarrow> grant r i a = Some r' \<Longrightarrow> grantable r j \<Longrightarrow> grantable r' j"
begin

lemma grant_all_authorizes:
  assumes "\<forall>i \<in> set is. grantable r i"
  shows "\<exists>r'. grant_all grant is a r = Some r' \<and> (\<forall>i \<in> set is. authorized r' i a) \<and>
             (\<forall>j b. authorized r j b \<longrightarrow> authorized r' j b)"
  using assms
proof (induction "is" arbitrary: r)
  case (Cons i "is")
  then have i: "grantable r i" by simp
  then obtain s where s: "grant r i a = Some s" using grants by blast
  from Cons.prems have "\<forall>j \<in> set is. grantable s j" using grantable_after [OF i s] by simp
  from Cons.IH [OF this] obtain r' where r': "grant_all grant is a s = Some r'"
    "\<forall>j \<in> set is. authorized r' j a" "\<forall>j b. authorized s j b \<longrightarrow> authorized r' j b" by blast
  with s granted [OF i s] keeps [OF i s] show ?case by auto
qed simp

end

text \<open>The registry provides it for an account that administers whitelists.\<close>

definition whitelist_call :: "address \<Rightarrow> registry \<Rightarrow> u64 \<Rightarrow> address \<Rightarrow> registry option" where
  "whitelist_call sender g i a =
     (case modifyPolicyWhitelist sender i a True g of Inl _ \<Rightarrow> None | Inr g' \<Rightarrow> Some g')"

definition authorized_in :: "registry \<Rightarrow> u64 \<Rightarrow> address \<Rightarrow> bool" where
  "authorized_in g i a \<longleftrightarrow> isAuthorized g i a = Some (Inr True)"

definition administers_whitelist :: "address \<Rightarrow> registry \<Rightarrow> u64 \<Rightarrow> bool" where
  "administers_whitelist sender g i \<longleftrightarrow>
     wf_registry g \<and> pl_exists (rg_policies g i) \<and> policyAdmin g i = sender \<and> getPolicyType g i = WHITELIST"

lemma authorized_in_set: "authorized_in g i a \<longleftrightarrow> a \<in> auth_set g i"
  by (simp add: authorized_in_def auth_set_def)

lemma whitelist_call_Some: "whitelist_call sender g i a = Some g' \<longleftrightarrow> setMember sender i a True g = Inr g'"
  by (auto simp: whitelist_call_def modifyPolicyWhitelist_def split: sum.splits)

interpretation ar: access_registry "whitelist_call sender" authorized_in "administers_whitelist sender"
  for sender :: address
proof (unfold_locales, goal_cases)
  case (1 g i a)
  then show ?case
    by (simp add: whitelist_call_Some administers_whitelist_def policyAdmin_def setMember_def Let_def)
next
  case (2 g i a g')
  then show ?case
    by (auto simp: authorized_in_set whitelist_call_Some administers_whitelist_def getPolicyType_def whitelisting_grants)
next
  case (3 g i a g' j b)
  then have "pl_exists (rg_policies g j)"
    using isAuthorized_missing [of g j b] by (auto simp: authorized_in_def)
  with 3 whitelisting_monotone [of g sender i a g' j] show ?case
    by (auto simp: authorized_in_set whitelist_call_Some administers_whitelist_def getPolicyType_def)
next
  case (4 g i a g' j)
  then have m: "setMember sender i a True g = Inr g'" by (simp add: whitelist_call_Some)
  from 4 setMember_wf [OF _ m] show ?case
    by (simp add: administers_whitelist_def policyAdmin_def getPolicyType_def setMember_policies(1,3,4) [OF m])
qed

section \<open>Properties\<close>

text \<open>
  C18. In every state the registry can reach, the policies are exactly the ids from 2 up to the
  next one, each one's parent is 0 or an older policy, and so \<open>isAuthorized\<close> always returns: with
  an answer for a policy that exists and with \<open>PolicyNotFound\<close> for any other id.
\<close>

theorem registry_invariant:
  assumes "reachable g"
  shows "(pl_exists (rg_policies g i) \<longleftrightarrow> 2 \<le> i \<and> i < rg_nextPolicyId g) \<and>
         (pl_exists (rg_policies g i) \<longrightarrow>
            (pl_parent (rg_policies g i) = 0 \<or>
             (pl_parent (rg_policies g i) < i \<and> pl_exists (rg_policies g (pl_parent (rg_policies g i))))) \<and>
            (\<exists>b. isAuthorized g i a = Some (Inr b))) \<and>
         (\<not> pl_exists (rg_policies g i) \<longrightarrow> isAuthorized g i a = Some (Inl PolicyNotFound))"
  using reachable_wf [OF assms] isAuthorized_returns [OF reachable_wf [OF assms]] isAuthorized_missing
  unfolding wf_registry_def by blast

text \<open>A sample registry: a root whitelist, a whitelist under it and a blacklist, one admin.\<close>

definition sample_policy :: "policy_type \<Rightarrow> u64 \<Rightarrow> policy" where
  "sample_policy t up = \<lparr>pl_admin = 7, pl_policyType = t, pl_parent = up, pl_exists = True, pl_member = (\<lambda>_. False)\<rparr>"

definition sample_registry :: registry where
  "sample_registry =
     \<lparr>rg_nextPolicyId = 5,
      rg_policies = (\<lambda>_. no_policy)(2 := sample_policy WHITELIST 0, 3 := sample_policy WHITELIST 2,
                                    4 := sample_policy BLACKLIST 0),
      rg_events = [PolicyCreated 2 7 WHITELIST 0, PolicyCreated 3 7 WHITELIST 2, PolicyCreated 4 7 BLACKLIST 0]\<rparr>"

lemma sample_reachable: "reachable sample_registry"
proof -
  define g1 where "g1 = \<lparr>rg_nextPolicyId = 3, rg_policies = (\<lambda>_. no_policy)(2 := sample_policy WHITELIST 0),
    rg_events = [PolicyCreated 2 7 WHITELIST 0]\<rparr>"
  define g2 where "g2 = \<lparr>rg_nextPolicyId = 4,
    rg_policies = (\<lambda>_. no_policy)(2 := sample_policy WHITELIST 0, 3 := sample_policy WHITELIST 2),
    rg_events = [PolicyCreated 2 7 WHITELIST 0, PolicyCreated 3 7 WHITELIST 2]\<rparr>"
  have 1: "createPolicy 7 WHITELIST registry_init = Inr (2, g1)"
    by (simp add: createPolicy_def create_def registry_init_def g1_def sample_policy_def no_policy_def)
  have 2: "createChildPolicy 7 WHITELIST 2 g1 = Inr (3, g2)"
    by (simp add: createChildPolicy_def create_def g1_def g2_def sample_policy_def no_policy_def)
  have 3: "createPolicy 7 BLACKLIST g2 = Inr (4, sample_registry)"
    by (simp add: createPolicy_def create_def g2_def sample_registry_def sample_policy_def no_policy_def)
  from reachable.init 1 have "reachable g1" by (blast intro: reachable.step reg_step.root)
  with 2 have "reachable g2" by (blast intro: reachable.step reg_step.child)
  with 3 show ?thesis by (blast intro: reachable.step reg_step.root)
qed

theorem registry_invariant_witness:
  "(\<exists>b. isAuthorized sample_registry 3 9 = Some (Inr b)) \<and> isAuthorized sample_registry 1 9 = Some (Inl PolicyNotFound)"
  using registry_invariant [OF sample_reachable, of 3 9] registry_invariant [OF sample_reachable, of 1 9]
  by (simp add: sample_registry_def sample_policy_def no_policy_def)

text \<open>
  C19. \<open>isAuthorized\<close> implements the documented sets: for an existing policy, a whitelist
  authorizes its members and whoever its parent authorizes (nobody without a parent), a
  blacklist authorizes whoever its parent authorizes (everybody without a parent) except its
  members; and a membership change by the administrator changes exactly the one account in the
  one policy's member set.
\<close>

theorem registry_refines_the_documented_sets:
  assumes "pl_exists (rg_policies g i)"
  shows "auth_set g i =
           (let up = pl_parent (rg_policies g i) in
            case getPolicyType g i of
              WHITELIST \<Rightarrow> members g i \<union> (if up = 0 then {} else auth_set g up)
            | BLACKLIST \<Rightarrow> (if up = 0 then UNIV else auth_set g up) - members g i) \<and>
         (\<exists>g'. setMember (policyAdmin g i) i a v g = Inr g' \<and>
            members g' i = (if v then insert a (members g i) else members g i - {a}) \<and>
            (\<forall>j. j \<noteq> i \<longrightarrow> members g' j = members g j))"
proof -
  obtain g' where g': "setMember (policyAdmin g i) i a v g = Inr g'"
    using assms by (simp add: setMember_def policyAdmin_def Let_def)
  show ?thesis
    unfolding getPolicyType_def using auth_set_eqs [OF assms] g' setMember_policies(5) [OF g'] by auto
qed

theorem registry_refines_the_documented_sets_witness:
  "auth_set sample_registry 4 = UNIV \<and> auth_set sample_registry 2 = {}"
proof -
  have "pl_exists (rg_policies sample_registry 4)" "pl_exists (rg_policies sample_registry 2)"
    by (simp_all add: sample_registry_def sample_policy_def)
  from registry_refines_the_documented_sets [OF this(1)] registry_refines_the_documented_sets [OF this(2)]
  show ?thesis by (auto simp: sample_registry_def sample_policy_def getPolicyType_def members_def)
qed

text \<open>
  C28. Only a policy's administrator changes its members: a transaction by any other account
  leaves the member set of every existing policy as it is, and no transaction at all changes an
  existing policy's administrator, type or parent.
\<close>

theorem only_the_admin_changes_members:
  assumes "reachable g" and "reg_step g sender g'" and "pl_exists (rg_policies g i)"
  shows "policyAdmin g' i = policyAdmin g i \<and> getPolicyType g' i = getPolicyType g i \<and>
         pl_parent (rg_policies g' i) = pl_parent (rg_policies g i) \<and>
         (sender \<noteq> policyAdmin g i \<longrightarrow> members g' i = members g i)"
proof -
  have new: "rg_policies g' i = rg_policies g i" if "create admin t up g = Inr (n, g')" for admin t up n
  proof -
    have "i < rg_nextPolicyId g" using reachable_wf [OF assms(1)] assms(3) by (simp add: wf_registry_def)
    then show ?thesis using that by (auto simp: create_def Let_def split: if_splits)
  qed
  have member: "?thesis" if "setMember sender j a v g = Inr g'" for j a v
    using setMember_policies [OF that] by (auto simp: policyAdmin_def getPolicyType_def)
  from assms(2) show ?thesis
  proof (cases rule: reg_step.cases)
    case (root admin t n)
    with new show ?thesis by (auto simp: createPolicy_def policyAdmin_def getPolicyType_def members_def)
  next
    case (child admin t parent n)
    with new show ?thesis
      by (auto simp: createChildPolicy_def policyAdmin_def getPolicyType_def members_def split: if_splits)
  next
    case (white j a v)
    then show ?thesis by (intro member) (simp add: modifyPolicyWhitelist_def)
  next
    case (black j a v)
    then show ?thesis by (intro member) (simp add: modifyPolicyBlacklist_def)
  qed
qed

text \<open>The sample's administrator is 7: account 9 opens a policy of its own, and 7's policies keep their members.\<close>

theorem only_the_admin_changes_members_witness:
  "\<exists>g'. reg_step sample_registry 9 g' \<and> members g' 2 = members sample_registry 2 \<and> policyAdmin g' 2 = 7"
proof -
  obtain g' where "createPolicy 9 WHITELIST sample_registry = Inr (5, g')"
    by (simp add: createPolicy_def create_def sample_registry_def)
  then have s: "reg_step sample_registry 9 g'" by (rule reg_step.root)
  have "pl_exists (rg_policies sample_registry 2)" "policyAdmin sample_registry 2 = 7"
    by (simp_all add: sample_registry_def sample_policy_def policyAdmin_def)
  with only_the_admin_changes_members [OF sample_reachable s this(1)] s show ?thesis by auto
qed

end
