(* ===== verification/Tokens.thy ===== *)
theory Tokens
  imports OpenZeppelin AuthRegistry
begin

text \<open>
  contracts/src/v3: the two tokens of the demo. \<open>token\<close> is the state of a proxy: its storage struct,
  the transient unblock flag, the OpenZeppelin storage and which of the two contracts it runs.
  ReserveLedger works on its own state alone; StablecoinTemplateV3 calls its reserve ledger, so
  its operations work on the chain: the registry, the tokens by address and the token authority. A
  call returns the state after it or the reason it reverts with; events are not modelled.
\<close>

section \<open>State\<close>

datatype token_code = ReserveLedgerCode | StablecoinCode address

record 'b token =
  tk_code :: token_code
  tk_base :: 'b
  tk_maxSupply :: nat
  tk_decimals :: "8 word"
  tk_transferPolicyId :: u64
  tk_mintRecipientPolicyId :: u64
  tk_migrationToWrappedCompleted :: bool
  tk_temporaryUnblock :: bool
  tk_initialized :: nat

text \<open>The token authority keeps its limits per stablecoin and minter.\<close>

record 'b authority =
  ta_base :: 'b
  ta_minterAllowances :: "address \<Rightarrow> address \<Rightarrow> nat"
  ta_mintTxnLimits :: "address \<Rightarrow> nat"
  ta_tokenHandlers :: "address \<Rightarrow> address"
  ta_initialized :: nat

record 'b chain =
  ch_registry :: registry
  ch_token :: "address \<Rightarrow> 'b token option"
  ch_authority :: "'b authority"

type_synonym 'b tokens_lib = "('b, 'b token) oz"

abbreviation tview :: "'b tokens_lib \<Rightarrow> 'b token \<Rightarrow> oz_view" where
  "tview Z t \<equiv> oz_state Z (tk_base t)"

definition balanceOf :: "'b tokens_lib \<Rightarrow> 'b token \<Rightarrow> address \<Rightarrow> nat" where
  "balanceOf Z t a = vw_balance (tview Z t) a"

definition totalSupply :: "'b tokens_lib \<Rightarrow> 'b token \<Rightarrow> nat" where
  "totalSupply Z t = vw_supply (tview Z t)"

definition hasRole :: "'b tokens_lib \<Rightarrow> 'b token \<Rightarrow> role_id \<Rightarrow> address \<Rightarrow> bool" where
  "hasRole Z t r a \<longleftrightarrow> a \<in> set (vw_role (tview Z t) r)"

section \<open>StablecoinTemplateV3Base\<close>

text \<open>A call of the registry: the answer, or a revert.\<close>

definition auth_call :: "registry \<Rightarrow> u64 \<Rightarrow> address \<Rightarrow> bool res" where
  "auth_call g policyId account =
     (case isAuthorized g policyId account of
        Some (Inr b) \<Rightarrow> Ok b
      | Some (Inl _) \<Rightarrow> Err ''PolicyNotFound''
      | None \<Rightarrow> Err ''out of gas'')"

definition isBlocked :: "registry \<Rightarrow> 'b token \<Rightarrow> address \<Rightarrow> bool res" where
  "isBlocked g t account = andThen (auth_call g (tk_transferPolicyId t) account) (\<lambda>b. Ok (\<not> b))"

definition isMintRecipient :: "registry \<Rightarrow> 'b token \<Rightarrow> address \<Rightarrow> bool res" where
  "isMintRecipient g t account = auth_call g (tk_mintRecipientPolicyId t) account"

definition whenNotInBlockedList :: "registry \<Rightarrow> 'b token \<Rightarrow> address \<Rightarrow> 'a res \<Rightarrow> 'a res" where
  "whenNotInBlockedList g t account body =
     (if tk_temporaryUnblock t then body
      else andThen (auth_call g (tk_transferPolicyId t) account) (\<lambda>ok. require ok ''AddressBlocked'' body))"

definition onlyRole :: "'b tokens_lib \<Rightarrow> 'b token \<Rightarrow> role_id \<Rightarrow> address \<Rightarrow> 'a res \<Rightarrow> 'a res" where
  "onlyRole Z t r sender body = require (hasRole Z t r sender) ''AccessControlUnauthorizedAccount'' body"

text \<open>A function of the OpenZeppelin storage, on the token.\<close>

definition on_base :: "('b \<Rightarrow> 'b res) \<Rightarrow> 'b token \<Rightarrow> 'b token res" where
  "on_base f t = andThen (f (tk_base t)) (\<lambda>b. Ok (t\<lparr>tk_base := b\<rparr>))"

text \<open>\<open>_update\<close>: every transfer, mint and burn goes through it.\<close>

definition token_update :: "'b tokens_lib \<Rightarrow> registry \<Rightarrow> 'b token transfer_hook" where
  "token_update Z g from to amount t =
     require (\<not> vw_paused (tview Z t)) ''EnforcedPause''
       (whenNotInBlockedList g t to
       (whenNotInBlockedList g t from
       (on_base (oz_update Z from to amount) t)))"

text \<open>The inherited ERC20 functions, over it.\<close>

definition approve :: "'b tokens_lib \<Rightarrow> 'b token transfer_hook" where
  "approve Z owner spender amount = on_base (oz_approve Z owner spender amount)"

definition spendAllowance :: "'b tokens_lib \<Rightarrow> 'b token transfer_hook" where
  "spendAllowance Z owner spender amount = on_base (oz_spendAllowance Z owner spender amount)"

definition transfer :: "'b tokens_lib \<Rightarrow> registry \<Rightarrow> address \<Rightarrow> address \<Rightarrow> nat \<Rightarrow> 'b token \<Rightarrow> 'b token res" where
  "transfer Z g sender to amount t = oz_transfer Z (token_update Z g) sender to amount t"

definition transferFrom :: "'b tokens_lib \<Rightarrow> registry \<Rightarrow> address \<Rightarrow> address \<Rightarrow> address \<Rightarrow> nat \<Rightarrow> 'b token
    \<Rightarrow> 'b token res" where
  "transferFrom Z g sender from to amount t =
     oz_transferFrom Z (spendAllowance Z) (token_update Z g) sender from to amount t"

definition pause :: "'b tokens_lib \<Rightarrow> address \<Rightarrow> 'b token \<Rightarrow> 'b token res" where
  "pause Z sender t = onlyRole Z t PAUSER_ROLE sender (on_base (oz_pause Z) t)"

definition unpause :: "'b tokens_lib \<Rightarrow> address \<Rightarrow> 'b token \<Rightarrow> 'b token res" where
  "unpause Z sender t = onlyRole Z t UNPAUSER_ROLE sender (on_base (oz_unpause Z) t)"

definition setTransferPolicyId :: "'b tokens_lib \<Rightarrow> address \<Rightarrow> u64 \<Rightarrow> 'b token \<Rightarrow> 'b token res" where
  "setTransferPolicyId Z sender policyId t =
     onlyRole Z t DEFAULT_ADMIN_ROLE sender (Ok (t\<lparr>tk_transferPolicyId := policyId\<rparr>))"

definition setMintRecipientPolicyId :: "'b tokens_lib \<Rightarrow> address \<Rightarrow> u64 \<Rightarrow> 'b token \<Rightarrow> 'b token res" where
  "setMintRecipientPolicyId Z sender policyId t =
     onlyRole Z t DEFAULT_ADMIN_ROLE sender (Ok (t\<lparr>tk_mintRecipientPolicyId := policyId\<rparr>))"

definition setMaxSupply :: "'b tokens_lib \<Rightarrow> address \<Rightarrow> nat \<Rightarrow> 'b token \<Rightarrow> 'b token res" where
  "setMaxSupply Z sender amount t =
     onlyRole Z t DEFAULT_ADMIN_ROLE sender
       (require (totalSupply Z t \<le> amount) ''MaxSupplyMustBeGreaterThanOrEqualToTotalSupply''
       (Ok (t\<lparr>tk_maxSupply := amount\<rparr>)))"

definition grantRole_hook :: "'b tokens_lib \<Rightarrow> 'b token role_hook" where
  "grantRole_hook Z r account t =
     require (account \<noteq> 0) ''ZeroAddress'' (Ok (t\<lparr>tk_base := oz_grant Z r account (tk_base t)\<rparr>))"

definition revokeRole_hook :: "'b tokens_lib \<Rightarrow> 'b token role_hook" where
  "revokeRole_hook Z r account t =
     require (r \<noteq> DEFAULT_ADMIN_ROLE \<or> 1 < length (vw_role (tview Z t) DEFAULT_ADMIN_ROLE)) ''CannotRevokeLastAdminRole''
       (Ok (t\<lparr>tk_base := oz_revoke Z r account (tk_base t)\<rparr>))"

definition grantRole :: "'b tokens_lib \<Rightarrow> address \<Rightarrow> role_id \<Rightarrow> address \<Rightarrow> 'b token \<Rightarrow> 'b token res" where
  "grantRole Z sender r account t =
     oz_grantRole Z (grantRole_hook Z) (hasRole Z t DEFAULT_ADMIN_ROLE sender) r account t"

definition revokeRole :: "'b tokens_lib \<Rightarrow> address \<Rightarrow> role_id \<Rightarrow> address \<Rightarrow> 'b token \<Rightarrow> 'b token res" where
  "revokeRole Z sender r account t =
     oz_revokeRole Z (revokeRole_hook Z) (hasRole Z t DEFAULT_ADMIN_ROLE sender) r account t"

text \<open>\<open>renounceRole\<close> is inherited and goes through the overridden \<open>_revokeRole\<close>; so do the functions of
  Ownable through the storage.\<close>

definition renounceRole :: "'b tokens_lib \<Rightarrow> address \<Rightarrow> role_id \<Rightarrow> address \<Rightarrow> 'b token \<Rightarrow> 'b token res" where
  "renounceRole Z sender r confirmation t = oz_renounceRole Z (revokeRole_hook Z) sender r confirmation t"

definition transferOwnership :: "'b tokens_lib \<Rightarrow> address \<Rightarrow> address \<Rightarrow> 'b token \<Rightarrow> 'b token res" where
  "transferOwnership Z sender newOwner = on_base (oz_transferOwnership Z sender newOwner)"

definition renounceOwnership :: "'b tokens_lib \<Rightarrow> address \<Rightarrow> 'b token \<Rightarrow> 'b token res" where
  "renounceOwnership Z sender = on_base (oz_renounceOwnership Z sender)"

text \<open>\<open>_initialize\<close>, with the OpenZeppelin initializers it calls.\<close>

definition initialize_token :: "'b tokens_lib \<Rightarrow> string \<Rightarrow> string \<Rightarrow> 8 word \<Rightarrow> address \<Rightarrow> u64 \<Rightarrow> u64
    \<Rightarrow> 'b token \<Rightarrow> 'b token res" where
  "initialize_token Z nm sy dec admin transferPolicyId mintRecipientPolicyId t =
     require (admin \<noteq> 0) ''ZeroAddress''
       (grantRole_hook Z DEFAULT_ADMIN_ROLE admin
          (t\<lparr>tk_maxSupply := totalSupply Z t, tk_decimals := dec, tk_transferPolicyId := transferPolicyId,
             tk_mintRecipientPolicyId := mintRecipientPolicyId, tk_base := oz_init Z nm sy admin (tk_base t)\<rparr>))"

definition onlyOwnerOrAdmin :: "'b tokens_lib \<Rightarrow> 'b token \<Rightarrow> address \<Rightarrow> 'a res \<Rightarrow> 'a res" where
  "onlyOwnerOrAdmin Z t sender body =
     require (hasRole Z t DEFAULT_ADMIN_ROLE sender \<or> vw_owner (tview Z t) = sender) ''OnlyOwnerOrAdmin'' body"

text \<open>The modifiers \<open>initializer\<close> and \<open>reinitializer(2)\<close> keep the version in the storage; a proxy made by
  the factory is at version 1.\<close>

definition reinitializer :: "nat \<Rightarrow> ('b token \<Rightarrow> 'b token res) \<Rightarrow> 'b token \<Rightarrow> 'b token res" where
  "reinitializer version body t =
     require (tk_initialized t < version) ''InvalidInitialization'' (body (t\<lparr>tk_initialized := version\<rparr>))"

definition initialize :: "'b tokens_lib \<Rightarrow> string \<Rightarrow> string \<Rightarrow> 8 word \<Rightarrow> address \<Rightarrow> u64 \<Rightarrow> u64 \<Rightarrow> 'b token \<Rightarrow> 'b token res" where
  "initialize Z nm sy dec admin transferPolicyId mintRecipientPolicyId =
     reinitializer 1 (initialize_token Z nm sy dec admin transferPolicyId mintRecipientPolicyId)"

definition reinitialize :: "'b tokens_lib \<Rightarrow> address \<Rightarrow> string \<Rightarrow> string \<Rightarrow> 8 word \<Rightarrow> address \<Rightarrow> u64 \<Rightarrow> u64
    \<Rightarrow> 'b token \<Rightarrow> 'b token res" where
  "reinitialize Z sender nm sy dec admin transferPolicyId mintRecipientPolicyId =
     reinitializer 2 (\<lambda>t. onlyOwnerOrAdmin Z t sender
       (initialize_token Z nm sy dec admin transferPolicyId mintRecipientPolicyId t))"

text \<open>\<open>permit\<close> is inherited. An upgrade is authorized by \<open>_authorizeUpgrade\<close> and changes the code a proxy
  runs; the new implementation is given by what is at its address, one of the two tokens or neither.\<close>

definition permit :: "'b tokens_lib \<Rightarrow> address \<Rightarrow> address \<Rightarrow> nat \<Rightarrow> nat \<Rightarrow> bytes \<Rightarrow> 'b token \<Rightarrow> 'b token res" where
  "permit Z owner spender amount deadline sig = on_base (oz_permit Z owner spender amount deadline sig)"

definition authorizeUpgrade :: "'b tokens_lib \<Rightarrow> 'b token \<Rightarrow> address \<Rightarrow> 'a res \<Rightarrow> 'a res" where
  "authorizeUpgrade Z t sender body = onlyRole Z t DEFAULT_ADMIN_ROLE sender body"

definition upgradeTo :: "'b tokens_lib \<Rightarrow> address \<Rightarrow> token_code option \<Rightarrow> 'b token \<Rightarrow> 'b token res" where
  "upgradeTo Z sender newImplementation t =
     authorizeUpgrade Z t sender
       (case newImplementation of
          None \<Rightarrow> Err ''ERC1967InvalidImplementation''
        | Some code \<Rightarrow> Ok (t\<lparr>tk_code := code\<rparr>))"

section \<open>ReserveLedger\<close>

definition ledger_mint :: "'b tokens_lib \<Rightarrow> registry \<Rightarrow> address \<Rightarrow> address \<Rightarrow> nat \<Rightarrow> 'b token \<Rightarrow> 'b token res" where
  "ledger_mint Z g sender to amount t =
     onlyRole Z t MINTER_ROLE sender
       (require (totalSupply Z t + amount < 2 ^ 256) ''Panic: arithmetic overflow''
       (require (totalSupply Z t + amount \<le> tk_maxSupply t) ''MaxSupplyExceeded''
       (andThen (isMintRecipient g t to) (\<lambda>ok.
        require ok ''AccountNotValidRecipient''
       (oz_mint Z (token_update Z g) to amount t)))))"

definition ledger_burn :: "'b tokens_lib \<Rightarrow> registry \<Rightarrow> address \<Rightarrow> nat \<Rightarrow> 'b token \<Rightarrow> 'b token res" where
  "ledger_burn Z g sender amount t =
     onlyRole Z t MINTER_ROLE sender (oz_burn Z (token_update Z g) sender amount t)"

definition ledger_burnFromBlockedAddress :: "'b tokens_lib \<Rightarrow> registry \<Rightarrow> address \<Rightarrow> address \<Rightarrow> 'b token
    \<Rightarrow> 'b token res" where
  "ledger_burnFromBlockedAddress Z g sender account t =
     onlyRole Z t BLOCKED_ADDRESS_BURNER_ROLE sender
       (andThen (isBlocked g t account) (\<lambda>blocked.
        require blocked ''AddressIsNotBlocked''
       (require (0 < balanceOf Z t account) ''NoBalanceToBurn''
       (andThen (oz_burn Z (token_update Z g) account (balanceOf Z t account) (t\<lparr>tk_temporaryUnblock := True\<rparr>)) (\<lambda>t.
        Ok (t\<lparr>tk_temporaryUnblock := False\<rparr>))))))"

section \<open>Calls between contracts\<close>

definition on_token :: "'b chain \<Rightarrow> address \<Rightarrow> ('b token \<Rightarrow> 'b token res) \<Rightarrow> 'b chain res" where
  "on_token c a f =
     (case ch_token c a of
        None \<Rightarrow> Err ''call to a non-contract''
      | Some t \<Rightarrow> andThen (f t) (\<lambda>t'. Ok (c\<lparr>ch_token := (ch_token c)(a \<mapsto> t')\<rparr>)))"

text \<open>A function only StablecoinTemplateV3 has, with its state and the address of its ledger.\<close>

definition on_stablecoin :: "'b chain \<Rightarrow> address \<Rightarrow> ('b token \<Rightarrow> address \<Rightarrow> 'b chain res) \<Rightarrow> 'b chain res" where
  "on_stablecoin c a f =
     (case ch_token c a of
        None \<Rightarrow> Err ''call to a non-contract''
      | Some t \<Rightarrow> (case tk_code t of ReserveLedgerCode \<Rightarrow> Err ''no such function'' | StablecoinCode rl \<Rightarrow> f t rl))"

definition call_transfer :: "'b tokens_lib \<Rightarrow> 'b chain \<Rightarrow> address \<Rightarrow> address \<Rightarrow> address \<Rightarrow> nat \<Rightarrow> 'b chain res" where
  "call_transfer Z c a sender to amount = on_token c a (transfer Z (ch_registry c) sender to amount)"

definition call_transferFrom :: "'b tokens_lib \<Rightarrow> 'b chain \<Rightarrow> address \<Rightarrow> address \<Rightarrow> address \<Rightarrow> address \<Rightarrow> nat
    \<Rightarrow> 'b chain res" where
  "call_transferFrom Z c a sender from to amount = on_token c a (transferFrom Z (ch_registry c) sender from to amount)"

definition call_approve :: "'b tokens_lib \<Rightarrow> 'b chain \<Rightarrow> address \<Rightarrow> address \<Rightarrow> address \<Rightarrow> nat \<Rightarrow> 'b chain res" where
  "call_approve Z c a sender spender amount = on_token c a (approve Z sender spender amount)"

section \<open>StablecoinTemplateV3\<close>

definition wrap :: "'b tokens_lib \<Rightarrow> 'b chain \<Rightarrow> address \<Rightarrow> address \<Rightarrow> address \<Rightarrow> nat \<Rightarrow> 'b chain res" where
  "wrap Z c this sender to amount =
     on_stablecoin c this (\<lambda>t rl.
       require (0 < amount) ''AmountCannotBeZero''
      (andThen (isMintRecipient (ch_registry c) t to) (\<lambda>ok.
       require ok ''AccountNotValidRecipient''
      (andThen (call_transferFrom Z c rl this sender this amount) (\<lambda>c.
       on_token c this (oz_mint Z (token_update Z (ch_registry c)) to amount))))))"

definition unwrap :: "'b tokens_lib \<Rightarrow> 'b chain \<Rightarrow> address \<Rightarrow> address \<Rightarrow> nat \<Rightarrow> 'b chain res" where
  "unwrap Z c this sender amount =
     on_stablecoin c this (\<lambda>t rl.
       onlyRole Z t MINTER_ROLE sender
      (andThen (on_token c this (oz_burn Z (token_update Z (ch_registry c)) sender amount)) (\<lambda>c.
       call_transfer Z c rl this sender amount)))"

definition stablecoin_mint :: "'b tokens_lib \<Rightarrow> registry \<Rightarrow> address \<Rightarrow> address \<Rightarrow> nat \<Rightarrow> 'b token \<Rightarrow> 'b token res" where
  "stablecoin_mint Z g sender to amount t =
     onlyRole Z t MINTER_ROLE sender
       (require (\<not> tk_migrationToWrappedCompleted t) ''MigrationToWrappedCompleted''
       (require (totalSupply Z t + amount < 2 ^ 256) ''Panic: arithmetic overflow''
       (require (totalSupply Z t + amount \<le> tk_maxSupply t) ''MaxSupplyExceeded''
       (andThen (isMintRecipient g t to) (\<lambda>ok.
        require ok ''AccountNotValidRecipient''
       (oz_mint Z (token_update Z g) to amount t))))))"

definition stablecoin_burn :: "'b tokens_lib \<Rightarrow> registry \<Rightarrow> address \<Rightarrow> nat \<Rightarrow> 'b token \<Rightarrow> 'b token res" where
  "stablecoin_burn Z g sender amount t =
     onlyRole Z t MINTER_ROLE sender
       (require (\<not> tk_migrationToWrappedCompleted t) ''MigrationToWrappedCompleted''
       (oz_burn Z (token_update Z g) sender amount t))"

definition completeMigrationToWrapped :: "'b tokens_lib \<Rightarrow> 'b chain \<Rightarrow> address \<Rightarrow> address \<Rightarrow> 'b chain res" where
  "completeMigrationToWrapped Z c this sender =
     on_stablecoin c this (\<lambda>t rl.
       onlyRole Z t DEFAULT_ADMIN_ROLE sender
      (case ch_token c rl of
         None \<Rightarrow> Err ''call to a non-contract''
       | Some ledger \<Rightarrow>
           require (balanceOf Z ledger this = totalSupply Z t) ''ReserveLedgerBalanceMismatch''
          (on_token c this (\<lambda>t. Ok (t\<lparr>tk_migrationToWrappedCompleted := True\<rparr>)))))"

definition stablecoin_burnFromBlockedAddress :: "'b tokens_lib \<Rightarrow> 'b chain \<Rightarrow> address \<Rightarrow> address \<Rightarrow> address
    \<Rightarrow> 'b chain res" where
  "stablecoin_burnFromBlockedAddress Z c this sender account =
     on_stablecoin c this (\<lambda>t rl.
       onlyRole Z t BLOCKED_ADDRESS_BURNER_ROLE sender
      (andThen (isBlocked (ch_registry c) t account) (\<lambda>blocked.
       require blocked ''AddressIsNotBlocked''
      (let accountBalance = balanceOf Z t account in
       require (0 < accountBalance) ''NoBalanceToBurn''
      (andThen (on_token c this (\<lambda>t. oz_burn Z (token_update Z (ch_registry c)) account accountBalance
                                       (t\<lparr>tk_temporaryUnblock := True\<rparr>))) (\<lambda>c.
       andThen (call_transfer Z c rl this sender accountBalance) (\<lambda>c.
       on_token c this (\<lambda>t. Ok (t\<lparr>tk_temporaryUnblock := False\<rparr>)))))))))"

text \<open>\<open>mint\<close>, \<open>burn\<close> and \<open>burnFromBlockedAddress\<close> of whichever token is at an address.\<close>

definition call_mint :: "'b tokens_lib \<Rightarrow> 'b chain \<Rightarrow> address \<Rightarrow> address \<Rightarrow> address \<Rightarrow> nat \<Rightarrow> 'b chain res" where
  "call_mint Z c a sender to amount =
     on_token c a (\<lambda>t. case tk_code t of
        ReserveLedgerCode \<Rightarrow> ledger_mint Z (ch_registry c) sender to amount t
      | StablecoinCode _ \<Rightarrow> stablecoin_mint Z (ch_registry c) sender to amount t)"

definition call_burn :: "'b tokens_lib \<Rightarrow> 'b chain \<Rightarrow> address \<Rightarrow> address \<Rightarrow> nat \<Rightarrow> 'b chain res" where
  "call_burn Z c a sender amount =
     on_token c a (\<lambda>t. case tk_code t of
        ReserveLedgerCode \<Rightarrow> ledger_burn Z (ch_registry c) sender amount t
      | StablecoinCode _ \<Rightarrow> stablecoin_burn Z (ch_registry c) sender amount t)"

definition call_burnFromBlockedAddress :: "'b tokens_lib \<Rightarrow> 'b chain \<Rightarrow> address \<Rightarrow> address \<Rightarrow> address \<Rightarrow> 'b chain res" where
  "call_burnFromBlockedAddress Z c a sender account =
     (case ch_token c a of
        None \<Rightarrow> Err ''call to a non-contract''
      | Some t \<Rightarrow>
          (case tk_code t of
             ReserveLedgerCode \<Rightarrow> on_token c a (ledger_burnFromBlockedAddress Z (ch_registry c) sender account)
           | StablecoinCode _ \<Rightarrow> stablecoin_burnFromBlockedAddress Z c a sender account))"

end
