(* ===== verification/Token_Authority.thy ===== *)
theory Token_Authority
  imports Tokens
begin

text \<open>
  contracts/src/tokenAuthority: the contract the issuer mints through, with its limits, and the
  token handlers it calls. The addresses fixed at deployment and the code of the handlers are the
  argument \<open>D\<close>; every other state is in the chain. Transactions by an account are the datatype
  \<open>tx\<close>, run by \<open>exec\<close>. An upgrade names the code at the address it gives, one of the contracts modelled
  here or none, and has no call to follow it; the call is a transaction of its own.
\<close>

section \<open>What is deployed\<close>

datatype handler_code = ReserveLedgerWrappedHandler address | SingleTokenHandler

record deployed =
  dy_TokenAuthority :: address
  dy_ReserveLedgerToken :: address
  dy_handler :: "address \<Rightarrow> handler_code option"

definition ABSOLUTE_MAX :: nat where
  "ABSOLUTE_MAX = 1000000000 * 1000000"

section \<open>Token handlers\<close>

definition onlyTokenAuthority :: "deployed \<Rightarrow> address \<Rightarrow> 'a res \<Rightarrow> 'a res" where
  "onlyTokenAuthority D sender body = require (sender = dy_TokenAuthority D) ''OnlyTokenAuthority'' body"

definition handler_mint :: "'b tokens_lib \<Rightarrow> deployed \<Rightarrow> 'b chain \<Rightarrow> address \<Rightarrow> address \<Rightarrow> address \<Rightarrow> address \<Rightarrow> nat
    \<Rightarrow> 'b chain res" where
  "handler_mint Z D c this sender stablecoin to amount =
     (case dy_handler D this of
        None \<Rightarrow> Err ''call to a non-contract''
      | Some (ReserveLedgerWrappedHandler rl) \<Rightarrow>
          onlyTokenAuthority D sender
         (require (to \<noteq> 0) ''ZeroAddress''
         (andThen (call_mint Z c rl this this amount) (\<lambda>c.
          andThen (call_approve Z c rl this stablecoin amount) (\<lambda>c.
          wrap Z c stablecoin this to amount))))
      | Some SingleTokenHandler \<Rightarrow>
          onlyTokenAuthority D sender
         (require (to \<noteq> 0) ''ZeroAddress''
         (call_mint Z c stablecoin this to amount)))"

definition handler_burn :: "'b tokens_lib \<Rightarrow> deployed \<Rightarrow> 'b chain \<Rightarrow> address \<Rightarrow> address \<Rightarrow> address \<Rightarrow> nat
    \<Rightarrow> 'b chain res" where
  "handler_burn Z D c this sender stablecoin amount =
     (case dy_handler D this of
        None \<Rightarrow> Err ''call to a non-contract''
      | Some (ReserveLedgerWrappedHandler rl) \<Rightarrow>
          onlyTokenAuthority D sender
         (andThen (call_transferFrom Z c stablecoin this sender this amount) (\<lambda>c.
          andThen (unwrap Z c stablecoin this amount) (\<lambda>c.
          call_burn Z c rl this amount)))
      | Some SingleTokenHandler \<Rightarrow>
          onlyTokenAuthority D sender
         (andThen (call_transferFrom Z c stablecoin this sender this amount) (\<lambda>c.
          call_burn Z c stablecoin this amount)))"

definition handler_wrap :: "'b tokens_lib \<Rightarrow> deployed \<Rightarrow> 'b chain \<Rightarrow> address \<Rightarrow> address \<Rightarrow> address \<Rightarrow> address \<Rightarrow> nat
    \<Rightarrow> 'b chain res" where
  "handler_wrap Z D c this sender stablecoin to amount =
     (case dy_handler D this of
        None \<Rightarrow> Err ''call to a non-contract''
      | Some (ReserveLedgerWrappedHandler rl) \<Rightarrow>
          onlyTokenAuthority D sender
         (require (to \<noteq> 0) ''ZeroAddress''
         (andThen (call_transferFrom Z c rl this sender this amount) (\<lambda>c.
          andThen (call_approve Z c rl this stablecoin amount) (\<lambda>c.
          wrap Z c stablecoin this to amount))))
      | Some SingleTokenHandler \<Rightarrow> onlyTokenAuthority D sender (Err ''NotSupported''))"

definition handler_unwrap :: "'b tokens_lib \<Rightarrow> deployed \<Rightarrow> 'b chain \<Rightarrow> address \<Rightarrow> address \<Rightarrow> address \<Rightarrow> address \<Rightarrow> nat
    \<Rightarrow> 'b chain res" where
  "handler_unwrap Z D c this sender stablecoin to amount =
     (case dy_handler D this of
        None \<Rightarrow> Err ''call to a non-contract''
      | Some (ReserveLedgerWrappedHandler rl) \<Rightarrow>
          onlyTokenAuthority D sender
         (require (to \<noteq> 0) ''ZeroAddress''
         (andThen (call_transferFrom Z c stablecoin this sender this amount) (\<lambda>c.
          andThen (unwrap Z c stablecoin this amount) (\<lambda>c.
          call_transfer Z c rl this to amount))))
      | Some SingleTokenHandler \<Rightarrow> onlyTokenAuthority D sender (Err ''NotSupported''))"

section \<open>The authority\<close>

definition authority_hasRole :: "'b tokens_lib \<Rightarrow> 'b chain \<Rightarrow> role_id \<Rightarrow> address \<Rightarrow> bool" where
  "authority_hasRole Z c r a \<longleftrightarrow> a \<in> set (vw_role (oz_state Z (ta_base (ch_authority c))) r)"

definition authority_onlyRole :: "'b tokens_lib \<Rightarrow> 'b chain \<Rightarrow> role_id \<Rightarrow> address \<Rightarrow> 'a res \<Rightarrow> 'a res" where
  "authority_onlyRole Z c r sender body =
     require (authority_hasRole Z c r sender) ''AccessControlUnauthorizedAccount'' body"

text \<open>Writing a state variable of the authority.\<close>

definition on_authority :: "'b chain \<Rightarrow> ('b authority \<Rightarrow> 'b authority) \<Rightarrow> 'b chain" where
  "on_authority c f = c\<lparr>ch_authority := f (ch_authority c)\<rparr>"

definition authority_internal_mint :: "'b tokens_lib \<Rightarrow> deployed \<Rightarrow> 'b chain \<Rightarrow> address \<Rightarrow> address \<Rightarrow> nat \<Rightarrow> 'b chain res" where
  "authority_internal_mint Z D c stablecoin to amount =
     require (amount \<le> ABSOLUTE_MAX) ''AmountExceedsAbsoluteMax''
    (let tokenHandler = ta_tokenHandlers (ch_authority c) stablecoin in
     require (tokenHandler \<noteq> 0) ''TokenHandlerNotSet''
    (handler_mint Z D c tokenHandler (dy_TokenAuthority D) stablecoin to amount))"

definition authority_mint :: "'b tokens_lib \<Rightarrow> deployed \<Rightarrow> 'b chain \<Rightarrow> address \<Rightarrow> address \<Rightarrow> address \<Rightarrow> nat
    \<Rightarrow> 'b chain res" where
  "authority_mint Z D c sender stablecoin to amount =
     require (0 < amount) ''AmountCannotBeZero''
    (let mintTxnLimit = ta_mintTxnLimits (ch_authority c) stablecoin;
         minterAllowance = ta_minterAllowances (ch_authority c) stablecoin sender in
     require (amount \<le> minterAllowance) ''MinterAllowanceExceeded''
    (require (amount \<le> mintTxnLimit) ''MintTxnLimitExceeded''
    (authority_internal_mint Z D
       (on_authority c (\<lambda>t. t\<lparr>ta_minterAllowances := (ta_minterAllowances t)(stablecoin :=
          (ta_minterAllowances t stablecoin)(sender := minterAllowance - amount))\<rparr>))
       stablecoin to amount)))"

definition mintBridgeEcosystem :: "'b tokens_lib \<Rightarrow> deployed \<Rightarrow> 'b chain \<Rightarrow> address \<Rightarrow> address \<Rightarrow> address \<Rightarrow> nat
    \<Rightarrow> 'b chain res" where
  "mintBridgeEcosystem Z D c sender stablecoin to amount =
     authority_onlyRole Z c BRIDGE_ECOSYSTEM_CONTRACT_ROLE sender
       (authority_internal_mint Z D c stablecoin to amount)"

definition authority_burn :: "'b tokens_lib \<Rightarrow> deployed \<Rightarrow> 'b chain \<Rightarrow> address \<Rightarrow> address \<Rightarrow> nat \<Rightarrow> 'b chain res" where
  "authority_burn Z D c sender stablecoin amount =
     authority_onlyRole Z c BURNER_ROLE sender
    (let tokenHandler = ta_tokenHandlers (ch_authority c) stablecoin; this = dy_TokenAuthority D in
     require (tokenHandler \<noteq> 0) ''TokenHandlerNotSet''
    (andThen (call_transferFrom Z c stablecoin this sender this amount) (\<lambda>c.
     andThen (call_approve Z c stablecoin this tokenHandler amount) (\<lambda>c.
     handler_burn Z D c tokenHandler this stablecoin amount))))"

definition authority_unwrap :: "'b tokens_lib \<Rightarrow> deployed \<Rightarrow> 'b chain \<Rightarrow> address \<Rightarrow> address \<Rightarrow> nat \<Rightarrow> 'b chain res" where
  "authority_unwrap Z D c sender stablecoin amount =
     authority_onlyRole Z c UNWRAPPER_ROLE sender
    (let tokenHandler = ta_tokenHandlers (ch_authority c) stablecoin; this = dy_TokenAuthority D in
     require (tokenHandler \<noteq> 0) ''TokenHandlerNotSet''
    (andThen (call_transferFrom Z c stablecoin this sender this amount) (\<lambda>c.
     andThen (call_approve Z c stablecoin this tokenHandler amount) (\<lambda>c.
     handler_unwrap Z D c tokenHandler this stablecoin sender amount))))"

definition authority_wrap :: "'b tokens_lib \<Rightarrow> deployed \<Rightarrow> 'b chain \<Rightarrow> address \<Rightarrow> address \<Rightarrow> address \<Rightarrow> nat
    \<Rightarrow> 'b chain res" where
  "authority_wrap Z D c sender stablecoin to amount =
     require (to \<noteq> 0) ''ZeroAddress''
    (require (0 < amount) ''AmountCannotBeZero''
    (let tokenHandler = ta_tokenHandlers (ch_authority c) stablecoin; this = dy_TokenAuthority D in
     require (tokenHandler \<noteq> 0) ''TokenHandlerNotSet''
    (andThen (call_transferFrom Z c (dy_ReserveLedgerToken D) this sender this amount) (\<lambda>c.
     andThen (call_approve Z c (dy_ReserveLedgerToken D) this tokenHandler amount) (\<lambda>c.
     handler_wrap Z D c tokenHandler this stablecoin to amount)))))"

section \<open>Setters\<close>

definition setTxnMintLimit :: "'b tokens_lib \<Rightarrow> 'b chain \<Rightarrow> address \<Rightarrow> address \<Rightarrow> nat \<Rightarrow> 'b chain res" where
  "setTxnMintLimit Z c sender stablecoin limit =
     authority_onlyRole Z c MINT_RATE_LIMIT_SETTER_ROLE sender
    (require (limit < ABSOLUTE_MAX) ''AmountExceedsAbsoluteMax''
    (Ok (on_authority c (\<lambda>t. t\<lparr>ta_mintTxnLimits := (ta_mintTxnLimits t)(stablecoin := limit)\<rparr>))))"

definition setMinterAllowance :: "'b tokens_lib \<Rightarrow> 'b chain \<Rightarrow> address \<Rightarrow> address \<Rightarrow> address \<Rightarrow> nat \<Rightarrow> 'b chain res" where
  "setMinterAllowance Z c sender stablecoin minter allowed =
     authority_onlyRole Z c MINT_RATE_LIMIT_SETTER_ROLE sender
    (require (allowed < ABSOLUTE_MAX) ''AmountExceedsAbsoluteMax''
    (Ok (on_authority c (\<lambda>t. t\<lparr>ta_minterAllowances := (ta_minterAllowances t)(stablecoin :=
       (ta_minterAllowances t stablecoin)(minter := allowed))\<rparr>))))"

text \<open>\<open>ERC165Checker.supportsInterface\<close> answers yes for the handlers and no for other addresses.\<close>

definition setTokenHandler :: "'b tokens_lib \<Rightarrow> deployed \<Rightarrow> 'b chain \<Rightarrow> address \<Rightarrow> address \<Rightarrow> address \<Rightarrow> 'b chain res" where
  "setTokenHandler Z D c sender stablecoin tokenHandler =
     authority_onlyRole Z c TOKEN_AUTHORITY_HANDLER_SETTER_ROLE sender
    (require (stablecoin \<noteq> 0) ''ZeroAddress''
    (require (tokenHandler \<noteq> 0) ''ZeroAddress''
    (require (dy_handler D tokenHandler \<noteq> None) ''InvalidTokenHandler''
    (Ok (on_authority c (\<lambda>t. t\<lparr>ta_tokenHandlers := (ta_tokenHandlers t)(stablecoin := tokenHandler)\<rparr>))))))"

definition registerStablecoin :: "'b tokens_lib \<Rightarrow> deployed \<Rightarrow> 'b chain \<Rightarrow> address \<Rightarrow> address \<Rightarrow> address \<Rightarrow> nat
    \<Rightarrow> 'b chain res" where
  "registerStablecoin Z D c sender stablecoin tokenHandler limit =
     authority_onlyRole Z c TOKEN_AUTHORITY_HANDLER_SETTER_ROLE sender
    (require (ta_tokenHandlers (ch_authority c) stablecoin = 0) ''StablecoinAlreadyRegistered''
    (require (stablecoin \<noteq> 0) ''ZeroAddress''
    (require (tokenHandler \<noteq> 0) ''ZeroAddress''
    (require (limit < ABSOLUTE_MAX) ''AmountExceedsAbsoluteMax''
    (require (dy_handler D tokenHandler \<noteq> None) ''InvalidTokenHandler''
    (Ok (on_authority c (\<lambda>t. t\<lparr>ta_tokenHandlers := (ta_tokenHandlers t)(stablecoin := tokenHandler),
                               ta_mintTxnLimits := (ta_mintTxnLimits t)(stablecoin := limit)\<rparr>))))))))"

definition unregisterStablecoin :: "'b tokens_lib \<Rightarrow> 'b chain \<Rightarrow> address \<Rightarrow> address \<Rightarrow> 'b chain res" where
  "unregisterStablecoin Z c sender stablecoin =
     authority_onlyRole Z c TOKEN_AUTHORITY_HANDLER_SETTER_ROLE sender
    (require (stablecoin \<noteq> 0) ''ZeroAddress''
    (require (ta_tokenHandlers (ch_authority c) stablecoin \<noteq> 0) ''StablecoinNotRegistered''
    (Ok (on_authority c (\<lambda>t. t\<lparr>ta_tokenHandlers := (ta_tokenHandlers t)(stablecoin := 0),
                               ta_mintTxnLimits := (ta_mintTxnLimits t)(stablecoin := 0)\<rparr>)))))"

text \<open>The inherited role functions of the authority, which overrides neither hook.\<close>

definition authority_grantRole :: "'b tokens_lib \<Rightarrow> 'b chain \<Rightarrow> address \<Rightarrow> role_id \<Rightarrow> address \<Rightarrow> 'b chain res" where
  "authority_grantRole Z c sender r account =
     authority_onlyRole Z c DEFAULT_ADMIN_ROLE sender
       (Ok (on_authority c (\<lambda>t. t\<lparr>ta_base := oz_grant Z r account (ta_base t)\<rparr>)))"

definition authority_revokeRole :: "'b tokens_lib \<Rightarrow> 'b chain \<Rightarrow> address \<Rightarrow> role_id \<Rightarrow> address \<Rightarrow> 'b chain res" where
  "authority_revokeRole Z c sender r account =
     authority_onlyRole Z c DEFAULT_ADMIN_ROLE sender
       (Ok (on_authority c (\<lambda>t. t\<lparr>ta_base := oz_revoke Z r account (ta_base t)\<rparr>)))"

definition authority_renounceRole :: "'b tokens_lib \<Rightarrow> 'b chain \<Rightarrow> address \<Rightarrow> role_id \<Rightarrow> address \<Rightarrow> 'b chain res" where
  "authority_renounceRole Z c sender r confirmation =
     require (confirmation = sender) ''AccessControlBadConfirmation''
       (Ok (on_authority c (\<lambda>t. t\<lparr>ta_base := oz_revoke Z r confirmation (ta_base t)\<rparr>)))"

text \<open>The initializer of the authority's proxy, and its upgrade, which changes only the implementation.\<close>

definition authority_initialize :: "'b tokens_lib \<Rightarrow> address \<Rightarrow> 'b authority \<Rightarrow> 'b authority res" where
  "authority_initialize Z admin t =
     require (ta_initialized t = 0) ''InvalidInitialization''
       (Ok (t\<lparr>ta_base := oz_grant Z DEFAULT_ADMIN_ROLE admin (ta_base t), ta_initialized := 1\<rparr>))"

definition authority_authorizeUpgrade :: "'b tokens_lib \<Rightarrow> 'b chain \<Rightarrow> address \<Rightarrow> 'a res \<Rightarrow> 'a res" where
  "authority_authorizeUpgrade Z c sender body = authority_onlyRole Z c DEFAULT_ADMIN_ROLE sender body"

definition authority_upgradeTo :: "'b tokens_lib \<Rightarrow> 'b chain \<Rightarrow> address \<Rightarrow> bool \<Rightarrow> 'b chain res" where
  "authority_upgradeTo Z c sender implements =
     authority_authorizeUpgrade Z c sender (require implements ''ERC1967InvalidImplementation'' (Ok c))"

section \<open>Transactions\<close>

datatype tx =
    TokenTransfer address address nat
  | TokenTransferFrom address address address nat
  | TokenApprove address address nat
  | TokenMint address address nat
  | TokenBurn address nat
  | TokenBurnFromBlocked address address
  | TokenWrap address address nat
  | TokenUnwrap address nat
  | TokenCompleteMigration address
  | TokenPause address
  | TokenUnpause address
  | TokenSetTransferPolicyId address u64
  | TokenSetMintRecipientPolicyId address u64
  | TokenSetMaxSupply address nat
  | TokenGrantRole address role_id address
  | TokenRevokeRole address role_id address
  | TokenRenounceRole address role_id address
  | TokenTransferOwnership address address
  | TokenRenounceOwnership address
  | TokenPermit address address address nat nat bytes
  | TokenInitialize address string string "8 word" address u64 u64
  | TokenReinitialize address string string "8 word" address u64 u64
  | TokenUpgrade address "token_code option"
  | AuthorityMint address address nat
  | AuthorityMintBridge address address nat
  | AuthorityBurn address nat
  | AuthorityUnwrap address nat
  | AuthorityWrap address address nat
  | AuthoritySetTxnMintLimit address nat
  | AuthoritySetMinterAllowance address address nat
  | AuthoritySetTokenHandler address address
  | AuthorityRegister address address nat
  | AuthorityUnregister address
  | AuthorityGrantRole role_id address
  | AuthorityRevokeRole role_id address
  | AuthorityRenounceRole role_id address
  | AuthorityInitialize address
  | AuthorityUpgrade bool
  | RegistryCreatePolicy address policy_type
  | RegistryCreateChildPolicy address policy_type u64
  | RegistryWhitelist u64 address bool
  | RegistryBlacklist u64 address bool

definition on_registry :: "'b chain \<Rightarrow> revert + registry \<Rightarrow> 'b chain res" where
  "on_registry c r = (case r of Inl _ \<Rightarrow> Err ''reverted'' | Inr g \<Rightarrow> Ok (c\<lparr>ch_registry := g\<rparr>))"

fun exec :: "'b tokens_lib \<Rightarrow> deployed \<Rightarrow> address \<Rightarrow> tx \<Rightarrow> 'b chain \<Rightarrow> 'b chain res" where
  "exec Z D s (TokenTransfer a to n) c = call_transfer Z c a s to n"
| "exec Z D s (TokenTransferFrom a from to n) c = call_transferFrom Z c a s from to n"
| "exec Z D s (TokenApprove a spender n) c = call_approve Z c a s spender n"
| "exec Z D s (TokenMint a to n) c = call_mint Z c a s to n"
| "exec Z D s (TokenBurn a n) c = call_burn Z c a s n"
| "exec Z D s (TokenBurnFromBlocked a account) c = call_burnFromBlockedAddress Z c a s account"
| "exec Z D s (TokenWrap a to n) c = wrap Z c a s to n"
| "exec Z D s (TokenUnwrap a n) c = unwrap Z c a s n"
| "exec Z D s (TokenCompleteMigration a) c = completeMigrationToWrapped Z c a s"
| "exec Z D s (TokenPause a) c = on_token c a (pause Z s)"
| "exec Z D s (TokenUnpause a) c = on_token c a (unpause Z s)"
| "exec Z D s (TokenSetTransferPolicyId a i) c = on_token c a (setTransferPolicyId Z s i)"
| "exec Z D s (TokenSetMintRecipientPolicyId a i) c = on_token c a (setMintRecipientPolicyId Z s i)"
| "exec Z D s (TokenSetMaxSupply a n) c = on_token c a (setMaxSupply Z s n)"
| "exec Z D s (TokenGrantRole a r account) c = on_token c a (grantRole Z s r account)"
| "exec Z D s (TokenRevokeRole a r account) c = on_token c a (revokeRole Z s r account)"
| "exec Z D s (TokenRenounceRole a r confirmation) c = on_token c a (renounceRole Z s r confirmation)"
| "exec Z D s (TokenTransferOwnership a newOwner) c = on_token c a (transferOwnership Z s newOwner)"
| "exec Z D s (TokenRenounceOwnership a) c = on_token c a (renounceOwnership Z s)"
| "exec Z D s (TokenPermit a owner spender n deadline sig) c = on_token c a (permit Z owner spender n deadline sig)"
| "exec Z D s (TokenInitialize a nm sy dec admin tp mp) c = on_token c a (initialize Z nm sy dec admin tp mp)"
| "exec Z D s (TokenReinitialize a nm sy dec admin tp mp) c = on_token c a (reinitialize Z s nm sy dec admin tp mp)"
| "exec Z D s (TokenUpgrade a impl) c = on_token c a (upgradeTo Z s impl)"
| "exec Z D s (AuthorityMint sc to n) c = authority_mint Z D c s sc to n"
| "exec Z D s (AuthorityMintBridge sc to n) c = mintBridgeEcosystem Z D c s sc to n"
| "exec Z D s (AuthorityBurn sc n) c = authority_burn Z D c s sc n"
| "exec Z D s (AuthorityUnwrap sc n) c = authority_unwrap Z D c s sc n"
| "exec Z D s (AuthorityWrap sc to n) c = authority_wrap Z D c s sc to n"
| "exec Z D s (AuthoritySetTxnMintLimit sc n) c = setTxnMintLimit Z c s sc n"
| "exec Z D s (AuthoritySetMinterAllowance sc m n) c = setMinterAllowance Z c s sc m n"
| "exec Z D s (AuthoritySetTokenHandler sc h) c = setTokenHandler Z D c s sc h"
| "exec Z D s (AuthorityRegister sc h n) c = registerStablecoin Z D c s sc h n"
| "exec Z D s (AuthorityUnregister sc) c = unregisterStablecoin Z c s sc"
| "exec Z D s (AuthorityGrantRole r account) c = authority_grantRole Z c s r account"
| "exec Z D s (AuthorityRevokeRole r account) c = authority_revokeRole Z c s r account"
| "exec Z D s (AuthorityRenounceRole r confirmation) c = authority_renounceRole Z c s r confirmation"
| "exec Z D s (AuthorityInitialize admin) c =
     andThen (authority_initialize Z admin (ch_authority c)) (\<lambda>t. Ok (on_authority c (\<lambda>_. t)))"
| "exec Z D s (AuthorityUpgrade impl) c = authority_upgradeTo Z c s impl"
| "exec Z D s (RegistryCreatePolicy admin t) c = on_registry c (map_sum id snd (createPolicy admin t (ch_registry c)))"
| "exec Z D s (RegistryCreateChildPolicy admin t p) c =
     on_registry c (map_sum id snd (createChildPolicy admin t p (ch_registry c)))"
| "exec Z D s (RegistryWhitelist i account v) c = on_registry c (modifyPolicyWhitelist s i account v (ch_registry c))"
| "exec Z D s (RegistryBlacklist i account v) c = on_registry c (modifyPolicyBlacklist s i account v (ch_registry c))"

end
