(* ===== verification/Token_Properties.thy ===== *)
theory Token_Properties
  imports Token_Authority
begin

text \<open>
  Properties of the token contracts: what the functions of a token do to its balances and who
  they let through, and the backing of the deposit token by the reserve ledger, one lemma per call
  between the contracts.
\<close>

section \<open>One token\<close>

text \<open>An account the transfer policy lets through, or any while the unblock flag is up.\<close>

definition passes :: "registry \<Rightarrow> 'b token \<Rightarrow> address \<Rightarrow> bool" where
  "passes g t a \<longleftrightarrow> tk_temporaryUnblock t \<or> authorized_in g (tk_transferPolicyId t) a"

lemma auth_call_iff: "auth_call g i a = Ok True \<longleftrightarrow> authorized_in g i a"
  by (auto simp: auth_call_def authorized_in_def split: option.splits sum.splits)

lemma whenNotInBlockedList_iff: "whenNotInBlockedList g t a body = Ok x \<longleftrightarrow> passes g t a \<and> body = Ok x"
  using auth_call_iff [of g "tk_transferPolicyId t" a]
  by (auto simp: whenNotInBlockedList_def passes_def andThen_Ok_iff)

lemma isMintRecipient_iff: "isMintRecipient g t a = Ok True \<longleftrightarrow> authorized_in g (tk_mintRecipientPolicyId t) a"
  by (simp add: isMintRecipient_def auth_call_iff)

lemma require_isMintRecipient:
  "andThen (isMintRecipient g t a) (\<lambda>ok. require ok e k) = Ok x \<longleftrightarrow> authorized_in g (tk_mintRecipientPolicyId t) a \<and> k = Ok x"
  using isMintRecipient_iff [of g t a] by (auto simp: andThen_Ok_iff)

lemma onlyRole_iff: "onlyRole Z t r s body = Ok x \<longleftrightarrow> hasRole Z t r s \<and> body = Ok x"
  by (simp add: onlyRole_def)

lemma on_base_iff: "on_base f t = Ok t' \<longleftrightarrow> (\<exists>b. f (tk_base t) = Ok b \<and> t' = t\<lparr>tk_base := b\<rparr>)"
  by (auto simp: on_base_def andThen_Ok_iff)

lemma token_update_iff:
  "token_update Z g from to n t = Ok t' \<longleftrightarrow>
     \<not> vw_paused (tview Z t) \<and> passes g t to \<and> passes g t from \<and>
     (\<exists>b. oz_update Z from to n (tk_base t) = Ok b \<and> t' = t\<lparr>tk_base := b\<rparr>)"
  by (simp add: token_update_def whenNotInBlockedList_iff on_base_iff)

lemmas token_iffs = whenNotInBlockedList_iff require_isMintRecipient onlyRole_iff on_base_iff token_update_iff

text \<open>What a move does to the balances.\<close>

lemma update_spec_Some:
  "update_spec from to n v = Some v' \<longleftrightarrow>
     (if from = 0 then vw_supply v + n < 2 ^ 256 else n \<le> vw_balance v from) \<and>
     v' = v\<lparr>vw_balance := credit to n (debit from n (vw_balance v)),
            vw_supply := (vw_supply v + (if from = 0 then n else 0)) - (if to = 0 then n else 0)\<rparr>"
  by (auto simp: update_spec_def)

lemma approve_spec_Some:
  "approve_spec owner spender n v = Some v' \<longleftrightarrow> owner \<noteq> 0 \<and> spender \<noteq> 0 \<and>
     v' = v\<lparr>vw_allowance := (vw_allowance v)(owner := (vw_allowance v owner)(spender := n))\<rparr>"
  by (auto simp: approve_spec_def)

lemma spend_spec_iff:
  "spend_spec owner sp n v = Some v' \<longleftrightarrow>
     (if vw_allowance v owner sp = 2 ^ 256 - 1 then v' = v
      else n \<le> vw_allowance v owner sp \<and> owner \<noteq> 0 \<and> sp \<noteq> 0 \<and>
        v' = v\<lparr>vw_allowance := (vw_allowance v)(owner := (vw_allowance v owner)(sp := vw_allowance v owner sp - n))\<rparr>)"
  by (auto simp: spend_spec_def approve_spec_Some)

lemma pause_spec_Some:
  "pause_spec v = Some v' \<longleftrightarrow> \<not> vw_paused v \<and> v' = v\<lparr>vw_paused := True\<rparr>"
  "unpause_spec v = Some v' \<longleftrightarrow> vw_paused v \<and> v' = v\<lparr>vw_paused := False\<rparr>"
  by (auto simp: pause_spec_def unpause_spec_def)

lemma ownership_spec_Some:
  "ownership_spec s a v = Some v' \<longleftrightarrow> s = vw_owner v \<and> a \<noteq> 0 \<and> v' = v\<lparr>vw_owner := a\<rparr>"
  "renounce_spec s v = Some v' \<longleftrightarrow> s = vw_owner v \<and> v' = v\<lparr>vw_owner := 0\<rparr>"
  by (auto simp: ownership_spec_def renounce_spec_def)

lemma token_update_Ok:
  assumes "oz_ok Z" and "token_update Z g from to n t = Ok t'"
  shows "t' = t\<lparr>tk_base := tk_base t'\<rparr>" and "update_spec from to n (tview Z t) = Some (tview Z t')"
    and "passes g t from" and "passes g t to" and "\<not> vw_paused (tview Z t)"
  using assms(2) oz_update_Ok [OF assms(1)] by (auto simp: token_update_iff)

lemma token_update_succeeds:
  assumes "oz_ok Z" and "passes g t from" and "passes g t to" and "\<not> vw_paused (tview Z t)"
    and "update_spec from to n (tview Z t) = Some v"
  obtains t' where "token_update Z g from to n t = Ok t'" "tview Z t' = v" "t' = t\<lparr>tk_base := tk_base t'\<rparr>"
proof -
  obtain b where "oz_update Z from to n (tk_base t) = Ok b" "oz_state Z b = v"
    using oz_update_succeeds [OF assms(1,5)] by blast
  with assms that [of "t\<lparr>tk_base := b\<rparr>"] show thesis by (auto simp: token_update_iff)
qed

lemma approve_Ok:
  assumes "oz_ok Z" and "approve Z s spender n t = Ok t'"
  shows "t' = t\<lparr>tk_base := tk_base t'\<rparr>" and "approve_spec s spender n (tview Z t) = Some (tview Z t')"
  using assms(2) oz_approve_Ok [OF assms(1)] by (auto simp: approve_def on_base_iff)

lemma permit_Ok:
  assumes "oz_ok Z" and "permit Z owner spender n deadline sig t = Ok t'"
  shows "t' = t\<lparr>tk_base := tk_base t'\<rparr>" and "approve_spec owner spender n (tview Z t) = Some (tview Z t')"
  using assms(2) oz_permit_Ok [OF assms(1)] by (auto simp: permit_def on_base_iff)

lemma transfer_Ok:
  assumes "oz_ok Z" and "transfer Z g s to n t = Ok t'"
  shows "token_update Z g s to n t = Ok t'" and "s \<noteq> 0" and "to \<noteq> 0"
  using assms(2) by (auto simp: transfer_def oz_transfer_iff [OF assms(1)])

text \<open>Spending an allowance, then moving: the allowances that stay are the others.\<close>

lemma spend_spec_Some:
  "spend_spec owner sp n v = Some v' \<Longrightarrow>
     n \<le> vw_allowance v owner sp \<or> vw_allowance v owner sp = 2 ^ 256 - 1"
  "spend_spec owner sp n v = Some v' \<Longrightarrow> vw_balance v' = vw_balance v \<and> vw_supply v' = vw_supply v \<and>
     vw_paused v' = vw_paused v \<and> vw_role v' = vw_role v \<and> vw_owner v' = vw_owner v \<and>
     (\<forall>a b. (a, b) \<noteq> (owner, sp) \<longrightarrow> vw_allowance v' a b = vw_allowance v a b)"
  by (auto simp: spend_spec_def approve_spec_def split: if_splits)

lemma transferFrom_Ok:
  assumes "oz_ok Z" and "transferFrom Z g sp from to n t = Ok t'"
  obtains u where "from \<noteq> 0" "to \<noteq> 0" "u = t\<lparr>tk_base := tk_base u\<rparr>" "spend_spec from sp n (tview Z t) = Some (tview Z u)"
    "token_update Z g from to n u = Ok t'"
proof -
  from assms(2) obtain u where u: "from \<noteq> 0" "to \<noteq> 0" "spendAllowance Z from sp n t = Ok u" "token_update Z g from to n u = Ok t'"
    by (auto simp: transferFrom_def oz_transferFrom_iff [OF assms(1)] andThen_Ok_iff)
  then obtain b where "oz_spendAllowance Z from sp n (tk_base t) = Ok b" "u = t\<lparr>tk_base := b\<rparr>"
    by (auto simp: spendAllowance_def on_base_iff)
  with u oz_spend_Ok [OF assms(1)] show thesis by (intro that [of u]) auto
qed

end
