(* ===== verification/Backing.thy ===== *)
theory Backing
  imports Token_Properties
begin

text \<open>
  The deposit token is backed: the reserve ledger holds, at the deposit token's own address, at
  least its whole supply, and nobody may spend it from there. One lemma per call between contracts
  says by how much the call moves the margin \<open>k\<close>; whole transactions are composed of them.
\<close>

section \<open>Supplies\<close>

text \<open>The balances of a token add up to its supply.\<close>

definition consistent :: "oz_view \<Rightarrow> bool" where
  "consistent v \<longleftrightarrow> (\<Sum>a \<in> UNIV. vw_balance v a) = vw_supply v"

lemma sum_upd: "(\<Sum>x \<in> UNIV. (f(a := y)) x) + f a = (\<Sum>x \<in> UNIV. f x) + (y :: nat)"
  for f :: "address \<Rightarrow> nat"
proof -
  have "(\<Sum>x \<in> UNIV - {a}. (f(a := y)) x) = (\<Sum>x \<in> UNIV - {a}. f x)" by (rule sum.cong) auto
  then show ?thesis by (simp add: sum.remove [of UNIV a])
qed

lemma sum_debit: "a \<noteq> 0 \<Longrightarrow> n \<le> f a \<Longrightarrow> (\<Sum>x \<in> UNIV. debit a n f x) + n = (\<Sum>x \<in> UNIV. f x)"
  using sum_upd [of f a "f a - n"] by (simp add: debit_def)

lemma sum_credit: "a \<noteq> 0 \<Longrightarrow> (\<Sum>x \<in> UNIV. credit a n f x) = (\<Sum>x \<in> UNIV. f x) + n"
  using sum_upd [of f a "f a + n"] by (simp add: credit_def)

lemma debit_credit_0 [simp]: "debit 0 n f = f" "credit 0 n f = f"
  by (simp_all add: debit_def credit_def)

lemma update_spec_consistent: "update_spec from to n v = Some v' \<Longrightarrow> consistent v \<Longrightarrow> consistent v'"
  using sum_debit [of "from" n "vw_balance v"] sum_credit [of to n "debit from n (vw_balance v)"]
  by (cases "from = 0"; cases "to = 0") (auto simp: update_spec_Some consistent_def)

lemma consistent_bound: "consistent v \<Longrightarrow> vw_balance v a \<le> vw_supply v"
  using member_le_sum [of a UNIV "vw_balance v"] by (simp add: consistent_def)

section \<open>The invariant\<close>

definition backed :: "'b tokens_lib \<Rightarrow> address \<Rightarrow> address \<Rightarrow> nat \<Rightarrow> 'b chain \<Rightarrow> bool" where
  "backed Z rl sc k c \<longleftrightarrow> rl \<noteq> sc \<and> sc \<noteq> 0 \<and>
     (\<exists>tr ts. ch_token c rl = Some tr \<and> ch_token c sc = Some ts \<and>
        tk_code tr = ReserveLedgerCode \<and> tk_code ts = StablecoinCode rl \<and>
        totalSupply Z ts + k \<le> balanceOf Z tr sc \<and> (\<forall>sp. vw_allowance (tview Z tr) sc sp = 0) \<and>
        consistent (tview Z ts))"

text \<open>What a call may do to the ledger and to the deposit token, by the margin before and after.\<close>

definition ledger_keeps :: "'b tokens_lib \<Rightarrow> address \<Rightarrow> nat \<Rightarrow> nat \<Rightarrow> 'b token \<Rightarrow> 'b token \<Rightarrow> bool" where
  "ledger_keeps Z sc k k' t t' \<longleftrightarrow> tk_code t' = tk_code t \<and>
     balanceOf Z t sc + k' \<le> balanceOf Z t' sc + k \<and>
     vw_allowance (tview Z t') sc = vw_allowance (tview Z t) sc"

definition deposit_keeps :: "'b tokens_lib \<Rightarrow> nat \<Rightarrow> nat \<Rightarrow> 'b token \<Rightarrow> 'b token \<Rightarrow> bool" where
  "deposit_keeps Z k k' t t' \<longleftrightarrow> tk_code t' = tk_code t \<and> totalSupply Z t' + k' \<le> totalSupply Z t + k \<and>
     (consistent (tview Z t) \<longrightarrow> consistent (tview Z t'))"

lemma backed_on_token:
  assumes "backed Z rl sc k c" and "on_token c a f = Ok c'"
    and "\<And>t t'. a = rl \<Longrightarrow> ch_token c rl = Some t \<Longrightarrow> f t = Ok t' \<Longrightarrow> tk_code t = ReserveLedgerCode \<Longrightarrow>
           \<forall>sp. vw_allowance (tview Z t) sc sp = 0 \<Longrightarrow> ledger_keeps Z sc k k' t t'"
    and "\<And>t t'. a = sc \<Longrightarrow> ch_token c sc = Some t \<Longrightarrow> f t = Ok t' \<Longrightarrow> tk_code t = StablecoinCode rl \<Longrightarrow>
           consistent (tview Z t) \<Longrightarrow> deposit_keeps Z k k' t t'"
    and "a \<noteq> rl \<Longrightarrow> a \<noteq> sc \<Longrightarrow> k' \<le> k"
  shows "backed Z rl sc k' c'"
proof -
  from assms(1) obtain tr ts where b: "rl \<noteq> sc" "sc \<noteq> 0" "ch_token c rl = Some tr" "ch_token c sc = Some ts"
    "tk_code tr = ReserveLedgerCode" "tk_code ts = StablecoinCode rl"
    "totalSupply Z ts + k \<le> balanceOf Z tr sc" "\<forall>sp. vw_allowance (tview Z tr) sc sp = 0" "consistent (tview Z ts)"
    by (auto simp: backed_def)
  from assms(2) obtain t t' where t: "ch_token c a = Some t" "f t = Ok t'" "c' = c\<lparr>ch_token := (ch_token c)(a \<mapsto> t')\<rparr>"
    by (auto simp: on_token_def andThen_Ok_iff split: option.splits)
  consider "a = rl" | "a = sc" | "a \<noteq> rl" "a \<noteq> sc" by blast
  then show ?thesis
  proof cases
    case 1
    with t b have "ledger_keeps Z sc k k' tr t'" using assms(3) [OF 1 b(3)] by simp
    with 1 t b show ?thesis by (auto simp: backed_def ledger_keeps_def)
  next
    case 2
    with t b have "deposit_keeps Z k k' ts t'" using assms(4) [OF 2 b(4)] by simp
    with 2 t b show ?thesis by (auto simp: backed_def deposit_keeps_def)
  next
    case 3
    with t b assms(5) show ?thesis by (auto simp: backed_def)
  qed
qed

text \<open>Changes outside the tokens.\<close>

lemma backed_cong: "ch_token c' = ch_token c \<Longrightarrow> backed Z rl sc k c \<Longrightarrow> backed Z rl sc k c'"
  by (simp add: backed_def)

lemma backed_le: "backed Z rl sc k c \<Longrightarrow> k' \<le> k \<Longrightarrow> backed Z rl sc k' c"
  unfolding backed_def by (meson add_le_mono le_refl le_trans)

section \<open>Moves of one token\<close>

lemma update_keeps_ledger:
  assumes "update_spec from to n v = Some v'" and "from \<noteq> sc"
  shows "vw_balance v sc \<le> vw_balance v' sc" and "vw_allowance v' = vw_allowance v"
  using assms by (auto simp: update_spec_Some credit_def debit_def)

lemma update_keeps_supply:
  assumes "update_spec from to n v = Some v'" and "from \<noteq> 0"
  shows "vw_supply v' \<le> vw_supply v" and "to \<noteq> 0 \<Longrightarrow> vw_supply v' = vw_supply v"
    and "to = 0 \<Longrightarrow> consistent v \<Longrightarrow> vw_supply v' + n = vw_supply v"
  using assms consistent_bound [of v "from"] by (auto simp: update_spec_Some)

text \<open>A move that does not take from the deposit token's own balance, and mints nothing.\<close>

lemma move_keeps:
  assumes "oz_ok Z" and "token_update Z g from to n t = Ok t'"
  shows "from \<noteq> sc \<Longrightarrow> ledger_keeps Z sc k k t t'"
    and "from \<noteq> 0 \<Longrightarrow> deposit_keeps Z k k t t'"
    and "from \<noteq> 0 \<Longrightarrow> to = 0 \<Longrightarrow> consistent (tview Z t) \<Longrightarrow> deposit_keeps Z k (k + n) t t'"
proof -
  note u = token_update_Ok [OF assms]
  then have code: "tk_code t' = tk_code t" by (metis token.select_convs(1) token.surjective token.update_convs(2))
  show "from \<noteq> sc \<Longrightarrow> ledger_keeps Z sc k k t t'"
    using code update_keeps_ledger [OF u(2), of sc] by (simp add: ledger_keeps_def balanceOf_def)
  show "from \<noteq> 0 \<Longrightarrow> deposit_keeps Z k k t t'"
    using code update_keeps_supply(1) [OF u(2)] update_spec_consistent [OF u(2)] by (simp add: deposit_keeps_def totalSupply_def)
  show "from \<noteq> 0 \<Longrightarrow> to = 0 \<Longrightarrow> consistent (tview Z t) \<Longrightarrow> deposit_keeps Z k (k + n) t t'"
    using code update_keeps_supply(3) [OF u(2)] update_spec_consistent [OF u(2)] by (simp add: deposit_keeps_def totalSupply_def)
qed

section \<open>Calls between contracts\<close>

lemma code_of_base: "t' = t\<lparr>tk_base := tk_base t'\<rparr> \<Longrightarrow> tk_code t' = tk_code t"
  by (metis token.select_convs(1) token.surjective token.update_convs(2))

lemma call_transfer_keeps:
  assumes "oz_ok Z" and "backed Z rl sc k c" and "call_transfer Z c a s to n = Ok c'" and "s \<noteq> sc"
  shows "backed Z rl sc k c'"
proof (rule backed_on_token [OF assms(2) assms(3) [unfolded call_transfer_def]])
  fix t t' assume "transfer Z (ch_registry c) s to n t = Ok t'"
  note u = transfer_Ok [OF assms(1) this]
  show "ledger_keeps Z sc k k t t'" using move_keeps(1) [OF assms(1) u(1) assms(4)] .
next
  fix t t' assume "transfer Z (ch_registry c) s to n t = Ok t'"
  note u = transfer_Ok [OF assms(1) this]
  show "deposit_keeps Z k k t t'" using move_keeps(2) [OF assms(1) u(1,2)] .
qed simp

text \<open>The deposit token gives up as much of its ledger balance as the margin allows.\<close>

lemma call_transfer_out:
  assumes "oz_ok Z" and "backed Z rl sc (k + n) c" and "call_transfer Z c rl sc to n = Ok c'"
  shows "backed Z rl sc k c'"
proof (rule backed_on_token [OF assms(2) assms(3) [unfolded call_transfer_def]])
  fix t t' assume "transfer Z (ch_registry c) sc to n t = Ok t'"
  note u = transfer_Ok [OF assms(1) this]
  note v = token_update_Ok [OF assms(1) u(1)]
  show "ledger_keeps Z sc (k + n) k t t'"
    using code_of_base [OF v(1)] v(2) u(2) by (auto simp: ledger_keeps_def balanceOf_def update_spec_Some credit_def debit_def)
qed (use assms(2) in \<open>auto simp: backed_def\<close>)

text \<open>Somebody else spends an allowance: the deposit token has given none.\<close>

lemma transferFrom_keeps_ledger:
  assumes "oz_ok Z" and "transferFrom Z g sp from to n t = Ok t'" and "\<forall>sp. vw_allowance (tview Z t) sc sp = 0"
  shows "ledger_keeps Z sc k k t t'" and "from \<noteq> sc \<Longrightarrow> to = sc \<Longrightarrow> ledger_keeps Z sc k (k + n) t t'"
proof -
  obtain u where u: "from \<noteq> 0" "to \<noteq> 0" "u = t\<lparr>tk_base := tk_base u\<rparr>"
    "spend_spec from sp n (tview Z t) = Some (tview Z u)" "token_update Z g from to n u = Ok t'"
    using transferFrom_Ok [OF assms(1,2)] .
  note v = token_update_Ok [OF assms(1) u(5)]
  have code: "tk_code t' = tk_code t" using code_of_base [OF v(1)] code_of_base [OF u(3)] by simp
  have "vw_allowance (tview Z u) sc sp' = 0" for sp'
    using u(4) assms(3) by (auto simp: spend_spec_iff split: if_splits)
  then have al: "vw_allowance (tview Z t') sc = vw_allowance (tview Z t) sc"
    using v(2) assms(3) by (auto simp: update_spec_Some)
  have bal: "vw_balance (tview Z u) = vw_balance (tview Z t)" using spend_spec_Some(2) [OF u(4)] by simp
  have "from = sc \<Longrightarrow> n = 0" using spend_spec_Some(1) [OF u(4)] assms(3) by auto
  then show "ledger_keeps Z sc k k t t'"
    using v(2) bal code al by (auto simp: ledger_keeps_def balanceOf_def update_spec_Some credit_def debit_def)
  show "from \<noteq> sc \<Longrightarrow> to = sc \<Longrightarrow> ledger_keeps Z sc k (k + n) t t'"
    using v(2) bal code al u(2) by (auto simp: ledger_keeps_def balanceOf_def update_spec_Some credit_def debit_def)
qed

lemma transferFrom_keeps_deposit:
  assumes "oz_ok Z" and "transferFrom Z g sp from to n t = Ok t'"
  shows "deposit_keeps Z k k t t'"
proof -
  obtain u where u: "from \<noteq> 0" "to \<noteq> 0" "u = t\<lparr>tk_base := tk_base u\<rparr>"
    "spend_spec from sp n (tview Z t) = Some (tview Z u)" "token_update Z g from to n u = Ok t'"
    using transferFrom_Ok [OF assms(1,2)] .
  have "vw_balance (tview Z u) = vw_balance (tview Z t)" "vw_supply (tview Z u) = vw_supply (tview Z t)"
    using spend_spec_Some(2) [OF u(4)] by simp_all
  then have "deposit_keeps Z k k t u"
    using code_of_base [OF u(3)] by (simp add: deposit_keeps_def totalSupply_def consistent_def)
  with move_keeps(2) [OF assms(1) u(5,1), of k] show ?thesis by (simp add: deposit_keeps_def)
qed

lemma call_transferFrom_keeps:
  assumes "oz_ok Z" and "backed Z rl sc k c" and "call_transferFrom Z c a s from to n = Ok c'"
  shows "backed Z rl sc k c'"
  using assms(1) transferFrom_keeps_ledger(1) transferFrom_keeps_deposit
  by (intro backed_on_token [OF assms(2) assms(3) [unfolded call_transferFrom_def]]) auto

lemma call_transferFrom_in:
  assumes "oz_ok Z" and "backed Z rl sc k c" and "call_transferFrom Z c rl s from sc n = Ok c'" and "from \<noteq> sc"
  shows "backed Z rl sc (k + n) c'"
proof (rule backed_on_token [OF assms(2) assms(3) [unfolded call_transferFrom_def]])
  fix t t' assume "transferFrom Z (ch_registry c) s from sc n t = Ok t'" "\<forall>sp. vw_allowance (tview Z t) sc sp = 0"
  from transferFrom_keeps_ledger(2) [OF assms(1) this assms(4) refl] show "ledger_keeps Z sc k (k + n) t t'" .
qed (use assms(2) in \<open>auto simp: backed_def\<close>)

lemma call_approve_keeps:
  assumes "oz_ok Z" and "backed Z rl sc k c" and "call_approve Z c a s spender n = Ok c'" and "s \<noteq> sc"
  shows "backed Z rl sc k c'"
proof (rule backed_on_token [OF assms(2) assms(3) [unfolded call_approve_def]])
  fix t t' assume "approve Z s spender n t = Ok t'"
  note u = approve_Ok [OF assms(1) this]
  show "ledger_keeps Z sc k k t t'"
    using code_of_base [OF u(1)] u(2) assms(4) by (auto simp: ledger_keeps_def balanceOf_def approve_spec_Some)
next
  fix t t' assume "approve Z s spender n t = Ok t'"
  note u = approve_Ok [OF assms(1) this]
  show "deposit_keeps Z k k t t'"
    using code_of_base [OF u(1)] u(2) by (auto simp: deposit_keeps_def totalSupply_def consistent_def approve_spec_Some)
qed simp

text \<open>A permit is an approval by whoever signed it: the deposit token signs none.\<close>

lemma permit_keeps:
  assumes "oz_ok Z" and "backed Z rl sc k c" and "on_token c a (permit Z owner spender n deadline sig) = Ok c'"
    and "a = rl \<Longrightarrow> owner \<noteq> sc"
  shows "backed Z rl sc k c'"
proof (rule backed_on_token [OF assms(2,3)])
  fix t t' assume "a = rl" and "permit Z owner spender n deadline sig t = Ok t'"
  note u = permit_Ok [OF assms(1) this(2)]
  show "ledger_keeps Z sc k k t t'"
    using code_of_base [OF u(1)] u(2) assms(4) \<open>a = rl\<close> by (auto simp: ledger_keeps_def balanceOf_def approve_spec_Some)
next
  fix t t' assume "permit Z owner spender n deadline sig t = Ok t'"
  note u = permit_Ok [OF assms(1) this]
  show "deposit_keeps Z k k t t'"
    using code_of_base [OF u(1)] u(2) by (auto simp: deposit_keeps_def totalSupply_def consistent_def approve_spec_Some)
qed simp

text \<open>A mint: into the ledger always, into the deposit token within the margin.\<close>

lemma mint_keeps:
  assumes "oz_ok Z" and "oz_mint Z (token_update Z g) to n t = Ok t'"
  shows "sc \<noteq> 0 \<Longrightarrow> ledger_keeps Z sc k k t t'" and "deposit_keeps Z (k + n) k t t'"
proof -
  from assms(2) have u: "to \<noteq> 0" "token_update Z g 0 to n t = Ok t'" by (simp_all add: oz_mint_iff [OF assms(1)])
  note v = token_update_Ok [OF assms(1) u(2)]
  show "sc \<noteq> 0 \<Longrightarrow> ledger_keeps Z sc k k t t'" using move_keeps(1) [OF assms(1) u(2)] by simp
  show "deposit_keeps Z (k + n) k t t'"
    using code_of_base [OF v(1)] update_spec_consistent [OF v(2)] v(2) u(1)
    by (simp add: deposit_keeps_def totalSupply_def update_spec_Some)
qed

lemma on_token_mint_within:
  assumes "oz_ok Z" and "backed Z rl sc (k + n) c" and "on_token c sc (oz_mint Z (token_update Z g) to n) = Ok c'"
  shows "backed Z rl sc k c'"
  using mint_keeps(2) [OF assms(1)] assms(2)
  by (intro backed_on_token [OF assms(2,3)]) (auto simp: backed_def)

definition deposit_migrated :: "'b chain \<Rightarrow> address \<Rightarrow> bool" where
  "deposit_migrated c sc \<longleftrightarrow> (\<exists>t. ch_token c sc = Some t \<and> tk_migrationToWrappedCompleted t)"

lemma call_mint_keeps:
  assumes "oz_ok Z" and "backed Z rl sc k c" and "call_mint Z c a s to n = Ok c'" and "a = sc \<Longrightarrow> deposit_migrated c sc"
  shows "backed Z rl sc k c'"
proof -
  from assms(2) have sc: "sc \<noteq> 0" by (simp add: backed_def)
  show ?thesis
  proof (rule backed_on_token [OF assms(2) assms(3) [unfolded call_mint_def]])
    fix t t' assume "tk_code t = ReserveLedgerCode" and "(case tk_code t of
        ReserveLedgerCode \<Rightarrow> ledger_mint Z (ch_registry c) s to n t | StablecoinCode _ \<Rightarrow> stablecoin_mint Z (ch_registry c) s to n t) = Ok t'"
    then have "oz_mint Z (token_update Z (ch_registry c)) to n t = Ok t'" by (simp add: ledger_mint_def token_iffs)
    from mint_keeps(1) [OF assms(1) this sc] show "ledger_keeps Z sc k k t t'" .
  next
    fix t t' assume "a = sc" "ch_token c sc = Some t" "tk_code t = StablecoinCode rl" and "(case tk_code t of
        ReserveLedgerCode \<Rightarrow> ledger_mint Z (ch_registry c) s to n t | StablecoinCode _ \<Rightarrow> stablecoin_mint Z (ch_registry c) s to n t) = Ok t'"
    with assms(4) show "deposit_keeps Z k k t t'" by (auto simp: stablecoin_mint_def token_iffs deposit_migrated_def)
  qed simp
qed

text \<open>A burn: of somebody else's ledger tokens, or of deposit tokens, which widens the margin.\<close>

lemma burn_keeps:
  assumes "oz_ok Z" and "oz_burn Z (token_update Z g) from n t = Ok t'"
  shows "from \<noteq> sc \<Longrightarrow> ledger_keeps Z sc k k t t'" and "deposit_keeps Z k k t t'"
    and "consistent (tview Z t) \<Longrightarrow> deposit_keeps Z k (k + n) t t'"
proof -
  from assms(2) have u: "from \<noteq> 0" "token_update Z g from 0 n t = Ok t'" by (simp_all add: oz_burn_iff [OF assms(1)])
  show "from \<noteq> sc \<Longrightarrow> ledger_keeps Z sc k k t t'" "deposit_keeps Z k k t t'"
    "consistent (tview Z t) \<Longrightarrow> deposit_keeps Z k (k + n) t t'"
    using move_keeps [OF assms(1) u(2)] u(1) by blast+
qed

lemma call_burn_keeps:
  assumes "oz_ok Z" and "backed Z rl sc k c" and "call_burn Z c a s n = Ok c'" and "s \<noteq> sc"
  shows "backed Z rl sc k c'"
  using burn_keeps(1) [OF assms(1) _ assms(4)] burn_keeps(2) [OF assms(1)]
  by (intro backed_on_token [OF assms(2) assms(3) [unfolded call_burn_def]])
    (auto simp: ledger_burn_def stablecoin_burn_def token_iffs)

lemma on_token_burn_margin:
  assumes "oz_ok Z" and "backed Z rl sc k c" and "on_token c sc (oz_burn Z (token_update Z g) from n) = Ok c'"
  shows "backed Z rl sc (k + n) c'"
  using burn_keeps(3) [OF assms(1)] assms(2)
  by (intro backed_on_token [OF assms(2,3)]) (auto simp: backed_def)

text \<open>A change of a token that leaves its code and its storage alone.\<close>

lemma flag_keeps:
  assumes "tk_code t' = tk_code t" and "tk_base t' = tk_base t"
  shows "ledger_keeps Z sc k k t t'" and "deposit_keeps Z k k t t'"
  using assms by (simp_all add: ledger_keeps_def deposit_keeps_def balanceOf_def totalSupply_def)

lemma on_token_flag_keeps:
  assumes "backed Z rl sc k c" and "on_token c a f = Ok c'"
    and "\<And>t t'. f t = Ok t' \<Longrightarrow> tk_code t' = tk_code t \<and> tk_base t' = tk_base t"
  shows "backed Z rl sc k c'"
  by (rule backed_on_token [OF assms(1,2)]) (use assms(3) flag_keeps in blast)+

lemma keeps_trans:
  "ledger_keeps Z sc k k1 t t1 \<Longrightarrow> ledger_keeps Z sc k1 k2 t1 t2 \<Longrightarrow> ledger_keeps Z sc k k2 t t2"
  "deposit_keeps Z k k1 t t1 \<Longrightarrow> deposit_keeps Z k1 k2 t1 t2 \<Longrightarrow> deposit_keeps Z k k2 t t2"
  by (auto simp: ledger_keeps_def deposit_keeps_def)

section \<open>Wrapping and unwrapping\<close>

lemma on_stablecoin_Ok:
  assumes "on_stablecoin c a f = Ok c'"
  obtains t r where "ch_token c a = Some t" "tk_code t = StablecoinCode r" "f t r = Ok c'"
  using assms by (auto simp: on_stablecoin_def split: option.splits token_code.splits)

lemma wrap_keeps:
  assumes "oz_ok Z" and "backed Z rl sc k c" and "wrap Z c a s to n = Ok c'" and "s \<noteq> sc"
  shows "backed Z rl sc k c'"
proof -
  from assms(3) [unfolded wrap_def] obtain t r where t: "ch_token c a = Some t" "tk_code t = StablecoinCode r"
    and "andThen (call_transferFrom Z c r a s a n) (\<lambda>c. on_token c a (oz_mint Z (token_update Z (ch_registry c)) to n)) = Ok c'"
    by (rule on_stablecoin_Ok) (auto simp: require_isMintRecipient)
  then obtain d where d: "call_transferFrom Z c r a s a n = Ok d" "on_token d a (oz_mint Z (token_update Z (ch_registry d)) to n) = Ok c'"
    by (auto simp: andThen_Ok_iff)
  show ?thesis
  proof (cases "a = sc")
    case True
    with t assms(2) have "r = rl" by (auto simp: backed_def)
    with call_transferFrom_in [OF assms(1,2)] d(1) True assms(4) have "backed Z rl sc (k + n) d" by auto
    with on_token_mint_within [OF assms(1)] d(2) True show ?thesis by blast
  next
    case False
    have "backed Z rl sc k d" by (rule call_transferFrom_keeps [OF assms(1,2) d(1)])
    then show ?thesis
    proof (rule backed_on_token [OF _ d(2)])
      fix u u' assume "oz_mint Z (token_update Z (ch_registry d)) to n u = Ok u'"
      from mint_keeps(1) [OF assms(1) this] show "ledger_keeps Z sc k k u u'" using assms(2) by (simp add: backed_def)
    qed (use False in auto)
  qed
qed

lemma unwrap_keeps:
  assumes "oz_ok Z" and "backed Z rl sc k c" and "unwrap Z c a s n = Ok c'" and "s \<noteq> sc"
  shows "backed Z rl sc k c'"
proof -
  from assms(3) [unfolded unwrap_def] obtain t r where t: "ch_token c a = Some t" "tk_code t = StablecoinCode r"
    and "andThen (on_token c a (oz_burn Z (token_update Z (ch_registry c)) s n)) (\<lambda>c. call_transfer Z c r a s n) = Ok c'"
    by (rule on_stablecoin_Ok) (auto simp: onlyRole_iff)
  then obtain d where d: "on_token c a (oz_burn Z (token_update Z (ch_registry c)) s n) = Ok d" "call_transfer Z d r a s n = Ok c'"
    by (auto simp: andThen_Ok_iff)
  show ?thesis
  proof (cases "a = sc")
    case True
    with t assms(2) have "r = rl" by (auto simp: backed_def)
    with on_token_burn_margin [OF assms(1,2)] d True have "backed Z rl sc (k + n) d" by auto
    with call_transfer_out [OF assms(1)] d(2) True \<open>r = rl\<close> show ?thesis by blast
  next
    case False
    have "backed Z rl sc k d"
      using burn_keeps(1) [OF assms(1) _ assms(4)] False by (intro backed_on_token [OF assms(2) d(1)]) auto
    from call_transfer_keeps [OF assms(1) this d(2) False] show ?thesis .
  qed
qed

section \<open>Seizing a blocked balance\<close>

text \<open>A burn under the raised flag.\<close>

lemma flagged_burn_keeps:
  assumes "oz_ok Z" and "oz_burn Z (token_update Z g) from n (t\<lparr>tk_temporaryUnblock := True\<rparr>) = Ok u"
    and "tk_code t' = tk_code u" and "tk_base t' = tk_base u"
  shows "from \<noteq> sc \<Longrightarrow> ledger_keeps Z sc k k t t'" and "deposit_keeps Z k k t t'"
    and "consistent (tview Z t) \<Longrightarrow> deposit_keeps Z k (k + n) t t'"
proof -
  let ?s = "t\<lparr>tk_temporaryUnblock := True\<rparr>"
  note f = flag_keeps [of ?s t Z] flag_keeps [OF assms(3,4), of Z]
  note b = burn_keeps [OF assms(1,2)]
  show "from \<noteq> sc \<Longrightarrow> ledger_keeps Z sc k k t t'"
    using keeps_trans(1) [OF keeps_trans(1) [OF f(1) b(1)] f(3)] by simp
  show "deposit_keeps Z k k t t'"
    using keeps_trans(2) [OF keeps_trans(2) [OF f(2) b(2)] f(4)] by simp
  show "consistent (tview Z t) \<Longrightarrow> deposit_keeps Z k (k + n) t t'"
    using keeps_trans(2) [OF keeps_trans(2) [OF f(2) b(3)] f(4)] by simp
qed

lemma stablecoin_seize_keeps:
  assumes "oz_ok Z" and "backed Z rl sc k c" and "stablecoin_burnFromBlockedAddress Z c a s account = Ok c'"
  shows "backed Z rl sc k c'"
proof -
  from assms(3) [unfolded stablecoin_burnFromBlockedAddress_def] obtain t r n d e where
    t: "ch_token c a = Some t" "tk_code t = StablecoinCode r"
    and d: "on_token c a (\<lambda>t. oz_burn Z (token_update Z (ch_registry c)) account n (t\<lparr>tk_temporaryUnblock := True\<rparr>)) = Ok d"
      "call_transfer Z d r a s n = Ok e" "on_token e a (\<lambda>t. Ok (t\<lparr>tk_temporaryUnblock := False\<rparr>)) = Ok c'"
    by (rule on_stablecoin_Ok) (auto simp: onlyRole_iff andThen_Ok_iff Let_def)
  note burn = flagged_burn_keeps [OF assms(1)]
  have "backed Z rl sc k e"
  proof (cases "a = sc")
    case True
    with t assms(2) have "r = rl" by (auto simp: backed_def)
    have "backed Z rl sc (k + n) d"
      using burn(3) True assms(2) by (intro backed_on_token [OF assms(2) d(1)]) (auto simp: backed_def)
    with call_transfer_out [OF assms(1)] d(2) True \<open>r = rl\<close> show ?thesis by blast
  next
    case False
    have "backed Z rl sc k d"
    proof (rule backed_on_token [OF assms(2) d(1)])
      fix u assume "a = rl" "ch_token c rl = Some u" "tk_code u = ReserveLedgerCode"
      with t show "ledger_keeps Z sc k k u u'" for u' by simp
    qed (use False in auto)
    from call_transfer_keeps [OF assms(1) this d(2) False] show ?thesis .
  qed
  from on_token_flag_keeps [OF this d(3)] show ?thesis by auto
qed

lemma call_seize_keeps:
  assumes "oz_ok Z" and "backed Z rl sc k c" and "call_burnFromBlockedAddress Z c a s account = Ok c'"
    and "\<not> (a = rl \<and> account = sc)"
  shows "backed Z rl sc k c'"
proof -
  from assms(3) obtain t where t: "ch_token c a = Some t"
    by (auto simp: call_burnFromBlockedAddress_def split: option.splits)
  show ?thesis
  proof (cases "tk_code t")
    case ReserveLedgerCode
    with assms(3) t have "on_token c a (ledger_burnFromBlockedAddress Z (ch_registry c) s account) = Ok c'"
      by (simp add: call_burnFromBlockedAddress_def)
    then show ?thesis
    proof (rule backed_on_token [OF assms(2)])
      fix u u' assume "a = rl" "ledger_burnFromBlockedAddress Z (ch_registry c) s account u = Ok u'"
      then obtain v where "oz_burn Z (token_update Z (ch_registry c)) account (balanceOf Z u account) (u\<lparr>tk_temporaryUnblock := True\<rparr>) = Ok v"
        "u' = v\<lparr>tk_temporaryUnblock := False\<rparr>"
        by (auto simp: ledger_burnFromBlockedAddress_def onlyRole_iff andThen_Ok_iff)
      with flagged_burn_keeps(1) [OF assms(1)] assms(4) \<open>a = rl\<close> show "ledger_keeps Z sc k k u u'" by auto
    next
      fix u u' assume "a = sc" "ch_token c sc = Some u" "tk_code u = StablecoinCode rl"
      with t ReserveLedgerCode show "deposit_keeps Z k k u u'" by simp
    qed simp
  next
    case (StablecoinCode r)
    with assms(3) t have "stablecoin_burnFromBlockedAddress Z c a s account = Ok c'"
      by (simp add: call_burnFromBlockedAddress_def)
    from stablecoin_seize_keeps [OF assms(1,2) this] show ?thesis .
  qed
qed

lemma migration_keeps:
  assumes "backed Z rl sc k c" and "completeMigrationToWrapped Z c a s = Ok c'"
  shows "backed Z rl sc k c'"
proof -
  from assms(2) have "on_token c a (\<lambda>t. Ok (t\<lparr>tk_migrationToWrappedCompleted := True\<rparr>)) = Ok c'"
    by (auto simp: completeMigrationToWrapped_def onlyRole_iff elim!: on_stablecoin_Ok split: option.splits)
  from on_token_flag_keeps [OF assms(1) this] show ?thesis by auto
qed

section \<open>Administration\<close>

text \<open>Pausing and granting change the storage but no balance.\<close>

lemma view_keeps:
  assumes "tk_code t' = tk_code t" and "vw_balance (tview Z t') = vw_balance (tview Z t)"
    and "vw_supply (tview Z t') = vw_supply (tview Z t)" and "vw_allowance (tview Z t') = vw_allowance (tview Z t)"
  shows "ledger_keeps Z sc k k t t'" and "deposit_keeps Z k k t t'"
  using assms by (simp_all add: ledger_keeps_def deposit_keeps_def balanceOf_def totalSupply_def consistent_def)

text \<open>What the administration of a token leaves: the balances, supply and allowances, and the version of
  the initializer only grows.\<close>

definition admin_change :: "'b tokens_lib \<Rightarrow> 'b token \<Rightarrow> 'b token \<Rightarrow> bool" where
  "admin_change Z t t' \<longleftrightarrow> vw_balance (tview Z t') = vw_balance (tview Z t) \<and> vw_supply (tview Z t') = vw_supply (tview Z t) \<and>
     vw_allowance (tview Z t') = vw_allowance (tview Z t) \<and> tk_initialized t \<le> tk_initialized t'"

lemma admin_change_keeps:
  assumes "backed Z rl sc k c" and "on_token c a f = Ok c'"
    and "\<And>t t'. f t = Ok t' \<Longrightarrow> admin_change Z t t'" and "\<And>t t'. a = rl \<or> a = sc \<Longrightarrow> f t = Ok t' \<Longrightarrow> tk_code t' = tk_code t"
  shows "backed Z rl sc k c'"
  by (rule backed_on_token [OF assms(1,2)]) (use assms(3,4) view_keeps in \<open>unfold admin_change_def, blast\<close>)+

lemma admin_views:
  assumes "oz_ok Z"
  shows "pause Z s t = Ok t' \<or> unpause Z s t = Ok t' \<or> setTransferPolicyId Z s i t = Ok t' \<or>
     setMintRecipientPolicyId Z s i t = Ok t' \<or> setMaxSupply Z s n t = Ok t' \<or>
     grantRole Z s r x t = Ok t' \<or> revokeRole Z s r x t = Ok t' \<or> renounceRole Z s r x t = Ok t' \<or>
     transferOwnership Z s x t = Ok t' \<or> renounceOwnership Z s t = Ok t' \<or> initialize Z nm sy dec adm tp mp t = Ok t' \<or>
     reinitialize Z s nm sy dec adm tp mp t = Ok t' \<Longrightarrow> admin_change Z t t' \<and> tk_code t' = tk_code t"
  by (auto simp: admin_change_def pause_def unpause_def setTransferPolicyId_def setMintRecipientPolicyId_def setMaxSupply_def
      token_iffs grantRole_def revokeRole_def oz_grantRole_iff [OF assms] oz_revokeRole_iff [OF assms] grantRole_hook_def
      revokeRole_hook_def renounceRole_def oz_renounceRole_iff [OF assms] transferOwnership_def renounceOwnership_def
      initialize_def reinitialize_def reinitializer_def initialize_token_def onlyOwnerOrAdmin_def
      oz_views [OF assms] grant_spec_def revoke_spec_def pause_spec_Some ownership_spec_Some
      dest!: oz_pause_Ok [OF assms] oz_unpause_Ok [OF assms] oz_transferOwnership_Ok [OF assms] oz_renounceOwnership_Ok [OF assms])

lemma upgrade_Ok:
  assumes "upgradeTo Z s impl t = Ok t'"
  shows "admin_change Z t t'" and "hasRole Z t DEFAULT_ADMIN_ROLE s" and "Some (tk_code t') = impl"
  using assms by (auto simp: upgradeTo_def authorizeUpgrade_def onlyRole_iff admin_change_def split: option.splits)

section \<open>Handlers and the authority\<close>

text \<open>The contracts around the deposit token are not the deposit token, nor do they mint it as a ledger.\<close>

definition separate :: "deployed \<Rightarrow> address \<Rightarrow> bool" where
  "separate D sc \<longleftrightarrow> dy_TokenAuthority D \<noteq> sc \<and> dy_handler D sc = None \<and>
     (\<forall>h r. dy_handler D h = Some (ReserveLedgerWrappedHandler r) \<longrightarrow> r \<noteq> sc)"

lemmas call_keeps = call_transfer_keeps call_transferFrom_keeps call_approve_keeps call_burn_keeps wrap_keeps unwrap_keeps

lemma handler_mint_keeps:
  assumes "oz_ok Z" and "separate D sc" and "backed Z rl sc k c" and "handler_mint Z D c h s a to n = Ok c'"
    and "a = sc \<Longrightarrow> dy_handler D h = Some SingleTokenHandler \<Longrightarrow> deposit_migrated c sc"
  shows "backed Z rl sc k c'"
proof -
  have h: "h \<noteq> sc" using assms(2,4) by (auto simp: separate_def handler_mint_def)
  show ?thesis
  proof (cases "dy_handler D h")
    case (Some code)
    show ?thesis
    proof (cases code)
      case (ReserveLedgerWrappedHandler r)
      with Some assms(2) have "r \<noteq> sc" by (auto simp: separate_def)
      from assms(4) Some ReserveLedgerWrappedHandler obtain d e where
        d: "call_mint Z c r h h n = Ok d" "call_approve Z d r h a n = Ok e" "wrap Z e a h to n = Ok c'"
        by (auto simp: handler_mint_def onlyTokenAuthority_def andThen_Ok_iff)
      have "backed Z rl sc k d" using call_mint_keeps [OF assms(1,3) d(1)] \<open>r \<noteq> sc\<close> by simp
      from wrap_keeps [OF assms(1) call_approve_keeps [OF assms(1) this d(2) h] d(3) h] show ?thesis .
    next
      case SingleTokenHandler
      with assms(4) Some have "call_mint Z c a h to n = Ok c'" by (simp add: handler_mint_def onlyTokenAuthority_def)
      from call_mint_keeps [OF assms(1,3) this] assms(5) Some SingleTokenHandler show ?thesis by simp
    qed
  qed (use assms(4) in \<open>simp add: handler_mint_def\<close>)
qed

lemma handler_others_keep:
  assumes "oz_ok Z" and "separate D sc" and "backed Z rl sc k c"
  shows "handler_burn Z D c h s a n = Ok c' \<Longrightarrow> backed Z rl sc k c'"
    and "handler_wrap Z D c h s a to n = Ok c' \<Longrightarrow> backed Z rl sc k c'"
    and "handler_unwrap Z D c h s a to n = Ok c' \<Longrightarrow> backed Z rl sc k c'"
proof -
  have h: "dy_handler D h \<noteq> None \<Longrightarrow> h \<noteq> sc" using assms(2) by (auto simp: separate_def)
  show "handler_burn Z D c h s a n = Ok c' \<Longrightarrow> backed Z rl sc k c'"
    using h by (auto simp: handler_burn_def onlyTokenAuthority_def andThen_Ok_iff split: option.splits handler_code.splits)
      (meson assms(1,3) call_keeps)+
  show "handler_wrap Z D c h s a to n = Ok c' \<Longrightarrow> backed Z rl sc k c'"
    using h by (auto simp: handler_wrap_def onlyTokenAuthority_def andThen_Ok_iff split: option.splits handler_code.splits)
      (meson assms(1,3) call_keeps)
  show "handler_unwrap Z D c h s a to n = Ok c' \<Longrightarrow> backed Z rl sc k c'"
    using h by (auto simp: handler_unwrap_def onlyTokenAuthority_def andThen_Ok_iff split: option.splits handler_code.splits)
      (meson assms(1,3) call_keeps)
qed

lemma on_authority_keeps: "backed Z rl sc k (on_authority c f) \<longleftrightarrow> backed Z rl sc k c"
  by (simp add: backed_def on_authority_def)

lemma on_authority_token [simp]: "ch_token (on_authority c f) = ch_token c" "ch_registry (on_authority c f) = ch_registry c"
  by (simp_all add: on_authority_def)

text \<open>What would mint deposit tokens without wrapping ledger tokens.\<close>

fun mints_directly :: "deployed \<Rightarrow> 'b chain \<Rightarrow> address \<Rightarrow> tx \<Rightarrow> bool" where
  "mints_directly D c sc (TokenMint a to n) \<longleftrightarrow> a = sc"
| "mints_directly D c sc (AuthorityMint a to n) \<longleftrightarrow>
     a = sc \<and> dy_handler D (ta_tokenHandlers (ch_authority c) sc) = Some SingleTokenHandler"
| "mints_directly D c sc (AuthorityMintBridge a to n) \<longleftrightarrow>
     a = sc \<and> dy_handler D (ta_tokenHandlers (ch_authority c) sc) = Some SingleTokenHandler"
| "mints_directly D c sc _ \<longleftrightarrow> False"

lemma internal_mint_keeps:
  assumes "oz_ok Z" and "separate D sc" and "backed Z rl sc k c" and "authority_internal_mint Z D c a to n = Ok c'"
    and "a = sc \<Longrightarrow> dy_handler D (ta_tokenHandlers (ch_authority c) sc) = Some SingleTokenHandler \<Longrightarrow> deposit_migrated c sc"
  shows "backed Z rl sc k c'"
proof -
  from assms(4) have "handler_mint Z D c (ta_tokenHandlers (ch_authority c) a) (dy_TokenAuthority D) a to n = Ok c'"
    by (simp add: authority_internal_mint_def Let_def)
  from handler_mint_keeps [OF assms(1-3) this] assms(5) show ?thesis by auto
qed

lemma authority_keeps:
  assumes "oz_ok Z" and "separate D sc" and "backed Z rl sc k c"
  shows "authority_burn Z D c s a n = Ok c' \<Longrightarrow> backed Z rl sc k c'"
    and "authority_wrap Z D c s a to n = Ok c' \<Longrightarrow> backed Z rl sc k c'"
    and "authority_unwrap Z D c s a n = Ok c' \<Longrightarrow> backed Z rl sc k c'"
proof -
  have ta: "dy_TokenAuthority D \<noteq> sc" using assms(2) by (simp add: separate_def)
  note step = call_approve_keeps [OF assms(1) call_transferFrom_keeps [OF assms(1,3)] _ ta]
  show "authority_burn Z D c s a n = Ok c' \<Longrightarrow> backed Z rl sc k c'"
    by (auto simp: authority_burn_def authority_onlyRole_def Let_def andThen_Ok_iff
        intro: handler_others_keep(1) [OF assms(1,2) step])
  show "authority_wrap Z D c s a to n = Ok c' \<Longrightarrow> backed Z rl sc k c'"
    by (auto simp: authority_wrap_def Let_def andThen_Ok_iff intro: handler_others_keep(2) [OF assms(1,2) step])
  show "authority_unwrap Z D c s a n = Ok c' \<Longrightarrow> backed Z rl sc k c'"
    by (auto simp: authority_unwrap_def authority_onlyRole_def Let_def andThen_Ok_iff
        intro: handler_others_keep(3) [OF assms(1,2) step])
qed

text \<open>Transactions that change no token, and the administration of one.\<close>

fun administers :: "tx \<Rightarrow> bool" where
  "administers (TokenPause a) = True"
| "administers (TokenUnpause a) = True"
| "administers (TokenSetTransferPolicyId a i) = True"
| "administers (TokenSetMintRecipientPolicyId a i) = True"
| "administers (TokenSetMaxSupply a n) = True"
| "administers (TokenGrantRole a r x) = True"
| "administers (TokenRevokeRole a r x) = True"
| "administers (TokenRenounceRole a r x) = True"
| "administers (TokenTransferOwnership a x) = True"
| "administers (TokenRenounceOwnership a) = True"
| "administers (TokenInitialize a nm sy dec adm tp mp) = True"
| "administers (TokenReinitialize a nm sy dec adm tp mp) = True"
| "administers (TokenUpgrade a impl) = True"
| "administers t = False"

fun sets_state :: "tx \<Rightarrow> bool" where
  "sets_state (AuthoritySetTxnMintLimit a n) = True"
| "sets_state (AuthoritySetMinterAllowance a m n) = True"
| "sets_state (AuthoritySetTokenHandler a h) = True"
| "sets_state (AuthorityRegister a h n) = True"
| "sets_state (AuthorityUnregister a) = True"
| "sets_state (AuthorityGrantRole r x) = True"
| "sets_state (AuthorityRevokeRole r x) = True"
| "sets_state (AuthorityRenounceRole r x) = True"
| "sets_state (AuthorityInitialize x) = True"
| "sets_state (AuthorityUpgrade b) = True"
| "sets_state (RegistryCreatePolicy a t) = True"
| "sets_state (RegistryCreateChildPolicy a t p) = True"
| "sets_state (RegistryWhitelist i a v) = True"
| "sets_state (RegistryBlacklist i a v) = True"
| "sets_state t = False"

lemma exec_sets_state: "exec Z D s t c = Ok c' \<Longrightarrow> sets_state t \<Longrightarrow> ch_token c' = ch_token c"
  by (cases t) (auto simp: setTxnMintLimit_def setMinterAllowance_def setTokenHandler_def registerStablecoin_def
      unregisterStablecoin_def authority_grantRole_def authority_revokeRole_def authority_renounceRole_def authority_onlyRole_def on_registry_def
      authority_upgradeTo_def authority_authorizeUpgrade_def andThen_Ok_iff split: sum.splits)

lemma administers_on_token:
  assumes "oz_ok Z" and "administers t" and "exec Z D s t c = Ok c'"
  obtains a f where "on_token c a f = Ok c'" "\<And>u u'. f u = Ok u' \<Longrightarrow> admin_change Z u u'"
    "\<And>u u'. f u = Ok u' \<Longrightarrow> (\<And>impl. t \<noteq> TokenUpgrade a impl) \<Longrightarrow> tk_code u' = tk_code u"
  using assms(2,3)
proof (cases t)
  case (TokenPause a)
  show thesis by (rule that [of a "pause Z s"]) (use assms(3) TokenPause admin_views [OF assms(1)] in \<open>simp, meson, meson\<close>)
next
  case (TokenUnpause a)
  show thesis by (rule that [of a "unpause Z s"]) (use assms(3) TokenUnpause admin_views [OF assms(1)] in \<open>simp, meson, meson\<close>)
next
  case (TokenSetTransferPolicyId a i)
  show thesis by (rule that [of a "setTransferPolicyId Z s i"])
      (use assms(3) TokenSetTransferPolicyId admin_views [OF assms(1)] in \<open>simp, meson, meson\<close>)
next
  case (TokenSetMintRecipientPolicyId a i)
  show thesis by (rule that [of a "setMintRecipientPolicyId Z s i"])
      (use assms(3) TokenSetMintRecipientPolicyId admin_views [OF assms(1)] in \<open>simp, meson, meson\<close>)
next
  case (TokenSetMaxSupply a n)
  show thesis by (rule that [of a "setMaxSupply Z s n"]) (use assms(3) TokenSetMaxSupply admin_views [OF assms(1)] in \<open>simp, meson, meson\<close>)
next
  case (TokenGrantRole a r x)
  show thesis by (rule that [of a "grantRole Z s r x"]) (use assms(3) TokenGrantRole admin_views [OF assms(1)] in \<open>simp, meson, meson\<close>)
next
  case (TokenRevokeRole a r x)
  show thesis by (rule that [of a "revokeRole Z s r x"]) (use assms(3) TokenRevokeRole admin_views [OF assms(1)] in \<open>simp, meson, meson\<close>)
next
  case (TokenRenounceRole a r x)
  show thesis by (rule that [of a "renounceRole Z s r x"]) (use assms(3) TokenRenounceRole admin_views [OF assms(1)] in \<open>simp, meson, meson\<close>)
next
  case (TokenTransferOwnership a x)
  show thesis by (rule that [of a "transferOwnership Z s x"])
      (use assms(3) TokenTransferOwnership admin_views [OF assms(1)] in \<open>simp, meson, meson\<close>)
next
  case (TokenInitialize a nm sy dec adm tp mp)
  show thesis by (rule that [of a "initialize Z nm sy dec adm tp mp"])
      (use assms(3) TokenInitialize admin_views [OF assms(1)] in \<open>simp, meson, meson\<close>)
next
  case (TokenReinitialize a nm sy dec adm tp mp)
  show thesis by (rule that [of a "reinitialize Z s nm sy dec adm tp mp"])
      (use assms(3) TokenReinitialize admin_views [OF assms(1)] in \<open>simp, meson, meson\<close>)
next
  case (TokenUpgrade a impl)
  show thesis by (rule that [of a "upgradeTo Z s impl"]) (use assms(3) TokenUpgrade upgrade_Ok(1) in \<open>simp, blast, blast\<close>)
next
  case (TokenRenounceOwnership a)
  show thesis by (rule that [of a "renounceOwnership Z s"])
      (use assms(3) TokenRenounceOwnership admin_views [OF assms(1)] in \<open>simp, meson, meson\<close>)
qed simp_all

lemma exec_administers:
  assumes "oz_ok Z" and "backed Z rl sc k c" and "exec Z D s t c = Ok c'" and "administers t"
    and "\<And>impl. t \<noteq> TokenUpgrade rl impl" and "\<And>impl. t \<noteq> TokenUpgrade sc impl"
  shows "backed Z rl sc k c'"
proof -
  obtain a f where f: "on_token c a f = Ok c'" "\<And>u u'. f u = Ok u' \<Longrightarrow> admin_change Z u u'"
    "\<And>u u'. f u = Ok u' \<Longrightarrow> (\<And>impl. t \<noteq> TokenUpgrade a impl) \<Longrightarrow> tk_code u' = tk_code u"
    using administers_on_token [OF assms(1,4,3)] by blast
  show ?thesis using f(3) assms(5,6) by (intro admin_change_keeps [OF assms(2) f(1,2)]) auto
qed

text \<open>What takes the ledger tokens that the deposit token holds, or changes the code of either token.\<close>

fun undermines :: "address \<Rightarrow> address \<Rightarrow> tx \<Rightarrow> bool" where
  "undermines rl sc (TokenBurnFromBlocked a account) \<longleftrightarrow> a = rl \<and> account = sc"
| "undermines rl sc (TokenPermit a owner spender n deadline sig) \<longleftrightarrow> a = rl \<and> owner = sc"
| "undermines rl sc (TokenUpgrade a impl) \<longleftrightarrow> a = rl \<or> a = sc"
| "undermines rl sc _ \<longleftrightarrow> False"

lemma exec_keeps_backed:
  assumes "oz_ok Z" and "separate D sc" and "s \<noteq> sc" and "backed Z rl sc 0 c" and "exec Z D s t c = Ok c'"
    and "mints_directly D c sc t \<Longrightarrow> deposit_migrated c sc" and "\<not> undermines rl sc t"
  shows "backed Z rl sc 0 c'"
proof (cases t)
  case (AuthorityMint a to n)
  let ?d = "on_authority c (\<lambda>t. t\<lparr>ta_minterAllowances := (ta_minterAllowances t)(a :=
          (ta_minterAllowances t a)(s := ta_minterAllowances (ch_authority c) a s - n))\<rparr>)"
  from AuthorityMint assms(5) have "authority_internal_mint Z D ?d a to n = Ok c'"
    by (simp add: authority_mint_def Let_def)
  from internal_mint_keeps [OF assms(1,2) _ this] assms(4,6) AuthorityMint show ?thesis
    by (auto simp: on_authority_keeps deposit_migrated_def) (simp_all add: on_authority_def)
next
  case (AuthorityMintBridge a to n)
  with assms(5) have "authority_internal_mint Z D c a to n = Ok c'"
    by (simp add: mintBridgeEcosystem_def authority_onlyRole_def)
  from internal_mint_keeps [OF assms(1,2,4) this] assms(6) AuthorityMintBridge show ?thesis by auto
next
  case (TokenTransfer a to n)
  from call_transfer_keeps [OF assms(1,4) _ assms(3)] assms(5-7) TokenTransfer show ?thesis by auto
next
  case (TokenTransferFrom a x y n)
  from call_transferFrom_keeps [OF assms(1,4)] assms(5-7) TokenTransferFrom show ?thesis by auto
next
  case (TokenApprove a x n)
  from call_approve_keeps [OF assms(1,4) _ assms(3)] assms(5-7) TokenApprove show ?thesis by auto
next
  case (TokenMint a to n)
  from call_mint_keeps [OF assms(1,4)] assms(5-7) TokenMint show ?thesis by auto
next
  case (TokenBurn a n)
  from call_burn_keeps [OF assms(1,4) _ assms(3)] assms(5-7) TokenBurn show ?thesis by auto
next
  case (TokenBurnFromBlocked a x)
  from call_seize_keeps [OF assms(1,4)] assms(5-7) TokenBurnFromBlocked show ?thesis by auto
next
  case (TokenPermit a owner spender n deadline sig)
  from permit_keeps [OF assms(1,4)] assms(5-7) TokenPermit show ?thesis by auto
next
  case (TokenWrap a to n)
  from wrap_keeps [OF assms(1,4) _ assms(3)] assms(5-7) TokenWrap show ?thesis by auto
next
  case (TokenUnwrap a n)
  from unwrap_keeps [OF assms(1,4) _ assms(3)] assms(5-7) TokenUnwrap show ?thesis by auto
next
  case (TokenCompleteMigration a)
  from migration_keeps [OF assms(4)] assms(5-7) TokenCompleteMigration show ?thesis by auto
next
  case (AuthorityBurn a n)
  from authority_keeps(1) [OF assms(1,2,4)] assms(5-7) AuthorityBurn show ?thesis by auto
next
  case (AuthorityUnwrap a n)
  from authority_keeps(3) [OF assms(1,2,4)] assms(5-7) AuthorityUnwrap show ?thesis by auto
next
  case (AuthorityWrap a to n)
  from authority_keeps(2) [OF assms(1,2,4)] assms(5-7) AuthorityWrap show ?thesis by auto
qed (use assms(4,5,7) exec_administers [OF assms(1,4,5)] exec_sets_state [OF assms(5)] backed_cong in auto)

end
