(* ===== verification/Issuance.thy ===== *)
theory Issuance
  imports Backing
begin

text \<open>
  What a mint through the token authority and a transfer do, exactly: when they succeed and which
  state they leave. A mint runs through three contracts: the authority lowers the minter's
  allowance, the handler mints ledger tokens to itself, approves the deposit token and has them
  wrapped, and the deposit token takes them in and mints as many of its own to the recipient.
\<close>

section \<open>Successful calls of one token\<close>

text \<open>An open token: running, and its policy lets the two accounts of a move through.\<close>

definition open_for :: "'b tokens_lib \<Rightarrow> registry \<Rightarrow> 'b token \<Rightarrow> address set \<Rightarrow> bool" where
  "open_for Z g t A \<longleftrightarrow> \<not> vw_paused (tview Z t) \<and> A \<subseteq> auth_set g (tk_transferPolicyId t)"

lemma open_for_passes: "open_for Z g t A \<Longrightarrow> a \<in> A \<Longrightarrow> passes g t a"
  by (auto simp: open_for_def passes_def authorized_in_set)

text \<open>A token after a call: the storage changed, the rest is as before.\<close>

definition based :: "'b tokens_lib \<Rightarrow> 'b token \<Rightarrow> oz_view \<Rightarrow> 'b token \<Rightarrow> bool" where
  "based Z t v t' \<longleftrightarrow> t' = t\<lparr>tk_base := tk_base t'\<rparr> \<and> tview Z t' = v"

lemma based_simps:
  assumes "based Z t v t'"
  shows "tview Z t' = v" "tk_code t' = tk_code t" "tk_maxSupply t' = tk_maxSupply t" "tk_decimals t' = tk_decimals t"
    "tk_transferPolicyId t' = tk_transferPolicyId t" "tk_mintRecipientPolicyId t' = tk_mintRecipientPolicyId t"
    "tk_migrationToWrappedCompleted t' = tk_migrationToWrappedCompleted t" "tk_temporaryUnblock t' = tk_temporaryUnblock t"
    "tk_initialized t' = tk_initialized t"
  using assms by (cases t; cases t'; simp add: based_def)+

lemma based_trans: "based Z t v t' \<Longrightarrow> based Z t' v' t'' \<Longrightarrow> based Z t v' t''"
  by (cases t; cases t'; cases t'') (simp add: based_def)

lemma update_based:
  assumes "oz_ok Z" and "open_for Z g t A" and "from \<in> A" and "to \<in> A"
    and "if from = 0 then vw_supply (tview Z t) + n < 2 ^ 256 else n \<le> vw_balance (tview Z t) from"
  obtains t' where "token_update Z g from to n t = Ok t'"
    "based Z t ((tview Z t)\<lparr>vw_balance := credit to n (debit from n (vw_balance (tview Z t))),
        vw_supply := (vw_supply (tview Z t) + (if from = 0 then n else 0)) - (if to = 0 then n else 0)\<rparr>) t'"
proof -
  note p = open_for_passes [OF assms(2,3)] open_for_passes [OF assms(2,4)]
  have run: "\<not> vw_paused (tview Z t)" using assms(2) by (simp add: open_for_def)
  obtain t' where t': "token_update Z g from to n t = Ok t'" "tview Z t' = (tview Z t)\<lparr>vw_balance := credit to n (debit from n (vw_balance (tview Z t))),
        vw_supply := (vw_supply (tview Z t) + (if from = 0 then n else 0)) - (if to = 0 then n else 0)\<rparr>" "t' = t\<lparr>tk_base := tk_base t'\<rparr>"
    using token_update_succeeds [OF assms(1) p run] assms(5) by (metis update_spec_Some)
  then show thesis by (intro that [of t']) (simp_all add: based_def)
qed

lemma approve_based:
  assumes "oz_ok Z" and "owner \<noteq> 0" and "spender \<noteq> 0"
  obtains t' where "approve Z owner spender n t = Ok t'"
    "based Z t ((tview Z t)\<lparr>vw_allowance := (vw_allowance (tview Z t))(owner := (vw_allowance (tview Z t) owner)(spender := n))\<rparr>) t'"
proof -
  obtain b where "oz_approve Z owner spender n (tk_base t) = Ok b" "oz_state Z b =
      (tview Z t)\<lparr>vw_allowance := (vw_allowance (tview Z t))(owner := (vw_allowance (tview Z t) owner)(spender := n))\<rparr>"
    using oz_approve_succeeds [OF assms(1)] assms(2,3) approve_spec_Some by blast
  then show thesis by (intro that [of "t\<lparr>tk_base := b\<rparr>"]) (simp_all add: approve_def on_base_def based_def)
qed

lemma spend_based:
  assumes "oz_ok Z" and "owner \<noteq> 0" and "spender \<noteq> 0" and "vw_allowance (tview Z t) owner spender = n" and "n < 2 ^ 256 - 1"
  obtains t' where "spendAllowance Z owner spender n t = Ok t'"
    "based Z t ((tview Z t)\<lparr>vw_allowance := (vw_allowance (tview Z t))(owner := (vw_allowance (tview Z t) owner)(spender := 0))\<rparr>) t'"
proof -
  have "spend_spec owner spender n (tview Z t) =
      Some ((tview Z t)\<lparr>vw_allowance := (vw_allowance (tview Z t))(owner := (vw_allowance (tview Z t) owner)(spender := 0))\<rparr>)"
    using assms(2-5) by (simp add: spend_spec_iff)
  from oz_spend_succeeds [OF assms(1) this] obtain b where "oz_spendAllowance Z owner spender n (tk_base t) = Ok b" "oz_state Z b =
      (tview Z t)\<lparr>vw_allowance := (vw_allowance (tview Z t))(owner := (vw_allowance (tview Z t) owner)(spender := 0))\<rparr>" by blast
  then show thesis by (intro that [of "t\<lparr>tk_base := b\<rparr>"]) (simp_all add: spendAllowance_def on_base_def based_def)
qed

text \<open>A mint to \<open>to\<close>, as seen in the storage.\<close>

definition minted :: "address \<Rightarrow> nat \<Rightarrow> oz_view \<Rightarrow> oz_view" where
  "minted to n v = v\<lparr>vw_balance := (vw_balance v)(to := vw_balance v to + n), vw_supply := vw_supply v + n\<rparr>"

definition moved :: "address \<Rightarrow> address \<Rightarrow> nat \<Rightarrow> oz_view \<Rightarrow> oz_view" where
  "moved from to n v = v\<lparr>vw_balance := credit to n (debit from n (vw_balance v))\<rparr>"

lemma mint_based:
  assumes "oz_ok Z" and "open_for Z g t {0, to}" and "to \<noteq> 0" and "vw_supply (tview Z t) + n < 2 ^ 256"
  obtains t' where "oz_mint Z (token_update Z g) to n t = Ok t'" "based Z t (minted to n (tview Z t)) t'"
  using update_based [OF assms(1,2), of 0 to n] assms(3,4) oz_mint_iff [OF assms(1)]
  by (simp add: minted_def credit_def) blast

lemma transfer_based:
  assumes "oz_ok Z" and "open_for Z g t {from, to}" and "from \<noteq> 0" and "to \<noteq> 0" and "n \<le> vw_balance (tview Z t) from"
  obtains t' where "transfer Z g from to n t = Ok t'" "based Z t (moved from to n (tview Z t)) t'"
proof -
  obtain t' where "token_update Z g from to n t = Ok t'" "based Z t (moved from to n (tview Z t)) t'"
    using update_based [OF assms(1,2), of "from" to n] assms(3-5) by (auto simp: moved_def)
  then show thesis using that [of t'] assms(3,4) by (simp add: transfer_def oz_transfer_iff [OF assms(1)])
qed

text \<open>The ledger's side of a mint: to the handler, approved, and moved into the deposit token.\<close>

lemma open_for_based: "based Z t v t' \<Longrightarrow> open_for Z g t A \<Longrightarrow> vw_paused v = vw_paused (tview Z t) \<Longrightarrow> open_for Z g t' A"
  by (simp add: open_for_def based_simps)

lemma transferFrom_based:
  assumes "oz_ok Z" and "open_for Z g t {from, to}" and "from \<noteq> 0" and "to \<noteq> 0" and "sp \<noteq> 0"
    and "n \<le> vw_balance (tview Z t) from" and "vw_allowance (tview Z t) from sp = n" and "n < 2 ^ 256 - 1"
  obtains t' where "transferFrom Z g sp from to n t = Ok t'"
    "based Z t (moved from to n ((tview Z t)\<lparr>vw_allowance :=
        (vw_allowance (tview Z t))(from := (vw_allowance (tview Z t) from)(sp := 0))\<rparr>)) t'"
proof -
  obtain u where u: "spendAllowance Z from sp n t = Ok u" "based Z t ((tview Z t)\<lparr>vw_allowance :=
      (vw_allowance (tview Z t))(from := (vw_allowance (tview Z t) from)(sp := 0))\<rparr>) u"
    using spend_based [OF assms(1,3,5,7,8)] .
  note v = based_simps [OF u(2)]
  have "open_for Z g u {from, to}" using open_for_based [OF u(2) assms(2)] by simp
  then obtain t' where t': "token_update Z g from to n u = Ok t'" "based Z u (moved from to n (tview Z u)) t'"
    using update_based [OF assms(1), of g u "{from, to}" "from" to n] assms(3,4,6) v by (auto simp: moved_def)
  have "transferFrom Z g sp from to n t = Ok t'"
    using u(1) t'(1) assms(3,4) by (simp add: transferFrom_def oz_transferFrom_iff [OF assms(1)] andThen_Ok_iff)
  with based_trans [OF u(2) t'(2)] v(1) show thesis by (intro that [of t']) simp_all
qed

section \<open>The mint through the wrapped handler\<close>

text \<open>What the mint makes of the ledger's storage.\<close>

definition collateralized :: "address \<Rightarrow> address \<Rightarrow> nat \<Rightarrow> oz_view \<Rightarrow> oz_view" where
  "collateralized handler sc n v =
     v\<lparr>vw_balance := (vw_balance v)(sc := vw_balance v sc + n), vw_supply := vw_supply v + n,
       vw_allowance := (vw_allowance v)(handler := (vw_allowance v handler)(sc := 0))\<rparr>"

text \<open>A ledger that lets the handler mint \<open>n\<close> and hand it to the deposit token.\<close>

definition ledger_ready :: "'b tokens_lib \<Rightarrow> registry \<Rightarrow> 'b token \<Rightarrow> address \<Rightarrow> address \<Rightarrow> nat \<Rightarrow> bool" where
  "ledger_ready Z g t handler sc n \<longleftrightarrow>
     tk_code t = ReserveLedgerCode \<and> hasRole Z t MINTER_ROLE handler \<and> open_for Z g t {0, handler, sc} \<and>
     handler \<in> auth_set g (tk_mintRecipientPolicyId t) \<and> totalSupply Z t + n \<le> tk_maxSupply t \<and> totalSupply Z t + n < 2 ^ 256"

lemma open_for_mono: "open_for Z g t A \<Longrightarrow> B \<subseteq> A \<Longrightarrow> open_for Z g t B"
  by (auto simp: open_for_def)

lemma ledger_side:
  assumes "oz_ok Z" and "ledger_ready Z g t h sc n" and "h \<noteq> 0" and "sc \<noteq> 0" and "h \<noteq> sc" and "n < 2 ^ 256 - 1"
  obtains t1 t2 t3 where "ledger_mint Z g h h n t = Ok t1" "tk_code t1 = ReserveLedgerCode" "approve Z h sc n t1 = Ok t2"
    "transferFrom Z g sc h sc n t2 = Ok t3" "based Z t (collateralized h sc n (tview Z t)) t3"
proof -
  let ?v = "tview Z t"
  note r = assms(2) [unfolded ledger_ready_def]
  have "vw_supply ?v + n < 2 ^ 256" using r unfolding totalSupply_def by linarith
  moreover have "open_for Z g t {0, h}" using r by (blast intro: open_for_mono)
  ultimately obtain t1 where t1: "oz_mint Z (token_update Z g) h n t = Ok t1" "based Z t (minted h n ?v) t1"
    using mint_based [OF assms(1)] assms(3) by blast
  have m: "ledger_mint Z g h h n t = Ok t1"
    using r t1(1) by (simp add: ledger_mint_def token_iffs authorized_in_set)
  note v1 = based_simps [OF t1(2)]
  obtain t2 where t2: "approve Z h sc n t1 = Ok t2" "based Z t1 ((tview Z t1)\<lparr>vw_allowance :=
      (vw_allowance (tview Z t1))(h := (vw_allowance (tview Z t1) h)(sc := n))\<rparr>) t2"
    using approve_based [OF assms(1,3,4)] .
  note v2 = based_simps [OF t2(2)]
  have "open_for Z g t2 {0, h, sc}"
    using open_for_based [OF t2(2) open_for_based [OF t1(2)]] r v1 by (simp add: minted_def)
  then have op: "open_for Z g t2 {h, sc}" by (rule open_for_mono) auto
  have "n \<le> vw_balance (tview Z t2) h" "vw_allowance (tview Z t2) h sc = n"
    by (simp_all add: v1(1) v2(1) minted_def)
  then obtain t3 where t3: "transferFrom Z g sc h sc n t2 = Ok t3" "based Z t2 (moved h sc n ((tview Z t2)\<lparr>vw_allowance :=
        (vw_allowance (tview Z t2))(h := (vw_allowance (tview Z t2) h)(sc := 0))\<rparr>)) t3"
    using transferFrom_based [OF assms(1) op assms(3,4,4) _ _ assms(6)] by blast
  have "moved h sc n ((tview Z t2)\<lparr>vw_allowance := (vw_allowance (tview Z t2))(h := (vw_allowance (tview Z t2) h)(sc := 0))\<rparr>) =
      collateralized h sc n ?v"
    using assms(3-5) by (simp add: v2(1) v1(1) moved_def minted_def collateralized_def credit_def debit_def fun_upd_twist)
  with t3(2) have "based Z t (collateralized h sc n ?v) t3"
    using based_trans [OF based_trans [OF t1(2) t2(2)]] by simp
  with m t2(1) t3(1) v1(2) r show thesis by (intro that) simp_all
qed

text \<open>A deposit token that takes the wrapped amount for \<open>to\<close>.\<close>

definition deposit_ready :: "'b tokens_lib \<Rightarrow> registry \<Rightarrow> 'b token \<Rightarrow> address \<Rightarrow> address \<Rightarrow> nat \<Rightarrow> bool" where
  "deposit_ready Z g t rl to n \<longleftrightarrow>
     tk_code t = StablecoinCode rl \<and> open_for Z g t {0, to} \<and> to \<in> auth_set g (tk_mintRecipientPolicyId t) \<and>
     totalSupply Z t + n < 2 ^ 256"

lemma handler_mint_effect:
  assumes "oz_ok Z" and "dy_handler D h = Some (ReserveLedgerWrappedHandler rl)"
    and "ch_token c rl = Some tr" and "ch_token c sc = Some ts" and "rl \<noteq> sc"
    and "ledger_ready Z (ch_registry c) tr h sc n" and "deposit_ready Z (ch_registry c) ts rl to n"
    and "h \<noteq> 0" and "sc \<noteq> 0" and "h \<noteq> sc" and "to \<noteq> 0" and "0 < n" and "n < 2 ^ 256 - 1"
  obtains tr' ts' where "handler_mint Z D c h (dy_TokenAuthority D) sc to n = Ok (c\<lparr>ch_token := (ch_token c)(rl \<mapsto> tr', sc \<mapsto> ts')\<rparr>)"
    "based Z tr (collateralized h sc n (tview Z tr)) tr'" "based Z ts (minted to n (tview Z ts)) ts'"
proof -
  note d = assms(7) [unfolded deposit_ready_def]
  obtain t1 t2 t3 where l: "ledger_mint Z (ch_registry c) h h n tr = Ok t1" "tk_code t1 = ReserveLedgerCode"
    "approve Z h sc n t1 = Ok t2" "transferFrom Z (ch_registry c) sc h sc n t2 = Ok t3" "based Z tr (collateralized h sc n (tview Z tr)) t3"
    using ledger_side [OF assms(1,6,8-10,13)] .
  obtain ts' where s: "oz_mint Z (token_update Z (ch_registry c)) to n ts = Ok ts'" "based Z ts (minted to n (tview Z ts)) ts'"
    using mint_based [OF assms(1), of "ch_registry c" ts to n] d assms(11) by (auto simp: totalSupply_def)
  have tr: "tk_code tr = ReserveLedgerCode" using assms(6) by (simp add: ledger_ready_def)
  let ?c1 = "c\<lparr>ch_token := (ch_token c)(rl \<mapsto> t1)\<rparr>" and ?c2 = "c\<lparr>ch_token := (ch_token c)(rl \<mapsto> t2)\<rparr>"
    and ?c3 = "c\<lparr>ch_token := (ch_token c)(rl \<mapsto> t3)\<rparr>"
  have 1: "call_mint Z c rl h h n = Ok ?c1"
    by (simp add: call_mint_def on_token_def assms(3) tr l(1))
  have 2: "call_approve Z ?c1 rl h sc n = Ok ?c2"
    by (simp add: call_approve_def on_token_def l(3))
  have 3: "call_transferFrom Z ?c2 rl sc h sc n = Ok ?c3"
    by (simp add: call_transferFrom_def on_token_def l(4))
  have 4: "on_token ?c3 sc (oz_mint Z (token_update Z (ch_registry ?c3)) to n) = Ok (c\<lparr>ch_token := (ch_token c)(rl \<mapsto> t3, sc \<mapsto> ts')\<rparr>)"
    using assms(4,5) s(1) by (simp add: on_token_def)
  have "wrap Z ?c2 sc h to n = Ok (c\<lparr>ch_token := (ch_token c)(rl \<mapsto> t3, sc \<mapsto> ts')\<rparr>)"
    using assms(4,5,12) d 3 4 by (simp add: wrap_def on_stablecoin_def require_isMintRecipient authorized_in_set)
  with 1 2 assms(2,11) have "handler_mint Z D c h (dy_TokenAuthority D) sc to n = Ok (c\<lparr>ch_token := (ch_token c)(rl \<mapsto> t3, sc \<mapsto> ts')\<rparr>)"
    by (simp add: handler_mint_def onlyTokenAuthority_def)
  from that [OF this l(5) s(2)] show thesis .
qed

section \<open>What a mint needs\<close>

lemma update_passed:
  assumes "oz_ok Z" and "token_update Z g from to n u = Ok t'" and "\<not> tk_temporaryUnblock u"
  shows "open_for Z g u {from, to}"
  using token_update_Ok(3-5) [OF assms(1,2)] assms(3) by (simp add: open_for_def passes_def authorized_in_set)

lemma mint_passed:
  assumes "oz_ok Z" and "oz_mint Z (token_update Z g) to n t = Ok t'" and "\<not> tk_temporaryUnblock t"
  shows "open_for Z g t {0, to}" and "to \<noteq> 0" and "vw_supply (tview Z t) + n < 2 ^ 256"
proof -
  from assms(2) have u: "to \<noteq> 0" "token_update Z g 0 to n t = Ok t'" by (simp_all add: oz_mint_iff [OF assms(1)])
  show "open_for Z g t {0, to}" using update_passed [OF assms(1) u(2) assms(3)] .
  show "to \<noteq> 0" by (fact u(1))
  show "vw_supply (tview Z t) + n < 2 ^ 256" using token_update_Ok(2) [OF assms(1) u(2)] by (simp add: update_spec_Some)
qed

text \<open>The policy and the running state of a token do not depend on its balances.\<close>

lemma open_for_cong:
  "tk_transferPolicyId u = tk_transferPolicyId t \<Longrightarrow> vw_paused (tview Z u) = vw_paused (tview Z t) \<Longrightarrow>
     open_for Z g u A \<longleftrightarrow> open_for Z g t A"
  by (simp add: open_for_def)

lemma base_fields:
  assumes "t' = t\<lparr>tk_base := tk_base t'\<rparr>"
  shows "tk_code t' = tk_code t" "tk_transferPolicyId t' = tk_transferPolicyId t" "tk_temporaryUnblock t' = tk_temporaryUnblock t"
  using assms by (cases t; cases t'; simp)+

lemma handler_mint_needs:
  assumes "oz_ok Z" and "dy_handler D h = Some (ReserveLedgerWrappedHandler rl)"
    and "ch_token c rl = Some tr" and "ch_token c sc = Some ts" and "rl \<noteq> sc"
    and "tk_code tr = ReserveLedgerCode" and "tk_code ts = StablecoinCode rl"
    and "\<not> tk_temporaryUnblock tr" and "\<not> tk_temporaryUnblock ts"
    and "handler_mint Z D c h s sc to n = Ok c'"
  shows "ledger_ready Z (ch_registry c) tr h sc n" and "deposit_ready Z (ch_registry c) ts rl to n" and "to \<noteq> 0" and "0 < n"
proof -
  let ?g = "ch_registry c"
  from assms(2,10) obtain d e where
    d: "to \<noteq> 0" "call_mint Z c rl h h n = Ok d" "call_approve Z d rl h sc n = Ok e" "wrap Z e sc h to n = Ok c'"
    by (auto simp: handler_mint_def onlyTokenAuthority_def andThen_Ok_iff)
  from d(2) assms(3,6) obtain t1 where t1: "ledger_mint Z ?g h h n tr = Ok t1" "d = c\<lparr>ch_token := (ch_token c)(rl \<mapsto> t1)\<rparr>"
    by (auto simp: call_mint_def on_token_def andThen_Ok_iff)
  then have m: "hasRole Z tr MINTER_ROLE h" "totalSupply Z tr + n < 2 ^ 256" "totalSupply Z tr + n \<le> tk_maxSupply tr"
    "h \<in> auth_set ?g (tk_mintRecipientPolicyId tr)" "oz_mint Z (token_update Z ?g) h n tr = Ok t1"
    by (simp_all add: ledger_mint_def token_iffs authorized_in_set)
  note p1 = mint_passed [OF assms(1) m(5) assms(8)]
  have "token_update Z ?g 0 h n tr = Ok t1" using m(5) by (simp add: oz_mint_iff [OF assms(1)])
  note u1 = token_update_Ok [OF assms(1) this]
  from d(3) t1(2) obtain t2 where t2: "approve Z h sc n t1 = Ok t2" "e = c\<lparr>ch_token := (ch_token c)(rl \<mapsto> t2)\<rparr>"
    by (auto simp: call_approve_def on_token_def andThen_Ok_iff)
  note u2 = approve_Ok [OF assms(1) t2(1)]
  from d(4) t2(2) assms(4,5,7) obtain f where f: "0 < n" "to \<in> auth_set ?g (tk_mintRecipientPolicyId ts)"
    "call_transferFrom Z e rl sc h sc n = Ok f" "on_token f sc (oz_mint Z (token_update Z (ch_registry f)) to n) = Ok c'"
    by (auto simp: wrap_def on_stablecoin_def isMintRecipient_iff authorized_in_set andThen_Ok_iff)
  from f(3) t2(2) obtain t3 where t3: "transferFrom Z ?g sc h sc n t2 = Ok t3" "f = c\<lparr>ch_token := (ch_token c)(rl \<mapsto> t3)\<rparr>"
    by (auto simp: call_transferFrom_def on_token_def andThen_Ok_iff)
  obtain u where u: "u = t2\<lparr>tk_base := tk_base u\<rparr>" "spend_spec h sc n (tview Z t2) = Some (tview Z u)" "token_update Z ?g h sc n u = Ok t3"
    using transferFrom_Ok [OF assms(1) t3(1)] .
  note fields = base_fields [OF u1(1)] base_fields [OF u2(1)] base_fields [OF u(1)]
  have "open_for Z ?g u {h, sc}" using update_passed [OF assms(1) u(3)] fields assms(8) by simp
  moreover have "vw_paused (tview Z u) = vw_paused (tview Z tr)"
    using spend_spec_Some(2) [OF u(2)] u2(2) u1(2) by (auto simp: approve_spec_Some update_spec_Some)
  ultimately have "open_for Z ?g tr {h, sc}" using fields open_for_cong [of u tr Z ?g] by simp
  with p1(1) have "open_for Z ?g tr {0, h, sc}" by (auto simp: open_for_def)
  with m assms(6) show "ledger_ready Z ?g tr h sc n" by (simp add: ledger_ready_def)
  from f(4) t3(2) assms(4,5) obtain ts' where "oz_mint Z (token_update Z ?g) to n ts = Ok ts'"
    by (auto simp: on_token_def andThen_Ok_iff)
  note p2 = mint_passed [OF assms(1) this assms(9)]
  with f(2) assms(7) show "deposit_ready Z ?g ts rl to n" by (simp add: deposit_ready_def totalSupply_def)
  show "to \<noteq> 0" "0 < n" by (fact d(1), fact f(1))
qed

section \<open>The mint through the authority\<close>

definition mint_allowed :: "'b tokens_lib \<Rightarrow> 'b chain \<Rightarrow> address \<Rightarrow> address \<Rightarrow> address \<Rightarrow> address \<Rightarrow> nat \<Rightarrow> bool" where
  "mint_allowed Z c s rl sc to n \<longleftrightarrow>
     0 < n \<and> to \<noteq> 0 \<and> n \<le> ta_minterAllowances (ch_authority c) sc s \<and> n \<le> ta_mintTxnLimits (ch_authority c) sc \<and>
     n \<le> ABSOLUTE_MAX \<and>
     (\<exists>tr ts. ch_token c rl = Some tr \<and> ch_token c sc = Some ts \<and>
        ledger_ready Z (ch_registry c) tr (ta_tokenHandlers (ch_authority c) sc) sc n \<and>
        deposit_ready Z (ch_registry c) ts rl to n)"

definition lower_allowance :: "address \<Rightarrow> address \<Rightarrow> nat \<Rightarrow> 'b authority \<Rightarrow> 'b authority" where
  "lower_allowance sc s n t = t\<lparr>ta_minterAllowances := (ta_minterAllowances t)(sc :=
     (ta_minterAllowances t sc)(s := ta_minterAllowances t sc s - n))\<rparr>"

lemma authority_mint_iff:
  "authority_mint Z D c s sc to n = Ok c' \<longleftrightarrow>
     0 < n \<and> n \<le> ta_minterAllowances (ch_authority c) sc s \<and> n \<le> ta_mintTxnLimits (ch_authority c) sc \<and> n \<le> ABSOLUTE_MAX \<and>
     ta_tokenHandlers (ch_authority c) sc \<noteq> 0 \<and>
     handler_mint Z D (on_authority c (lower_allowance sc s n)) (ta_tokenHandlers (ch_authority c) sc) (dy_TokenAuthority D) sc to n = Ok c'"
proof -
  have "on_authority c (\<lambda>t. t\<lparr>ta_minterAllowances := (ta_minterAllowances t)(sc :=
      (ta_minterAllowances t sc)(s := ta_minterAllowances (ch_authority c) sc s - n))\<rparr>) = on_authority c (lower_allowance sc s n)"
    by (simp add: on_authority_def lower_allowance_def)
  moreover have "ta_tokenHandlers (ch_authority (on_authority c (lower_allowance sc s n))) = ta_tokenHandlers (ch_authority c)"
    by (simp add: on_authority_def lower_allowance_def)
  ultimately show ?thesis by (simp add: authority_mint_def authority_internal_mint_def Let_def)
qed

end
