(* ===== verification/Onboarding.thy ===== *)
theory Onboarding
  imports Deposit_Properties AuthRegistry
begin

text \<open>
  The deposit service and the policy registry together: what the transactions that Authorize
  broadcasts do to the registry when they are mined, in the order they were broadcast, from the
  address that administers the policies. The client's part is
  \<open>access_registry.grant_all_authorizes\<close>; the registry provides the interface.
\<close>

section \<open>What one run of Authorize broadcasts\<close>

lemma Authorize_sent:
  assumes "Authorize L N s account w = (r, w')" and "bank_Role (sv_bank s) = RoleIssuer"
  obtains es k where "emits w w' es" "k \<le> 2"
    "list_all2 (whitelists L N s account)
       (take k [dep_TransferPolicyID (sv_dep s), dep_SCMintPolicyID (sv_dep s)]) (sent es)"
    "returned r \<Longrightarrow> k = 2"
proof -
  from assms have "authorize_loop L N s account (authorize_steps s) [] w = (r, w')"
    by (simp add: Authorize_def requireRole_same)
  from authorize_loop_sent [OF this] obtain es k where es: "emits w w' es" "k \<le> length (authorize_steps s)"
    "list_all2 (whitelists L N s account) (map fst (take k (authorize_steps s))) (sent es)"
    "\<forall>rs. r = Done (Ok rs) \<longrightarrow> k = length (authorize_steps s)" by blast
  moreover have "map fst (take k (authorize_steps s)) =
      take k [dep_TransferPolicyID (sv_dep s), dep_SCMintPolicyID (sv_dep s)]"
    by (simp add: authorize_steps_def take_map [symmetric])
  moreover have "length (authorize_steps s) = 2" by (simp add: authorize_steps_def)
  ultimately show thesis using that by (auto simp: returned_iff)
qed

section \<open>Mining the calls\<close>

text \<open>The registry after the calls of a list of policies for one account, mined in order; a
  reverted transaction is mined too and changes nothing.\<close>

fun mined :: "address \<Rightarrow> address \<Rightarrow> u64 list \<Rightarrow> registry \<Rightarrow> registry" where
  "mined sender account [] g = g"
| "mined sender account (i # is) g =
     (case modifyPolicyWhitelist sender i account True g of
        Inl _ \<Rightarrow> mined sender account is g
      | Inr g' \<Rightarrow> mined sender account is g')"

lemma mined_grant_all:
  "grant_all (whitelist_call sender) is account g = Some g' \<Longrightarrow> mined sender account is g = g'"
  by (induction "is" arbitrary: g) (auto simp: whitelist_call_def split: sum.splits option.splits)

lemma mined_members_other:
  assumes "i \<notin> set is"
  shows "members (mined sender account is g) i = members g i"
  using assms
proof (induction "is" arbitrary: g)
  case (Cons j "is")
  have "members g' i = members g i" if "modifyPolicyWhitelist sender j account True g = Inr g'" for g'
    using setMember_policies(5) [OF that [unfolded modifyPolicyWhitelist_def], of i] Cons.prems by auto
  with Cons show ?case by (auto split: sum.splits)
qed simp

section \<open>Properties\<close>

text \<open>
  C16. Onboarding has its effect on the chain: when the service's bank administers the two
  policies of the deployment and both are whitelists, the transactions one Authorize broadcasts,
  mined in order, authorize the account under exactly the policies they name, which is both when
  Authorize reports success and a prefix of the two after an error; nobody who was authorized
  under any policy loses it, and the member set of every other policy stays as it is.
\<close>

theorem onboarding_authorizes_the_account:
  assumes "Authorize L N s account w = (r, w')" and "bank_Role (sv_bank s) = RoleIssuer"
    and "reachable g"
    and "\<forall>i \<in> {dep_TransferPolicyID (sv_dep s), dep_SCMintPolicyID (sv_dep s)}.
           pl_exists (rg_policies g i) \<and> policyAdmin g i = sender \<and> getPolicyType g i = WHITELIST"
  shows "\<exists>es is g'. emits w w' es \<and> list_all2 (whitelists L N s account) is (sent es) \<and>
           prefix is [dep_TransferPolicyID (sv_dep s), dep_SCMintPolicyID (sv_dep s)] \<and>
           g' = mined sender account is g \<and>
           (\<forall>i \<in> set is. isAuthorized g' i account = Some (Inr True)) \<and>
           (\<forall>j b. isAuthorized g j b = Some (Inr True) \<longrightarrow> isAuthorized g' j b = Some (Inr True)) \<and>
           (\<forall>j. j \<notin> set is \<longrightarrow> members g' j = members g j) \<and>
           (returned r \<longrightarrow>
              isAuthorized g' (dep_TransferPolicyID (sv_dep s)) account = Some (Inr True) \<and>
              isAuthorized g' (dep_SCMintPolicyID (sv_dep s)) account = Some (Inr True))"
proof -
  let ?ps = "[dep_TransferPolicyID (sv_dep s), dep_SCMintPolicyID (sv_dep s)]"
  from Authorize_sent [OF assms(1,2)] obtain es k where es: "emits w w' es" "k \<le> 2"
    "list_all2 (whitelists L N s account) (take k ?ps) (sent es)" "returned r \<Longrightarrow> k = 2" by blast
  have "\<forall>i \<in> set (take k ?ps). administers_whitelist sender g i"
    using assms(4) reachable_wf [OF assms(3)] set_take_subset [of k ?ps]
    by (auto simp: administers_whitelist_def)
  from ar.grant_all_authorizes [OF this, of account] obtain g' where
    g': "grant_all (whitelist_call sender) (take k ?ps) account g = Some g'"
    "\<forall>i \<in> set (take k ?ps). authorized_in g' i account"
    "\<forall>j b. authorized_in g j b \<longrightarrow> authorized_in g' j b" by blast
  have m: "g' = mined sender account (take k ?ps) g" using mined_grant_all [OF g'(1)] by simp
  have other: "\<forall>j. j \<notin> set (take k ?ps) \<longrightarrow> members g' j = members g j"
    unfolding m by (simp add: mined_members_other)
  have both: "returned r \<Longrightarrow> \<forall>i \<in> set ?ps. authorized_in g' i account" using es(4) g'(2) by simp
  show ?thesis
    by (rule exI [of _ es], rule exI [of _ "take k ?ps"], rule exI [of _ g'])
      (use es(1,3) g'(2,3) m other both in \<open>auto simp: authorized_in_def take_is_prefix\<close>)
qed

text \<open>The sample issuer, onboarding on the two whitelists of the sample registry.\<close>

theorem onboarding_authorizes_the_account_witness:
  "\<exists>r w' es is. Authorize sample_lib sample_net (sample_issuer\<lparr>sv_dep := sample_dep\<lparr>dep_SCMintPolicyID := 3\<rparr>\<rparr>)
        5 sample_world = (r, w') \<and>
     emits sample_world w' es \<and> length is = length (sent es) \<and>
     (\<forall>i \<in> set is. isAuthorized (mined 7 5 is sample_registry) i 5 = Some (Inr True))"
proof -
  define s where "s = sample_issuer\<lparr>sv_dep := sample_dep\<lparr>dep_SCMintPolicyID := 3\<rparr>\<rparr>"
  obtain r w' where a: "Authorize sample_lib sample_net s 5 sample_world = (r, w')" by fastforce
  have i: "bank_Role (sv_bank s) = RoleIssuer" by (simp add: s_def sample_issuer_def BankA_def)
  have "\<forall>i \<in> {dep_TransferPolicyID (sv_dep s), dep_SCMintPolicyID (sv_dep s)}.
      pl_exists (rg_policies sample_registry i) \<and> policyAdmin sample_registry i = 7 \<and>
      getPolicyType sample_registry i = WHITELIST"
    by (simp add: s_def sample_dep_def sample_registry_def sample_policy_def policyAdmin_def getPolicyType_def)
  from onboarding_authorizes_the_account [OF a i sample_reachable this] obtain es "is" where
    "emits sample_world w' es" "list_all2 (whitelists sample_lib sample_net s 5) is (sent es)"
    "\<forall>i \<in> set is. isAuthorized (mined 7 5 is sample_registry) i 5 = Some (Inr True)" by blast
  with a show ?thesis unfolding s_def by (blast dest: list_all2_lengthD)
qed

text \<open>
  C39. The two membership calls are the same operation, and neither looks at the policy's type:
  the call named for whitelists, made on a blacklist by its administrator, succeeds and blocks
  the account instead of admitting it.
\<close>

theorem whitelisting_on_a_blacklist_blocks:
  assumes "pl_exists (rg_policies g i)" and "policyAdmin g i = sender" and "getPolicyType g i = BLACKLIST"
  shows "modifyPolicyWhitelist sender i a v g = modifyPolicyBlacklist sender i a v g \<and>
         (\<exists>g'. modifyPolicyWhitelist sender i a True g = Inr g' \<and> isAuthorized g' i a = Some (Inr False))"
proof -
  obtain g' where g': "setMember sender i a True g = Inr g'"
    using assms(1,2) by (simp add: setMember_def policyAdmin_def Let_def)
  note p = setMember_policies(1-5) [OF g', of i]
  have "pl_exists (rg_policies g' i)" "pl_policyType (rg_policies g' i) = BLACKLIST" "pl_member (rg_policies g' i) a"
    using p(1,3,5) assms(1,3) by (auto simp: getPolicyType_def members_def)
  then have "isAuthorized g' i a = Some (Inr False)"
    by (cases "pl_parent (rg_policies g' i) = 0") (simp_all add: isAuthorized_root isAuthorized_child)
  with g' show ?thesis by (simp add: modifyPolicyWhitelist_def modifyPolicyBlacklist_def)
qed

theorem whitelisting_on_a_blacklist_blocks_witness:
  "\<exists>g'. modifyPolicyWhitelist 7 4 9 True sample_registry = Inr g' \<and> isAuthorized g' 4 9 = Some (Inr False)"
proof -
  have "pl_exists (rg_policies sample_registry 4)" "policyAdmin sample_registry 4 = 7"
    "getPolicyType sample_registry 4 = BLACKLIST"
    by (simp_all add: sample_registry_def sample_policy_def policyAdmin_def getPolicyType_def)
  from whitelisting_on_a_blacklist_blocks [OF this] show ?thesis by blast
qed

end
