(* ===== verification/Deployment.thy ===== *)
theory Deployment
  imports Onboarding
begin

text \<open>
  contracts/scripts/DeployDemo.s.sol and the part of DeployAll.s.sol it runs on the AuthRegistry:
  which policies a fresh deployment has, who administers them and who is authorized from the
  start. The addresses of the deployed contracts are arguments. With it the hypotheses of
  onboarding hold for the deployment the services are given.
\<close>

section \<open>The script\<close>

definition BANK_A :: address where
  "BANK_A = 0xf39Fd6e51aad88F6F4ce6aB8827279cffFb92266"

fun whitelist_all :: "address \<Rightarrow> u64 \<Rightarrow> address list \<Rightarrow> registry \<Rightarrow> revert + registry" where
  "whitelist_all sender i [] g = Inr g"
| "whitelist_all sender i (a # as) g =
     (case modifyPolicyWhitelist sender i a True g of
        Inl e \<Rightarrow> Inl e
      | Inr g' \<Rightarrow> whitelist_all sender i as g')"

text \<open>The policies in the order the tokens are deployed: transfer and reserve ledger mint with the
  ledger, then the deposit token's mint policy.\<close>

definition deployReserveLedger :: "address \<Rightarrow> registry \<Rightarrow> revert + (u64 \<times> u64) \<times> registry" where
  "deployReserveLedger admin g =
     (case createPolicy admin WHITELIST g of
        Inl e \<Rightarrow> Inl e
      | Inr (transferPolicyId, g) \<Rightarrow>
          (case createPolicy admin WHITELIST g of
             Inl e \<Rightarrow> Inl e
           | Inr (rlMintPolicyId, g) \<Rightarrow> Inr ((transferPolicyId, rlMintPolicyId), g)))"

definition deployStablecoin :: "address \<Rightarrow> registry \<Rightarrow> revert + u64 \<times> registry" where
  "deployStablecoin admin g = createPolicy admin WHITELIST g"

definition deploy_policies :: "registry \<Rightarrow> revert + (u64 \<times> u64 \<times> u64) \<times> registry" where
  "deploy_policies g =
     (case deployReserveLedger BANK_A g of
        Inl e \<Rightarrow> Inl e
      | Inr ((transferPolicyId, rlMintPolicyId), g) \<Rightarrow>
          (case deployStablecoin BANK_A g of
             Inl e \<Rightarrow> Inl e
           | Inr (scMintPolicyId, g) \<Rightarrow> Inr ((transferPolicyId, rlMintPolicyId, scMintPolicyId), g)))"

definition infra :: "address \<Rightarrow> address \<Rightarrow> address \<Rightarrow> address list" where
  "infra stablecoin tokenHandler tokenAuthority = [0, stablecoin, tokenHandler, tokenAuthority, BANK_A]"

definition deploy_registry :: "address \<Rightarrow> address \<Rightarrow> address \<Rightarrow> registry
    \<Rightarrow> revert + (u64 \<times> u64 \<times> u64) \<times> registry" where
  "deploy_registry stablecoin tokenHandler tokenAuthority g =
     (case deploy_policies g of
        Inl e \<Rightarrow> Inl e
      | Inr ((transferPolicyId, rlMintPolicyId, scMintPolicyId), g) \<Rightarrow>
     (case whitelist_all BANK_A transferPolicyId (infra stablecoin tokenHandler tokenAuthority) g of
        Inl e \<Rightarrow> Inl e
      | Inr g \<Rightarrow>
     (case modifyPolicyWhitelist BANK_A rlMintPolicyId tokenHandler True g of
        Inl e \<Rightarrow> Inl e
      | Inr g \<Rightarrow> Inr ((transferPolicyId, rlMintPolicyId, scMintPolicyId), g))))"

section \<open>Lemmas\<close>

lemma whitelist_reachable:
  "reachable g \<Longrightarrow> modifyPolicyWhitelist s i a v g = Inr g' \<Longrightarrow> reachable g'"
  by (blast intro: reachable.step reg_step.white)

lemma root_reachable: "reachable g \<Longrightarrow> createPolicy admin t g = Inr (i, g') \<Longrightarrow> reachable g'"
  by (blast intro: reachable.step reg_step.root)

text \<open>Creating and whitelisting, by what they do to the policies.\<close>

lemma createPolicy_next:
  assumes "createPolicy admin t g = Inr (i, g')"
  shows "i = rg_nextPolicyId g" and "rg_nextPolicyId g' = rg_nextPolicyId g + 1"
    and "policyAdmin g' j = (if j = i then admin else policyAdmin g j)"
    and "getPolicyType g' j = (if j = i then t else getPolicyType g j)"
    and "pl_parent (rg_policies g' j) = (if j = i then 0 else pl_parent (rg_policies g j))"
    and "pl_exists (rg_policies g' j) \<longleftrightarrow> j = i \<or> pl_exists (rg_policies g j)"
    and "members g' j = members g j"
  using assms
  by (auto simp: createPolicy_def create_def Let_def policyAdmin_def getPolicyType_def members_def split: if_splits)

lemma createPolicy_succeeds: "rg_nextPolicyId g \<noteq> - 1 \<Longrightarrow> \<exists>g'. createPolicy admin t g = Inr (rg_nextPolicyId g, g')"
  by (simp add: createPolicy_def create_def Let_def)

text \<open>A policy of the administrator with no parent.\<close>

definition root_whitelist :: "address \<Rightarrow> registry \<Rightarrow> u64 \<Rightarrow> bool" where
  "root_whitelist admin g i \<longleftrightarrow>
     pl_exists (rg_policies g i) \<and> policyAdmin g i = admin \<and> getPolicyType g i = WHITELIST \<and>
     pl_parent (rg_policies g i) = 0"

lemma root_whitelist_auth_set: "root_whitelist admin g i \<Longrightarrow> auth_set g i = members g i"
  by (simp add: root_whitelist_def auth_set_eqs getPolicyType_def Let_def)

lemma whitelist_one:
  assumes "root_whitelist s g i"
  obtains g' where "modifyPolicyWhitelist s i a True g = Inr g'"
    "\<And>j t. root_whitelist t g' j = root_whitelist t g j"
    "\<And>j. members g' j = (if j = i then insert a (members g j) else members g j)"
proof -
  obtain g' where g': "setMember s i a True g = Inr g'"
    using assms by (simp add: root_whitelist_def setMember_def policyAdmin_def Let_def)
  note p = setMember_policies(1-5) [OF g']
  show thesis
    by (rule that [of g']) (auto simp: modifyPolicyWhitelist_def g' root_whitelist_def policyAdmin_def getPolicyType_def p)
qed

lemma whitelist_many:
  assumes "root_whitelist s g i" and "reachable g"
  shows "\<exists>g'. whitelist_all s i as g = Inr g' \<and> reachable g' \<and>
           (\<forall>j t. root_whitelist t g' j = root_whitelist t g j) \<and>
           (\<forall>j. members g' j = (if j = i then set as \<union> members g j else members g j))"
  using assms
proof (induction as arbitrary: g)
  case (Cons a as)
  obtain g1 where g1: "modifyPolicyWhitelist s i a True g = Inr g1"
    "\<And>j t. root_whitelist t g1 j = root_whitelist t g j"
    "\<And>j. members g1 j = (if j = i then insert a (members g j) else members g j)"
    using whitelist_one [OF Cons.prems(1)] by blast
  from Cons.IH [of g1] g1 Cons.prems whitelist_reachable [OF Cons.prems(2) g1(1)] show ?case
    by (auto simp: g1(2,3))
qed auto

text \<open>The policies of a fresh deployment.\<close>

lemma deploy_policies_fresh:
  "\<exists>g. deploy_policies registry_init = Inr ((2, 3, 4), g) \<and> reachable g \<and>
     (\<forall>i \<in> {2, 3, 4}. root_whitelist BANK_A g i) \<and> (\<forall>i. members g i = {})"
proof -
  have n0: "rg_nextPolicyId registry_init = 2" "members registry_init i = {}" for i
    by (simp_all add: registry_init_def members_def no_policy_def)
  obtain g1 where 1: "createPolicy BANK_A WHITELIST registry_init = Inr (2, g1)"
    using createPolicy_succeeds [of registry_init BANK_A WHITELIST] n0 by auto
  note p1 = createPolicy_next [OF 1]
  from p1(2) n0 have n1: "rg_nextPolicyId g1 = 3" by simp
  obtain g2 where 2: "createPolicy BANK_A WHITELIST g1 = Inr (3, g2)"
    using createPolicy_succeeds [of g1 BANK_A WHITELIST] n1 by auto
  note p2 = createPolicy_next [OF 2]
  from p2(2) n1 have n2: "rg_nextPolicyId g2 = 4" by simp
  obtain g3 where 3: "createPolicy BANK_A WHITELIST g2 = Inr (4, g3)"
    using createPolicy_succeeds [of g2 BANK_A WHITELIST] n2 by auto
  note p3 = createPolicy_next [OF 3]
  have "reachable g3"
    using root_reachable [OF root_reachable [OF root_reachable [OF reachable.init 1] 2] 3] .
  moreover have "\<forall>i \<in> {2, 3, 4}. root_whitelist BANK_A g3 i"
    by (simp add: root_whitelist_def p1(3-6) p2(3-6) p3(3-6))
  moreover have "members g3 i = {}" for i by (simp add: p1(7) p2(7) p3(7) n0)
  ultimately show ?thesis by (simp add: deploy_policies_def deployReserveLedger_def deployStablecoin_def 1 2 3)
qed

lemma deploy_registry_fresh:
  "\<exists>g. deploy_registry sc th ta registry_init = Inr ((2, 3, 4), g) \<and> reachable g \<and>
     (\<forall>i \<in> {2, 3, 4}. root_whitelist BANK_A g i) \<and>
     members g 2 = set (infra sc th ta) \<and> members g 3 = {th} \<and> members g 4 = {}"
proof -
  obtain g where g: "deploy_policies registry_init = Inr ((2, 3, 4), g)" "reachable g"
    "\<forall>i \<in> {2, 3, 4}. root_whitelist BANK_A g i" "\<forall>i. members g i = {}"
    using deploy_policies_fresh by blast
  then obtain h where h: "whitelist_all BANK_A 2 (infra sc th ta) g = Inr h" "reachable h"
    "\<forall>j t. root_whitelist t h j = root_whitelist t g j"
    "\<forall>j. members h j = (if j = 2 then set (infra sc th ta) \<union> members g j else members g j)"
    using whitelist_many [of BANK_A g 2 "infra sc th ta"] by auto
  from g(3) h(3) have "root_whitelist BANK_A h 3" by simp
  then obtain k where k: "modifyPolicyWhitelist BANK_A 3 th True h = Inr k"
    "\<And>j t. root_whitelist t k j = root_whitelist t h j"
    "\<And>j. members k j = (if j = 3 then insert th (members h j) else members h j)"
    using whitelist_one by blast
  with g h whitelist_reachable [OF h(2) k(1)] show ?thesis
    by (intro exI [of _ k]) (simp add: deploy_registry_def)
qed

section \<open>Property\<close>

text \<open>
  C17. The deployment is ready for onboarding: on a fresh registry the script never reverts and
  gives the policy ids 2, 3 and 4, all whitelists administered by Bank A; the transfer policy
  authorizes exactly the zero address, the contracts and Bank A, and nobody may receive a mint of
  the deposit token yet. After a successful Authorize by Bank A's service for this deployment,
  the mined transactions authorize exactly one more account, the onboarded one, under both.
\<close>

theorem deployment_is_ready_for_onboarding:
  assumes "Authorize L N s account w = (Done (Ok rs), w')" and "bank_Role (sv_bank s) = RoleIssuer"
    and "deploy_registry sc th ta registry_init = Inr ((t, rl, m), g)"
    and "dep_TransferPolicyID (sv_dep s) = t" and "dep_SCMintPolicyID (sv_dep s) = m"
  shows "reachable g \<and> auth_set g t = {0, sc, th, ta, BANK_A} \<and> auth_set g rl = {th} \<and> auth_set g m = {} \<and>
         (\<exists>es g'. emits w w' es \<and> list_all2 (whitelists L N s account) [t, m] (sent es) \<and>
            g' = mined BANK_A account [t, m] g \<and>
            auth_set g' t = insert account {0, sc, th, ta, BANK_A} \<and> auth_set g' m = {account} \<and>
            auth_set g' rl = {th})"
proof -
  from deploy_registry_fresh [of sc th ta] assms(3) have g: "t = 2" "rl = 3" "m = 4" "reachable g"
    "\<And>i. i \<in> {2, 3, 4} \<Longrightarrow> root_whitelist BANK_A g i"
    "members g 2 = {0, sc, th, ta, BANK_A}" "members g 3 = {th}" "members g 4 = {}"
    by (auto simp: infra_def)
  obtain es where es: "emits w w' es" "list_all2 (whitelists L N s account) [t, m] (sent es)"
    using Authorize_sent [OF assms(1,2)] assms(4,5) by (metis is_ok.simps(1) returned.simps(1) le_refl length_Cons list.size(3) numeral_2_eq_2 take_all)
  obtain h where h: "modifyPolicyWhitelist BANK_A 2 account True g = Inr h"
    "\<And>j t. root_whitelist t h j = root_whitelist t g j"
    "\<And>j. members h j = (if j = 2 then insert account (members g j) else members g j)"
    using whitelist_one [OF g(5) [of 2]] by auto
  obtain k where k: "modifyPolicyWhitelist BANK_A 4 account True h = Inr k"
    "\<And>j t. root_whitelist t k j = root_whitelist t h j"
    "\<And>j. members k j = (if j = 4 then insert account (members h j) else members h j)"
    using whitelist_one [of BANK_A h 4] h(2) g(5) [of 4] by auto
  have auth: "auth_set g i = members g i" "auth_set k i = members k i" if "i \<in> {2, 3, 4}" for i
    using root_whitelist_auth_set [of BANK_A] g(5) [OF that] h(2) k(2) by metis+
  have "mined BANK_A account [t, m] g = k" using h(1) k(1) g(1,3) by simp
  then show ?thesis
    using es g(1-4,6-8) auth [of 2] auth [of 3] auth [of 4] by (simp add: k(3) h(3)) blast
qed

lemma sample_authorize: "\<exists>rs w'. Authorize sample_lib sample_net sample_issuer a w = (Done (Ok rs), w')"
proof -
  have "Pack sample_lib b m args = (case abi_lookup b m of None \<Rightarrow> Err ''method not found''
      | Some e \<Rightarrow> if length args = length (inputs e) then Ok (name_bytes m @ concat (map any_bytes args))
                  else Err ''argument count mismatch'')" for b m args by (simp add: sample_lib_def)
  then have pk: "\<exists>d. Pack sample_lib AuthRegistry_abi ''modifyPolicyWhitelist'' [AUint64 p, AAddress a, ABool True] = Ok d" for p
    by (simp add: abi_lookup_def AuthRegistry_abi_def)
  have "\<exists>xs v. authorize_loop sample_lib sample_net sample_issuer a steps out w = (Done (Ok xs), v)" for steps out w
  proof (induction steps arbitrary: out w)
    case (Cons st steps)
    obtain p tag where st: "st = (p, tag)" by (cases st)
    obtain d where d: "Pack sample_lib AuthRegistry_abi ''modifyPolicyWhitelist'' [AUint64 p, AAddress a, ABool True] = Ok d"
      using pk by blast
    obtain x v where "buildSignBroadcast sample_lib sample_net sample_issuer tag (dep_AuthRegistry (sv_dep sample_issuer)) d w = (Done (Ok x), v)"
      using sample_run [OF sample_router_urls(1)] by blast
    with d st Cons.IH [of "out @ [x]" v] show ?case by simp
  qed simp
  moreover have "requireRole sample_lib sample_issuer RoleIssuer ''authorize'' = None"
    by (rule requireRole_same) (simp add: sample_issuer_def BankA_def)
  ultimately show ?thesis by (simp add: Authorize_def)
qed

theorem deployment_is_ready_for_onboarding_witness:
  "\<exists>rs w' g g'. Authorize sample_lib sample_net sample_issuer 5 sample_world = (Done (Ok rs), w') \<and>
     deploy_registry 0xA4AD 0x6101 0x8A79 registry_init = Inr ((2, 3, 4), g) \<and>
     g' = mined BANK_A 5 [2, 4] g \<and> auth_set g 4 = {} \<and> auth_set g' 4 = {5}"
proof -
  have i: "bank_Role (sv_bank sample_issuer) = RoleIssuer" by (simp add: sample_issuer_def BankA_def)
  have d: "dep_TransferPolicyID (sv_dep sample_issuer) = 2" "dep_SCMintPolicyID (sv_dep sample_issuer) = 4"
    by (simp_all add: sample_issuer_def sample_dep_def)
  obtain rs w' where a: "Authorize sample_lib sample_net sample_issuer 5 sample_world = (Done (Ok rs), w')"
    using sample_authorize by blast
  obtain g where g: "deploy_registry 0xA4AD 0x6101 0x8A79 registry_init = Inr ((2, 3, 4), g)"
    using deploy_registry_fresh by blast
  from deployment_is_ready_for_onboarding [OF a i g d] a g show ?thesis by blast
qed

end
