(* ===== verification/Settlement.thy ===== *)
theory Settlement
  imports Issuance Deployment
begin

text \<open>
  contracts/scripts/DeployAll.s.sol and DeployDemo.s.sol on the token contracts: the two proxies are
  initialized, and the deployer, Bank A, sends the configuring transactions one after the other. The
  script stops at the first that reverts. The addresses of the contracts are arguments; their
  constructors, which only store non-zero addresses, are not modelled. What anyone then does on the
  chain is a run of transactions on this deployment.
\<close>

section \<open>The script\<close>

definition BIG :: nat where
  "BIG = 999999999999999"

record TokenConfig =
  tc_name :: string
  tc_symbol :: string
  tc_decimals :: "8 word"

record HandoverConfig =
  ho_txnMintLimit :: nat
  ho_minterAddress :: address
  ho_minterAllowance :: nat
  ho_rlMaxSupply :: nat
  ho_stablecoinMaxSupply :: nat
  ho_pauserAddress :: address
  ho_unpauserAddress :: address
  ho_blockedAddressBurnerAddress :: address
  ho_rlAdmin :: address
  ho_stablecoinAdmin :: address
  ho_tokenAuthorityAdmin :: address

text \<open>A proxy of either token as the factory makes it: owned by the deployer, the first version of its
  initializer consumed. The deployer runs the second with the upgrade.\<close>

definition fresh_token :: "'b tokens_lib \<Rightarrow> token_code \<Rightarrow> address \<Rightarrow> 'b token" where
  "fresh_token Z code deployer = \<lparr>tk_code = code, tk_base = oz_owned Z deployer, tk_maxSupply = 0, tk_decimals = 0,
     tk_transferPolicyId = 0, tk_mintRecipientPolicyId = 0, tk_migrationToWrappedCompleted = False,
     tk_temporaryUnblock = False, tk_initialized = 1\<rparr>"

definition deployProxy :: "'b tokens_lib \<Rightarrow> token_code \<Rightarrow> TokenConfig \<Rightarrow> u64 \<Rightarrow> u64 \<Rightarrow> address \<Rightarrow> 'b token res" where
  "deployProxy Z code config transferPolicyId mintPolicyId deployer =
     reinitialize Z deployer (tc_name config) (tc_symbol config) (tc_decimals config) deployer transferPolicyId mintPolicyId
       (fresh_token Z code deployer)"

definition fresh_authority :: "'b tokens_lib \<Rightarrow> 'b authority" where
  "fresh_authority Z = \<lparr>ta_base = oz_empty Z, ta_minterAllowances = (\<lambda>_ _. 0), ta_mintTxnLimits = (\<lambda>_. 0),
     ta_tokenHandlers = (\<lambda>_. 0), ta_initialized = 0\<rparr>"

text \<open>The deployer's transactions, in order.\<close>

definition configureRoles :: "address \<Rightarrow> address \<Rightarrow> address \<Rightarrow> HandoverConfig \<Rightarrow> tx list" where
  "configureRoles rl ta sc h =
     [TokenGrantRole rl MINTER_ROLE ta, TokenGrantRole sc MINTER_ROLE ta, TokenGrantRole sc PAUSER_ROLE (ho_pauserAddress h),
      TokenGrantRole sc UNPAUSER_ROLE (ho_unpauserAddress h),
      TokenGrantRole sc BLOCKED_ADDRESS_BURNER_ROLE (ho_blockedAddressBurnerAddress h)]"

definition registerOnAuthority :: "address \<Rightarrow> address \<Rightarrow> address \<Rightarrow> address \<Rightarrow> HandoverConfig \<Rightarrow> tx list" where
  "registerOnAuthority rl handler sc deployer h =
     [TokenGrantRole rl MINTER_ROLE handler, TokenGrantRole sc MINTER_ROLE handler,
      AuthorityGrantRole TOKEN_AUTHORITY_HANDLER_SETTER_ROLE deployer, AuthorityRegister sc handler (ho_txnMintLimit h)]"

definition configureLimits :: "address \<Rightarrow> address \<Rightarrow> HandoverConfig \<Rightarrow> tx list" where
  "configureLimits sc deployer h =
     [AuthorityGrantRole MINT_RATE_LIMIT_SETTER_ROLE deployer,
      AuthoritySetMinterAllowance sc (ho_minterAddress h) (ho_minterAllowance h)]"

definition configureMaxSupply :: "address \<Rightarrow> address \<Rightarrow> HandoverConfig \<Rightarrow> tx list" where
  "configureMaxSupply rl sc h = [TokenSetMaxSupply rl (ho_rlMaxSupply h), TokenSetMaxSupply sc (ho_stablecoinMaxSupply h)]"

definition configure :: "address \<Rightarrow> address \<Rightarrow> address \<Rightarrow> address \<Rightarrow> address \<Rightarrow> HandoverConfig \<Rightarrow> tx list" where
  "configure rl ta handler sc deployer h =
     configureRoles rl ta sc h @ registerOnAuthority rl handler sc deployer h @ configureLimits sc deployer h @
     configureMaxSupply rl sc h"

definition handover :: "address \<Rightarrow> address \<Rightarrow> address \<Rightarrow> HandoverConfig \<Rightarrow> tx list" where
  "handover rl sc deployer h =
     [TokenGrantRole rl DEFAULT_ADMIN_ROLE (ho_rlAdmin h), TokenTransferOwnership rl (ho_rlAdmin h),
      TokenGrantRole sc DEFAULT_ADMIN_ROLE (ho_stablecoinAdmin h), TokenTransferOwnership sc (ho_stablecoinAdmin h),
      AuthorityGrantRole DEFAULT_ADMIN_ROLE (ho_tokenAuthorityAdmin h),
      AuthorityGrantRole MINT_RATE_LIMIT_SETTER_ROLE (ho_tokenAuthorityAdmin h),
      AuthorityGrantRole TOKEN_AUTHORITY_HANDLER_SETTER_ROLE (ho_tokenAuthorityAdmin h)] @
     (if ho_tokenAuthorityAdmin h \<noteq> deployer then
        [AuthorityRenounceRole TOKEN_AUTHORITY_HANDLER_SETTER_ROLE deployer,
         AuthorityRenounceRole MINT_RATE_LIMIT_SETTER_ROLE deployer, AuthorityRenounceRole DEFAULT_ADMIN_ROLE deployer] else []) @
     (if ho_rlAdmin h \<noteq> deployer then [TokenRenounceRole rl DEFAULT_ADMIN_ROLE deployer] else []) @
     (if ho_stablecoinAdmin h \<noteq> deployer then [TokenRenounceRole sc DEFAULT_ADMIN_ROLE deployer] else [])"

text \<open>The demo's configuration: Bank A in every role.\<close>

definition rl_config :: TokenConfig where
  "rl_config = \<lparr>tc_name = ''Reserve Ledger Dollar'', tc_symbol = ''RD'', tc_decimals = 6\<rparr>"

definition sc_config :: TokenConfig where
  "sc_config = \<lparr>tc_name = ''USD Deposit Token'', tc_symbol = ''WFUSD'', tc_decimals = 6\<rparr>"

definition demo_handover :: HandoverConfig where
  "demo_handover = \<lparr>ho_txnMintLimit = BIG, ho_minterAddress = BANK_A, ho_minterAllowance = BIG, ho_rlMaxSupply = BIG,
     ho_stablecoinMaxSupply = BIG, ho_pauserAddress = BANK_A, ho_unpauserAddress = BANK_A,
     ho_blockedAddressBurnerAddress = BANK_A, ho_rlAdmin = BANK_A, ho_stablecoinAdmin = BANK_A,
     ho_tokenAuthorityAdmin = BANK_A\<rparr>"

text \<open>\<open>_configure\<close> and \<open>_handover\<close> of the demo.\<close>

definition configuration :: "address \<Rightarrow> address \<Rightarrow> address \<Rightarrow> address \<Rightarrow> tx list" where
  "configuration rl ta th sc = configure rl ta th sc BANK_A demo_handover @ handover rl sc BANK_A demo_handover"

definition whitelist_infra :: "address \<Rightarrow> address \<Rightarrow> address \<Rightarrow> u64 \<Rightarrow> u64 \<Rightarrow> tx list" where
  "whitelist_infra sc th ta transferPolicyId rlMintPolicyId =
     map (\<lambda>a. RegistryWhitelist transferPolicyId a True) (infra sc th ta) @ [RegistryWhitelist rlMintPolicyId th True]"

fun exec_script :: "'b tokens_lib \<Rightarrow> deployed \<Rightarrow> address \<Rightarrow> tx list \<Rightarrow> 'b chain \<Rightarrow> 'b chain res" where
  "exec_script Z D s [] c = Ok c"
| "exec_script Z D s (t # ts) c = andThen (exec Z D s t c) (exec_script Z D s ts)"

definition demo_deployed :: "address \<Rightarrow> address \<Rightarrow> address \<Rightarrow> deployed" where
  "demo_deployed rl th ta = \<lparr>dy_TokenAuthority = ta, dy_ReserveLedgerToken = rl,
     dy_handler = [th \<mapsto> ReserveLedgerWrappedHandler rl]\<rparr>"

definition deploy_demo :: "'b tokens_lib \<Rightarrow> address \<Rightarrow> address \<Rightarrow> address \<Rightarrow> address \<Rightarrow> ((u64 \<times> u64 \<times> u64) \<times> 'b chain) res" where
  "deploy_demo Z rl sc th ta =
     (case deploy_policies registry_init of
        Inl _ \<Rightarrow> Err ''reverted''
      | Inr ((transferPolicyId, rlMintPolicyId, scMintPolicyId), g) \<Rightarrow>
     andThen (deployProxy Z ReserveLedgerCode rl_config transferPolicyId rlMintPolicyId BANK_A) (\<lambda>tr.
     andThen (deployProxy Z (StablecoinCode rl) sc_config transferPolicyId scMintPolicyId BANK_A) (\<lambda>ts.
     andThen (authority_initialize Z BANK_A (fresh_authority Z)) (\<lambda>au.
     andThen (exec_script Z (demo_deployed rl th ta) BANK_A
        (configuration rl ta th sc @ whitelist_infra sc th ta transferPolicyId rlMintPolicyId)
        \<lparr>ch_registry = g, ch_token = [rl \<mapsto> tr, sc \<mapsto> ts], ch_authority = au\<rparr>) (\<lambda>c.
     Ok ((transferPolicyId, rlMintPolicyId, scMintPolicyId), c))))))"

section \<open>Running the script\<close>

lemma exec_script_append: "exec_script Z D s (ts @ us) c = andThen (exec_script Z D s ts c) (exec_script Z D s us)"
  by (induction ts arbitrary: c) (auto simp: andThen_def split: res.split)

lemma exec_script_then: "exec_script Z D s ts c = Ok d \<Longrightarrow> exec_script Z D s (ts @ us) c = exec_script Z D s us d"
  by (simp add: exec_script_append)

text \<open>The state of the demo's chain by its parts.\<close>

definition demo_chain :: "registry \<Rightarrow> address \<Rightarrow> 'b token \<Rightarrow> address \<Rightarrow> 'b token \<Rightarrow> 'b authority \<Rightarrow> 'b chain" where
  "demo_chain g rl tr sc ts au = \<lparr>ch_registry = g, ch_token = [rl \<mapsto> tr, sc \<mapsto> ts], ch_authority = au\<rparr>"

definition granted :: "'b tokens_lib \<Rightarrow> role_id \<Rightarrow> address \<Rightarrow> 'b token \<Rightarrow> 'b token" where
  "granted Z r x t = t\<lparr>tk_base := oz_grant Z r x (tk_base t)\<rparr>"

lemma granted_simps [simp]:
  "tk_code (granted Z r x t) = tk_code t" "tk_maxSupply (granted Z r x t) = tk_maxSupply t"
  "tk_transferPolicyId (granted Z r x t) = tk_transferPolicyId t"
  "tk_mintRecipientPolicyId (granted Z r x t) = tk_mintRecipientPolicyId t"
  "tk_temporaryUnblock (granted Z r x t) = tk_temporaryUnblock t" "tk_initialized (granted Z r x t) = tk_initialized t"
  by (simp_all add: granted_def)

lemma granted_view:
  assumes "oz_ok Z"
  shows "tview Z (granted Z r x t) = grant_spec r x (tview Z t)"
    and "hasRole Z (granted Z r x t) r' a \<longleftrightarrow> (r' = r \<and> a = x) \<or> hasRole Z t r' a"
  by (auto simp: granted_def hasRole_def oz_views(2) [OF assms] grant_spec_def)

lemma grantRole_Ok: "oz_ok Z \<Longrightarrow> hasRole Z t DEFAULT_ADMIN_ROLE s \<Longrightarrow> x \<noteq> 0 \<Longrightarrow> grantRole Z s r x t = Ok (granted Z r x t)"
  by (simp add: grantRole_def oz_grantRole_iff grantRole_hook_def granted_def)

lemma exec_grant:
  assumes "oz_ok Z" and "x \<noteq> 0" and "rl \<noteq> sc"
  shows "hasRole Z tr DEFAULT_ADMIN_ROLE s \<Longrightarrow>
      exec Z D s (TokenGrantRole rl r x) (demo_chain g rl tr sc ts au) = Ok (demo_chain g rl (granted Z r x tr) sc ts au)"
    and "hasRole Z ts DEFAULT_ADMIN_ROLE s \<Longrightarrow>
      exec Z D s (TokenGrantRole sc r x) (demo_chain g rl tr sc ts au) = Ok (demo_chain g rl tr sc (granted Z r x ts) au)"
  using assms by (auto simp: demo_chain_def on_token_def grantRole_Ok fun_upd_twist)

lemma exec_max:
  assumes "rl \<noteq> sc"
  shows "hasRole Z tr DEFAULT_ADMIN_ROLE s \<Longrightarrow> totalSupply Z tr \<le> n \<Longrightarrow>
      exec Z D s (TokenSetMaxSupply rl n) (demo_chain g rl tr sc ts au) = Ok (demo_chain g rl (tr\<lparr>tk_maxSupply := n\<rparr>) sc ts au)"
    and "hasRole Z ts DEFAULT_ADMIN_ROLE s \<Longrightarrow> totalSupply Z ts \<le> n \<Longrightarrow>
      exec Z D s (TokenSetMaxSupply sc n) (demo_chain g rl tr sc ts au) = Ok (demo_chain g rl tr sc (ts\<lparr>tk_maxSupply := n\<rparr>) au)"
  using assms by (auto simp: demo_chain_def on_token_def setMaxSupply_def onlyRole_def fun_upd_twist)

definition au_granted :: "'b tokens_lib \<Rightarrow> role_id \<Rightarrow> address \<Rightarrow> 'b authority \<Rightarrow> 'b authority" where
  "au_granted Z r x au = au\<lparr>ta_base := oz_grant Z r x (ta_base au)\<rparr>"

definition au_role :: "'b tokens_lib \<Rightarrow> 'b authority \<Rightarrow> role_id \<Rightarrow> address \<Rightarrow> bool" where
  "au_role Z au r a \<longleftrightarrow> a \<in> set (vw_role (oz_state Z (ta_base au)) r)"

lemma au_granted_simps [simp]:
  "ta_minterAllowances (au_granted Z r x au) = ta_minterAllowances au" "ta_mintTxnLimits (au_granted Z r x au) = ta_mintTxnLimits au"
  "ta_tokenHandlers (au_granted Z r x au) = ta_tokenHandlers au" "ta_initialized (au_granted Z r x au) = ta_initialized au"
  by (simp_all add: au_granted_def)

lemma au_granted_role: "oz_ok Z \<Longrightarrow> au_role Z (au_granted Z r x au) r' a \<longleftrightarrow> (r' = r \<and> a = x) \<or> au_role Z au r' a"
  by (auto simp: au_granted_def au_role_def oz_views(2) grant_spec_def)

lemma au_role_upd [simp]:
  "au_role Z (au\<lparr>ta_tokenHandlers := f\<rparr>) r a = au_role Z au r a" "au_role Z (au\<lparr>ta_mintTxnLimits := l\<rparr>) r a = au_role Z au r a"
  "au_role Z (au\<lparr>ta_minterAllowances := m\<rparr>) r a = au_role Z au r a"
  by (simp_all add: au_role_def)

lemma exec_authority:
  shows "au_role Z au DEFAULT_ADMIN_ROLE s \<Longrightarrow>
      exec Z D s (AuthorityGrantRole r x) (demo_chain g rl tr sc ts au) = Ok (demo_chain g rl tr sc ts (au_granted Z r x au))"
    and "au_role Z au TOKEN_AUTHORITY_HANDLER_SETTER_ROLE s \<Longrightarrow> ta_tokenHandlers au a = 0 \<Longrightarrow> a \<noteq> 0 \<Longrightarrow> h \<noteq> 0 \<Longrightarrow>
      n < ABSOLUTE_MAX \<Longrightarrow> dy_handler D h \<noteq> None \<Longrightarrow>
      exec Z D s (AuthorityRegister a h n) (demo_chain g rl tr sc ts au) =
        Ok (demo_chain g rl tr sc ts (au\<lparr>ta_tokenHandlers := (ta_tokenHandlers au)(a := h), ta_mintTxnLimits := (ta_mintTxnLimits au)(a := n)\<rparr>))"
    and "au_role Z au MINT_RATE_LIMIT_SETTER_ROLE s \<Longrightarrow> n < ABSOLUTE_MAX \<Longrightarrow>
      exec Z D s (AuthoritySetMinterAllowance a m n) (demo_chain g rl tr sc ts au) =
        Ok (demo_chain g rl tr sc ts (au\<lparr>ta_minterAllowances := (ta_minterAllowances au)(a := (ta_minterAllowances au a)(m := n))\<rparr>))"
  by (auto simp: au_role_def authority_grantRole_def registerStablecoin_def setMinterAllowance_def authority_onlyRole_def
      authority_hasRole_def on_authority_def demo_chain_def au_granted_def)

text \<open>The handover of one token.\<close>

definition handed :: "address \<Rightarrow> oz_view \<Rightarrow> oz_view" where
  "handed x v = (grant_spec DEFAULT_ADMIN_ROLE x v)\<lparr>vw_owner := x\<rparr>"

lemma transferOwnership_based:
  assumes "oz_ok Z" and "vw_owner (tview Z t) = s" and "x \<noteq> 0"
  obtains t' where "transferOwnership Z s x t = Ok t'" "based Z t ((tview Z t)\<lparr>vw_owner := x\<rparr>) t'"
proof -
  obtain b where "oz_transferOwnership Z s x (tk_base t) = Ok b" "oz_state Z b = (tview Z t)\<lparr>vw_owner := x\<rparr>"
    using oz_transferOwnership_succeeds [OF assms(1)] assms(2,3) ownership_spec_Some(1) by blast
  then show thesis by (intro that [of "t\<lparr>tk_base := b\<rparr>"]) (simp_all add: transferOwnership_def on_base_def based_def)
qed

lemma hand_over_token:
  assumes "oz_ok Z" and "hasRole Z t DEFAULT_ADMIN_ROLE s" and "vw_owner (tview Z t) = s" and "x \<noteq> 0"
  obtains t' where "andThen (grantRole Z s DEFAULT_ADMIN_ROLE x t) (transferOwnership Z s x) = Ok t'"
    "based Z t (handed x (tview Z t)) t'"
proof -
  let ?u = "granted Z DEFAULT_ADMIN_ROLE x t"
  have "vw_owner (tview Z ?u) = s" using assms(3) by (simp add: granted_view(1) [OF assms(1)] grant_spec_def)
  from transferOwnership_based [OF assms(1) this assms(4)] obtain t' where
    t': "transferOwnership Z s x ?u = Ok t'" "based Z ?u ((tview Z ?u)\<lparr>vw_owner := x\<rparr>) t'" .
  have "based Z t (tview Z ?u) ?u" by (simp add: based_def granted_def)
  from based_trans [OF this t'(2)] have "based Z t (handed x (tview Z t)) t'"
    by (simp add: granted_view(1) [OF assms(1)] handed_def)
  with t'(1) grantRole_Ok [OF assms(1,2,4)] show thesis by (intro that [of t']) simp_all
qed

lemma exec_hand_over:
  assumes "rl \<noteq> sc"
  shows "andThen (grantRole Z s DEFAULT_ADMIN_ROLE x tr) (transferOwnership Z s x) = Ok tr' \<Longrightarrow>
      exec_script Z D s (TokenGrantRole rl DEFAULT_ADMIN_ROLE x # TokenTransferOwnership rl x # us) (demo_chain g rl tr sc ts au) =
      exec_script Z D s us (demo_chain g rl tr' sc ts au)"
    and "andThen (grantRole Z s DEFAULT_ADMIN_ROLE x ts) (transferOwnership Z s x) = Ok ts' \<Longrightarrow>
      exec_script Z D s (TokenGrantRole sc DEFAULT_ADMIN_ROLE x # TokenTransferOwnership sc x # us) (demo_chain g rl tr sc ts au) =
      exec_script Z D s us (demo_chain g rl tr sc ts' au)"
  using assms by (auto simp: demo_chain_def on_token_def andThen_Ok_iff fun_upd_twist)

text \<open>Whitelisting as transactions.\<close>

lemma exec_whitelist:
  "exec_script Z D s (map (\<lambda>a. RegistryWhitelist i a True) as) (demo_chain g rl tr sc ts au) =
     (case whitelist_all s i as g of Inl _ \<Rightarrow> Err ''reverted'' | Inr g' \<Rightarrow> Ok (demo_chain g' rl tr sc ts au))"
  by (induction "as" arbitrary: g) (auto simp: on_registry_def demo_chain_def split: sum.split)

text \<open>A token as the deployment leaves it: nothing issued, running, with its code, policies and maximum,
  and initialized for good.\<close>

definition unissued :: "'b tokens_lib \<Rightarrow> 'b token \<Rightarrow> token_code \<Rightarrow> u64 \<Rightarrow> u64 \<Rightarrow> nat \<Rightarrow> bool" where
  "unissued Z t code tp mp m \<longleftrightarrow> tk_code t = code \<and> tk_transferPolicyId t = tp \<and> tk_mintRecipientPolicyId t = mp \<and>
     tk_maxSupply t = m \<and> \<not> tk_temporaryUnblock t \<and> tk_initialized t = 2 \<and> vw_balance (tview Z t) = (\<lambda>_. 0) \<and> vw_supply (tview Z t) = 0 \<and>
     vw_allowance (tview Z t) = (\<lambda>_ _. 0) \<and> \<not> vw_paused (tview Z t)"

lemma handed_unissued:
  assumes "unissued Z t code tp mp m" and "based Z t (handed x (tview Z t)) t'"
  shows "unissued Z t' code tp mp m" and "hasRole Z t r a \<Longrightarrow> hasRole Z t' r a"
  using assms(1) by (auto simp: unissued_def based_simps [OF assms(2)] handed_def grant_spec_def hasRole_def)

lemma unissued_granted: "oz_ok Z \<Longrightarrow> unissued Z (granted Z r x t) code tp mp m \<longleftrightarrow> unissued Z t code tp mp m"
  by (simp add: unissued_def granted_view grant_spec_def)

lemma unissued_max: "unissued Z t code tp mp m \<Longrightarrow> unissued Z (t\<lparr>tk_maxSupply := n\<rparr>) code tp mp n"
  by (simp add: unissued_def)

lemma hasRole_max [simp]: "hasRole Z (t\<lparr>tk_maxSupply := n\<rparr>) r a = hasRole Z t r a"
  by (simp add: hasRole_def)

lemma deployProxy_Ok:
  assumes "oz_ok Z" and "BANK_A \<noteq> 0"
  obtains t where "deployProxy Z code config tp mp BANK_A = Ok t" "unissued Z t code tp mp 0" "hasRole Z t DEFAULT_ADMIN_ROLE BANK_A"
    "vw_owner (tview Z t) = BANK_A"
proof -
  let ?f = "fresh_token Z code BANK_A"
  let ?t = "?f\<lparr>tk_initialized := 2, tk_maxSupply := totalSupply Z (?f\<lparr>tk_initialized := 2\<rparr>), tk_decimals := tc_decimals config, tk_transferPolicyId := tp,
             tk_mintRecipientPolicyId := mp, tk_base := oz_init Z (tc_name config) (tc_symbol config) BANK_A (tk_base ?f)\<rparr>"
  have o: "vw_owner (tview Z ?f) = BANK_A" by (simp add: fresh_token_def oz_views [OF assms(1)])
  have i: "tk_initialized ?f = 1" by (simp add: fresh_token_def)
  have "deployProxy Z code config tp mp BANK_A = Ok (granted Z DEFAULT_ADMIN_ROLE BANK_A ?t)"
    using assms(2) o i by (simp add: deployProxy_def reinitialize_def reinitializer_def onlyOwnerOrAdmin_def initialize_token_def grantRole_hook_def granted_def)
  moreover have "unissued Z ?t code tp mp 0" "vw_owner (tview Z ?t) = BANK_A"
    by (simp_all add: unissued_def fresh_token_def totalSupply_def oz_views [OF assms(1)] empty_view_def)
  ultimately show thesis
    by (intro that [of "granted Z DEFAULT_ADMIN_ROLE BANK_A ?t"])
      (simp_all add: unissued_granted [OF assms(1)] granted_view [OF assms(1)] grant_spec_def)
qed

lemma BANK_A_nonzero: "BANK_A \<noteq> 0"
  by (simp add: BANK_A_def)

text \<open>The authority that the deployment initializes.\<close>

definition initial_authority :: "'b tokens_lib \<Rightarrow> 'b authority" where
  "initial_authority Z = (fresh_authority Z)\<lparr>ta_base := oz_grant Z DEFAULT_ADMIN_ROLE BANK_A (oz_empty Z), ta_initialized := 1\<rparr>"

lemma authority_initialize_Ok: "authority_initialize Z BANK_A (fresh_authority Z) = Ok (initial_authority Z)"
  by (simp add: authority_initialize_def initial_authority_def fresh_authority_def)

text \<open>The configuration and handover never revert.\<close>

lemma configure_Ok:
  assumes "oz_ok Z" and "distinct [0, rl, sc, th, ta, BANK_A]"
    and "unissued Z tr ReserveLedgerCode tp rm 0" and "unissued Z ts (StablecoinCode rl) tp sm 0"
    and "hasRole Z tr DEFAULT_ADMIN_ROLE BANK_A" and "hasRole Z ts DEFAULT_ADMIN_ROLE BANK_A"
    and "vw_owner (tview Z tr) = BANK_A" and "vw_owner (tview Z ts) = BANK_A"
  obtains tr' ts' au where "exec_script Z (demo_deployed rl th ta) BANK_A (configuration rl ta th sc)
       (demo_chain g rl tr sc ts (initial_authority Z)) = Ok (demo_chain g rl tr' sc ts' au)"
    "unissued Z tr' ReserveLedgerCode tp rm BIG" "unissued Z ts' (StablecoinCode rl) tp sm BIG" "hasRole Z tr' MINTER_ROLE th"
    "ta_initialized au = 1" "ta_tokenHandlers au sc = th" "ta_mintTxnLimits au sc = BIG" "ta_minterAllowances au sc BANK_A = BIG"
    "\<And>a. a \<noteq> BANK_A \<Longrightarrow> ta_minterAllowances au sc a = 0"
proof -
  let ?Z = "demo_deployed rl th ta" and ?A = "initial_authority Z" and ?h = demo_handover
  have big: "BIG < ABSOLUTE_MAX" by (simp add: BIG_def ABSOLUTE_MAX_def)
  have au0: "au_role Z ?A DEFAULT_ADMIN_ROLE BANK_A" "ta_initialized ?A = 1" "ta_tokenHandlers ?A = (\<lambda>_. 0)" "ta_minterAllowances ?A = (\<lambda>_ _. 0)"
    by (simp_all add: initial_authority_def fresh_authority_def au_role_def oz_views(2) [OF assms(1)] grant_spec_def)
  have th: "dy_handler ?Z th \<noteq> None" by (simp add: demo_deployed_def)
  have ne: "rl \<noteq> sc" "sc \<noteq> rl" "th \<noteq> 0" "ta \<noteq> 0" "sc \<noteq> 0" "BANK_A \<noteq> 0" using assms(2) by auto
  let ?tr1 = "granted Z MINTER_ROLE th (granted Z MINTER_ROLE ta tr)"
  let ?ts1 = "granted Z MINTER_ROLE th (granted Z BLOCKED_ADDRESS_BURNER_ROLE BANK_A (granted Z UNPAUSER_ROLE BANK_A
      (granted Z PAUSER_ROLE BANK_A (granted Z MINTER_ROLE ta ts))))"
  let ?tr2 = "?tr1\<lparr>tk_maxSupply := BIG\<rparr>" and ?ts2 = "?ts1\<lparr>tk_maxSupply := BIG\<rparr>"
  have 0: "totalSupply Z ?tr1 \<le> BIG" "totalSupply Z ?ts1 \<le> BIG" "vw_owner (tview Z ?tr2) = BANK_A" "vw_owner (tview Z ?ts2) = BANK_A"
    using assms(3,4,7,8) by (simp_all add: totalSupply_def granted_view(1) [OF assms(1)] grant_spec_def unissued_def)
  have adm: "hasRole Z ?tr2 DEFAULT_ADMIN_ROLE BANK_A" "hasRole Z ?ts2 DEFAULT_ADMIN_ROLE BANK_A" "hasRole Z ?tr2 MINTER_ROLE th"
    using assms(5,6) by (simp_all add: granted_view(2) [OF assms(1)])
  have un: "unissued Z ?tr2 ReserveLedgerCode tp rm BIG" "unissued Z ?ts2 (StablecoinCode rl) tp sm BIG"
    by (rule unissued_max, simp add: unissued_granted [OF assms(1)], rule assms(3),
        rule unissued_max, simp add: unissued_granted [OF assms(1)], rule assms(4))
  note run = exec_grant [OF assms(1)] exec_max exec_authority and config = demo_handover_def
  let ?au = "au_granted Z TOKEN_AUTHORITY_HANDLER_SETTER_ROLE BANK_A ?A"
  let ?au1 = "?au\<lparr>ta_tokenHandlers := (ta_tokenHandlers ?au)(sc := th), ta_mintTxnLimits := (ta_mintTxnLimits ?au)(sc := BIG)\<rparr>"
  let ?au2 = "au_granted Z MINT_RATE_LIMIT_SETTER_ROLE BANK_A ?au1"
  let ?au3 = "?au2\<lparr>ta_minterAllowances := (ta_minterAllowances ?au2)(sc := (ta_minterAllowances ?au2 sc)(BANK_A := BIG))\<rparr>"
  have 1: "exec_script Z ?Z BANK_A (configureRoles rl ta sc ?h @ registerOnAuthority rl th sc BANK_A ?h) (demo_chain g rl tr sc ts ?A) =
      Ok (demo_chain g rl ?tr1 sc ?ts1 ?au1)"
    using ne assms(5,6) au0 th big
    by (simp add: configureRoles_def registerOnAuthority_def config run granted_view(2) [OF assms(1)] au_granted_role [OF assms(1)]
        del: exec.simps)
  have 2: "exec_script Z ?Z BANK_A (configureLimits sc BANK_A ?h @ configureMaxSupply rl sc ?h) (demo_chain g rl ?tr1 sc ?ts1 ?au1) =
      Ok (demo_chain g rl ?tr2 sc ?ts2 ?au3)"
    using ne assms(5,6) au0 big 0
    by (simp add: configureLimits_def configureMaxSupply_def config run granted_view(2) [OF assms(1)] au_granted_role [OF assms(1)]
        del: exec.simps)
  obtain tr3 where tr3: "andThen (grantRole Z BANK_A DEFAULT_ADMIN_ROLE BANK_A ?tr2) (transferOwnership Z BANK_A BANK_A) = Ok tr3"
    "based Z ?tr2 (handed BANK_A (tview Z ?tr2)) tr3" using hand_over_token [OF assms(1) adm(1) 0(3) BANK_A_nonzero] .
  obtain ts3 where ts3: "andThen (grantRole Z BANK_A DEFAULT_ADMIN_ROLE BANK_A ?ts2) (transferOwnership Z BANK_A BANK_A) = Ok ts3"
    "based Z ?ts2 (handed BANK_A (tview Z ?ts2)) ts3" using hand_over_token [OF assms(1) adm(2) 0(4) BANK_A_nonzero] .
  obtain au where au: "exec_script Z ?Z BANK_A (handover rl sc BANK_A ?h) (demo_chain g rl ?tr2 sc ?ts2 ?au3) = Ok (demo_chain g rl tr3 sc ts3 au)"
    "ta_initialized au = ta_initialized ?au3" "ta_tokenHandlers au = ta_tokenHandlers ?au3" "ta_mintTxnLimits au = ta_mintTxnLimits ?au3" "ta_minterAllowances au = ta_minterAllowances ?au3"
    using au0 by (simp add: handover_def config exec_hand_over [OF ne(1)] tr3(1) ts3(1) run au_granted_role [OF assms(1)]
        del: exec.simps exec_script.simps(2)) (simp add: run au_granted_role [OF assms(1)] del: exec.simps)
  have script: "configuration rl ta th sc = (configureRoles rl ta sc ?h @ registerOnAuthority rl th sc BANK_A ?h) @
      (configureLimits sc BANK_A ?h @ configureMaxSupply rl sc ?h) @ handover rl sc BANK_A ?h"
    by (simp add: configuration_def configure_def)
  have "exec_script Z ?Z BANK_A (configuration rl ta th sc) (demo_chain g rl tr sc ts ?A) = Ok (demo_chain g rl tr3 sc ts3 au)"
    unfolding script by (simp only: exec_script_then [OF 1] exec_script_then [OF 2] au(1))
  then show thesis
    by (rule that [OF _ handed_unissued(1) [OF un(1) tr3(2)] handed_unissued(1) [OF un(2) ts3(2)]
          handed_unissued(2) [OF un(1) tr3(2) adm(3)]]) (simp_all add: au au0)
qed

section \<open>The deployed chain\<close>

lemma exec_infra:
  assumes "deploy_registry sc th ta registry_init = Inr ((t, r, m), g)" and "deploy_policies registry_init = Inr ((t, r, m), g0)"
  shows "exec_script Z D BANK_A (whitelist_infra sc th ta t r) (demo_chain g0 rl tr a ts au) = Ok (demo_chain g rl tr a ts au)"
proof -
  from assms obtain h where h: "whitelist_all BANK_A t (infra sc th ta) g0 = Inr h" "modifyPolicyWhitelist BANK_A r th True h = Inr g"
    by (auto simp: deploy_registry_def split: sum.splits)
  then show ?thesis
    by (simp add: whitelist_infra_def exec_script_append exec_whitelist) (simp add: demo_chain_def on_registry_def)
qed

text \<open>What the deployment script leaves.\<close>

definition deployed_state :: "'b tokens_lib \<Rightarrow> address \<Rightarrow> address \<Rightarrow> address \<Rightarrow> address \<Rightarrow> registry \<Rightarrow> 'b token \<Rightarrow> 'b token
    \<Rightarrow> 'b authority \<Rightarrow> bool" where
  "deployed_state Z rl sc th ta g tr ts au \<longleftrightarrow>
     reachable g \<and> (\<forall>i \<in> {2, 3, 4}. root_whitelist BANK_A g i) \<and>
     members g 2 = set (infra sc th ta) \<and> members g 3 = {th} \<and> members g 4 = {} \<and>
     unissued Z tr ReserveLedgerCode 2 3 BIG \<and> unissued Z ts (StablecoinCode rl) 2 4 BIG \<and> hasRole Z tr MINTER_ROLE th \<and>
     ta_initialized au = 1 \<and> ta_tokenHandlers au sc = th \<and> ta_mintTxnLimits au sc = BIG \<and> ta_minterAllowances au sc BANK_A = BIG \<and>
     (\<forall>a. a \<noteq> BANK_A \<longrightarrow> ta_minterAllowances au sc a = 0)"

lemma deploy_demo_Ok:
  assumes "oz_ok Z" and "distinct [0, rl, sc, th, ta, BANK_A]"
  obtains g tr ts au where "deploy_demo Z rl sc th ta = Ok ((2, 3, 4), demo_chain g rl tr sc ts au)"
    "deployed_state Z rl sc th ta g tr ts au"
proof -
  obtain g where g: "deploy_registry sc th ta registry_init = Inr ((2, 3, 4), g)" "reachable g"
    "\<forall>i \<in> {2, 3, 4}. root_whitelist BANK_A g i" "members g 2 = set (infra sc th ta)" "members g 3 = {th}" "members g 4 = {}"
    using deploy_registry_fresh by blast
  obtain g0 where g0: "deploy_policies registry_init = Inr ((2, 3, 4), g0)" using deploy_policies_fresh by blast
  obtain tr where tr: "deployProxy Z ReserveLedgerCode rl_config 2 3 BANK_A = Ok tr"
    "unissued Z tr ReserveLedgerCode 2 3 0" "hasRole Z tr DEFAULT_ADMIN_ROLE BANK_A" "vw_owner (tview Z tr) = BANK_A"
    using deployProxy_Ok [OF assms(1) BANK_A_nonzero] .
  obtain ts where ts: "deployProxy Z (StablecoinCode rl) sc_config 2 4 BANK_A = Ok ts"
    "unissued Z ts (StablecoinCode rl) 2 4 0" "hasRole Z ts DEFAULT_ADMIN_ROLE BANK_A" "vw_owner (tview Z ts) = BANK_A"
    using deployProxy_Ok [OF assms(1) BANK_A_nonzero] .
  obtain tr' ts' au where c: "exec_script Z (demo_deployed rl th ta) BANK_A (configuration rl ta th sc)
       (demo_chain g0 rl tr sc ts (initial_authority Z)) = Ok (demo_chain g0 rl tr' sc ts' au)"
    "unissued Z tr' ReserveLedgerCode 2 3 BIG" "unissued Z ts' (StablecoinCode rl) 2 4 BIG" "hasRole Z tr' MINTER_ROLE th"
    "ta_initialized au = 1" "ta_tokenHandlers au sc = th" "ta_mintTxnLimits au sc = BIG" "ta_minterAllowances au sc BANK_A = BIG"
    "\<And>a. a \<noteq> BANK_A \<Longrightarrow> ta_minterAllowances au sc a = 0"
    using configure_Ok [OF assms tr(2) ts(2) tr(3) ts(3) tr(4) ts(4)] by blast
  have start: "\<lparr>ch_registry = g0, ch_token = [rl \<mapsto> tr, sc \<mapsto> ts], ch_authority = initial_authority Z\<rparr> =
      demo_chain g0 rl tr sc ts (initial_authority Z)" by (simp add: demo_chain_def)
  have "deploy_demo Z rl sc th ta = Ok ((2, 3, 4), demo_chain g rl tr' sc ts' au)"
    unfolding deploy_demo_def g0 sum.case prod.case tr(1) ts(1) authority_initialize_Ok andThen_simps start exec_script_then [OF c(1)]
      exec_infra [OF g(1) g0] by (rule refl)
  moreover have "deployed_state Z rl sc th ta g tr' ts' au"
    unfolding deployed_state_def using g(2-6) c(2-9) by (intro conjI allI impI) assumption+
  ultimately show thesis by (rule that)
qed

section \<open>Runs\<close>

text \<open>Transactions mined one after the other; a reverted one changes nothing.\<close>

fun run_all :: "'b tokens_lib \<Rightarrow> deployed \<Rightarrow> (address \<times> tx) list \<Rightarrow> 'b chain \<Rightarrow> 'b chain" where
  "run_all Z D [] c = c"
| "run_all Z D ((s, t) # ts) c = run_all Z D ts (case exec Z D s t c of Err _ \<Rightarrow> c | Ok c' \<Rightarrow> c')"

text \<open>Transactions that respect the collateral: none mints the deposit token directly, seizes the
  ledger tokens it holds, permits somebody to spend them or upgrades one of the two tokens, and the deposit
  token itself sends none.\<close>

definition honours :: "address \<Rightarrow> address \<Rightarrow> address \<times> tx \<Rightarrow> bool" where
  "honours rl sc p \<longleftrightarrow> fst p \<noteq> sc \<and> (\<forall>to n. snd p \<noteq> TokenMint sc to n) \<and> \<not> undermines rl sc (snd p)"

lemma mints_directly_wrapped:
  "(\<And>h. dy_handler D h \<noteq> Some SingleTokenHandler) \<Longrightarrow> mints_directly D c sc t \<Longrightarrow> \<exists>to n. t = TokenMint sc to n"
  by (cases t) auto

lemma run_keeps_backed:
  assumes "oz_ok Z" and "separate D sc" and "\<And>h. dy_handler D h \<noteq> Some SingleTokenHandler"
    and "list_all (honours rl sc) txs" and "backed Z rl sc 0 c"
  shows "backed Z rl sc 0 (run_all Z D txs c)"
  using assms(4,5)
proof (induction txs arbitrary: c)
  case (Cons p txs)
  obtain s t where p: "p = (s, t)" by (cases p)
  have ok: "s \<noteq> sc" "\<not> mints_directly D c sc t" "\<not> undermines rl sc t"
    using Cons.prems(1) mints_directly_wrapped [OF assms(3), of c sc t] p by (auto simp: honours_def)
  have "backed Z rl sc 0 c'" if "exec Z D s t c = Ok c'" for c'
    using exec_keeps_backed [OF assms(1,2) ok(1) Cons.prems(2) that _ ok(3)] ok(2) by blast
  with Cons p show ?case by (auto split: res.split)
qed simp

lemma deployed_backed:
  assumes "deployed_state Z rl sc th ta g tr ts au" and "rl \<noteq> sc" and "sc \<noteq> 0"
  shows "backed Z rl sc 0 (demo_chain g rl tr sc ts au)"
  using assms by (simp add: backed_def demo_chain_def deployed_state_def unissued_def totalSupply_def balanceOf_def consistent_def)

lemma demo_separate: "distinct [0, rl, sc, th, ta, BANK_A] \<Longrightarrow> separate (demo_deployed rl th ta) sc"
  "dy_handler (demo_deployed rl th ta) h \<noteq> Some SingleTokenHandler"
  by (auto simp: separate_def demo_deployed_def)

text \<open>
  C9. The deposit token stays backed: after the deployment, whatever transactions are sent by
  whatever accounts in whatever order, the reserve ledger holds at the deposit token's address at
  least the deposit token's supply, and the balances of the deposit token add up to that supply,
  as long as nobody mints the deposit token directly, seizes the collateral as a blocked balance,
  presents a permit in the deposit token's name (it has no key to sign one) or upgrades either token,
  and the deposit token, a contract, sends no transaction itself.
\<close>

theorem deposit_token_stays_backed:
  assumes "oz_ok Z" and "distinct [0, rl, sc, th, ta, BANK_A]" and "deploy_demo Z rl sc th ta = Ok (ids, c)"
    and "list_all (honours rl sc) txs"
  shows "\<exists>tr ts. ch_token (run_all Z (demo_deployed rl th ta) txs c) rl = Some tr \<and>
           ch_token (run_all Z (demo_deployed rl th ta) txs c) sc = Some ts \<and>
           totalSupply Z ts \<le> balanceOf Z tr sc \<and> (\<Sum>a \<in> UNIV. balanceOf Z ts a) = totalSupply Z ts"
proof -
  obtain g tr ts au where d: "deploy_demo Z rl sc th ta = Ok ((2, 3, 4), demo_chain g rl tr sc ts au)"
    "deployed_state Z rl sc th ta g tr ts au"
    using deploy_demo_Ok [OF assms(1,2)] .
  have "rl \<noteq> sc" "sc \<noteq> 0" using assms(2) by auto
  from deployed_backed [OF d(2) this] d(1) assms(3) have "backed Z rl sc 0 c" by simp
  from run_keeps_backed [OF assms(1) demo_separate(1) [OF assms(2)] demo_separate(2) assms(4) this]
  show ?thesis by (auto simp: backed_def consistent_def balanceOf_def totalSupply_def)
qed

text \<open>Bank A's transfer after a mint that reverts, on the chain deployed with the sample contracts.\<close>

theorem deposit_token_stays_backed_witness:
  "\<exists>ids c tr ts. deploy_demo sample_oz 1 2 3 4 = Ok (ids, c) \<and>
     ch_token (run_all sample_oz (demo_deployed 1 3 4) [(BANK_A, AuthorityMint 2 5 10), (BANK_A, TokenTransfer 2 5 1)] c) 1 = Some tr \<and>
     ch_token (run_all sample_oz (demo_deployed 1 3 4) [(BANK_A, AuthorityMint 2 5 10), (BANK_A, TokenTransfer 2 5 1)] c) 2 = Some ts \<and>
     totalSupply sample_oz ts \<le> balanceOf sample_oz tr 2 \<and> (\<Sum>a \<in> UNIV. balanceOf sample_oz ts a) = totalSupply sample_oz ts"
proof -
  have d: "distinct [0, 1, 2, 3, 4, BANK_A]" by (simp add: BANK_A_def)
  obtain ids c where c: "deploy_demo sample_oz 1 2 3 4 = Ok (ids, c)" using deploy_demo_Ok [OF sample_oz_ok d] by metis
  have h: "list_all (honours 1 2) [(BANK_A, AuthorityMint 2 5 10), (BANK_A, TokenTransfer 2 5 1)]"
    by (simp add: honours_def BANK_A_def)
  from deposit_token_stays_backed [OF sample_oz_ok d c h] c show ?thesis by blast
qed

section \<open>The issuer's mint\<close>

text \<open>When a mint goes through, and what it does.\<close>

lemma issuance_is_exact_lemma:
  assumes "oz_ok Z" and "dy_handler D h = Some (ReserveLedgerWrappedHandler rl)" and "ta_tokenHandlers (ch_authority c) sc = h"
    and "ch_token c rl = Some tr" and "tk_code tr = ReserveLedgerCode" and "\<not> tk_temporaryUnblock tr"
    and "ch_token c sc = Some ts" and "tk_code ts = StablecoinCode rl" and "\<not> tk_temporaryUnblock ts"
    and "distinct [0, rl, sc, h]"
  shows "case exec Z D s (AuthorityMint sc to n) c of
           Err _ \<Rightarrow> \<not> mint_allowed Z c s rl sc to n
         | Ok c' \<Rightarrow> mint_allowed Z c s rl sc to n \<and>
             (\<exists>tr' ts'. c' = c\<lparr>ch_token := (ch_token c)(rl \<mapsto> tr', sc \<mapsto> ts'),
                              ch_authority := lower_allowance sc s n (ch_authority c)\<rparr> \<and>
                based Z tr (collateralized h sc n (tview Z tr)) tr' \<and> based Z ts (minted to n (tview Z ts)) ts')"
proof -
  let ?d = "on_authority c (lower_allowance sc s n)"
  have d: "ch_token ?d = ch_token c" "ch_registry ?d = ch_registry c" by simp_all
  have ne: "rl \<noteq> sc" "h \<noteq> 0" "sc \<noteq> 0" "h \<noteq> sc" using assms(10) by auto
  have ex: "exec Z D s (AuthorityMint sc to n) c = authority_mint Z D c s sc to n" by simp
  have needs: "mint_allowed Z c s rl sc to n" if "authority_mint Z D c s sc to n = Ok c'" for c'
  proof -
    from that assms(3) have m: "0 < n \<and> n \<le> ta_minterAllowances (ch_authority c) sc s \<and> n \<le> ta_mintTxnLimits (ch_authority c) sc \<and> n \<le> ABSOLUTE_MAX"
      "handler_mint Z D ?d h (dy_TokenAuthority D) sc to n = Ok c'" by (simp_all add: authority_mint_iff)
    from handler_mint_needs [OF assms(1,2) _ _ ne(1) assms(5,8,6,9) m(2)] assms(4,7) m(1) d assms(3)
    show ?thesis by (simp add: mint_allowed_def)
  qed
  show ?thesis
  proof (cases "mint_allowed Z c s rl sc to n")
    case True
    then have ok: "0 < n" "to \<noteq> 0" "n \<le> ta_minterAllowances (ch_authority c) sc s" "n \<le> ta_mintTxnLimits (ch_authority c) sc"
      "n \<le> ABSOLUTE_MAX" "ledger_ready Z (ch_registry ?d) tr h sc n" "deposit_ready Z (ch_registry ?d) ts rl to n"
      using assms(3,4,7) by (simp_all add: mint_allowed_def)
    have n: "n < 2 ^ 256 - 1" using ok(5) by (simp add: ABSOLUTE_MAX_def)
    obtain tr' ts' where m: "handler_mint Z D ?d h (dy_TokenAuthority D) sc to n = Ok (?d\<lparr>ch_token := (ch_token ?d)(rl \<mapsto> tr', sc \<mapsto> ts')\<rparr>)"
      "based Z tr (collateralized h sc n (tview Z tr)) tr'" "based Z ts (minted to n (tview Z ts)) ts'"
      using handler_mint_effect [OF assms(1,2) _ _ ne(1) ok(6,7) ne(2,3,4) ok(2,1) n] assms(4,7) d by metis
    have "?d\<lparr>ch_token := (ch_token ?d)(rl \<mapsto> tr', sc \<mapsto> ts')\<rparr> =
        c\<lparr>ch_token := (ch_token c)(rl \<mapsto> tr', sc \<mapsto> ts'), ch_authority := lower_allowance sc s n (ch_authority c)\<rparr>"
      by (simp add: on_authority_def)
    with m ok ne(2) assms(3) have "authority_mint Z D c s sc to n =
        Ok (c\<lparr>ch_token := (ch_token c)(rl \<mapsto> tr', sc \<mapsto> ts'), ch_authority := lower_allowance sc s n (ch_authority c)\<rparr>)"
      by (simp add: authority_mint_iff)
    with True m(2,3) show ?thesis unfolding ex by auto
  next
    case False
    with needs show ?thesis unfolding ex by (cases "authority_mint Z D c s sc to n") auto
  qed
qed

end
