(* ===== verification/Authorized_Moves.thy ===== *)
theory Authorized_Moves
  imports Backing
begin

text \<open>
  What a transaction that is no administration can do to the tokens. The locale \<open>token_steps\<close> is the
  interface between one token and the calls across contracts: a relation on the states of a token
  that holds for the moves and allowances holds, token by token, between the chain before
  and after any of the calls. It is interpreted with the relation that lets balances change only for
  accounts the transfer policy authorizes.
\<close>

section \<open>The chain, token by token\<close>

definition chain_rel :: "(registry \<Rightarrow> 'b token \<Rightarrow> 'b token \<Rightarrow> bool) \<Rightarrow> 'b chain \<Rightarrow> 'b chain \<Rightarrow> bool" where
  "chain_rel step c c' \<longleftrightarrow> ch_registry c' = ch_registry c \<and>
     ta_initialized (ch_authority c') = ta_initialized (ch_authority c) \<and>
     (\<forall>a. case ch_token c a of None \<Rightarrow> ch_token c' a = None
          | Some t \<Rightarrow> \<exists>t'. ch_token c' a = Some t' \<and> step (ch_registry c) t t')"

lemma chain_relD:
  assumes "chain_rel step c c'" and "ch_token c a = Some t"
  obtains t' where "ch_token c' a = Some t'" "step (ch_registry c) t t'"
proof -
  from assms(1) have "case ch_token c a of None \<Rightarrow> ch_token c' a = None
      | Some t \<Rightarrow> \<exists>t'. ch_token c' a = Some t' \<and> step (ch_registry c) t t'" unfolding chain_rel_def by blast
  with assms(2) that show thesis by auto
qed

lemma chain_rel_tokens:
  "ch_registry c = ch_registry d \<Longrightarrow> ta_initialized (ch_authority c) = ta_initialized (ch_authority d) \<Longrightarrow>
   ch_token c = ch_token d \<Longrightarrow> chain_rel step c c' = chain_rel step d c'"
  by (simp add: chain_rel_def cong: option.case_cong)

locale token_steps =
  fixes Z :: "'b tokens_lib" and step :: "registry \<Rightarrow> 'b token \<Rightarrow> 'b token \<Rightarrow> bool"
  assumes step_refl: "step g t t"
    and step_trans: "step g t u \<Longrightarrow> step g u v \<Longrightarrow> step g t v"
    and step_mint: "oz_mint Z (token_update Z g) to n t = Ok t' \<Longrightarrow> step g t t'"
    and step_burn: "oz_burn Z (token_update Z g) from n t = Ok t' \<Longrightarrow> step g t t'"
    and step_transfer: "transfer Z g s to n t = Ok t' \<Longrightarrow> step g t t'"
    and step_transferFrom: "transferFrom Z g s from to n t = Ok t' \<Longrightarrow> step g t t'"
    and step_approve: "approve Z owner sp n t = Ok t' \<Longrightarrow> step g t t'"
    and step_permit: "permit Z owner sp n deadline sig t = Ok t' \<Longrightarrow> step g t t'"
    and step_migrate: "step g t (t\<lparr>tk_migrationToWrappedCompleted := b\<rparr>)"
begin

lemma chain_refl: "chain_rel step c c"
  by (simp add: chain_rel_def step_refl split: option.split)

lemma chain_trans:
  assumes "chain_rel step c d" and "chain_rel step d e"
  shows "chain_rel step c e"
proof -
  have g: "ch_registry d = ch_registry c" using assms(1) by (simp add: chain_rel_def)
  have "\<exists>t'. ch_token e a = Some t' \<and> step (ch_registry c) t t'" if t: "ch_token c a = Some t" for a t
  proof -
    obtain u where u: "ch_token d a = Some u" "step (ch_registry c) t u" using chain_relD [OF assms(1) t] .
    obtain v where "ch_token e a = Some v" "step (ch_registry d) u v" using chain_relD [OF assms(2) u(1)] .
    with u(2) g show ?thesis using step_trans by auto
  qed
  moreover have "ch_token e a = None" if "ch_token c a = None" for a
  proof -
    from assms(1) that have "ch_token d a = None" unfolding chain_rel_def by (auto dest!: spec [of _ a])
    with assms(2) show ?thesis unfolding chain_rel_def by (auto dest!: spec [of _ a])
  qed
  moreover have "ch_registry e = ch_registry c" "ta_initialized (ch_authority e) = ta_initialized (ch_authority c)"
    using assms g by (simp_all add: chain_rel_def)
  ultimately show ?thesis by (auto simp: chain_rel_def split: option.split)
qed

lemma chain_on_token:
  assumes "on_token c a f = Ok c'" and "\<And>t t'. f t = Ok t' \<Longrightarrow> step (ch_registry c) t t'"
  shows "chain_rel step c c'"
  using assms by (auto simp: on_token_def chain_rel_def andThen_Ok_iff step_refl split: option.splits)

lemma chain_authority:
  "ta_initialized (f (ch_authority c)) = ta_initialized (ch_authority c) \<Longrightarrow> chain_rel step (on_authority c f) c' = chain_rel step c c'"
  by (rule chain_rel_tokens) (simp_all add: on_authority_def)

text \<open>The calls of one token.\<close>

lemma call_steps:
  shows "call_transfer Z c a s to n = Ok c' \<Longrightarrow> chain_rel step c c'"
    and "call_transferFrom Z c a s from to n = Ok c' \<Longrightarrow> chain_rel step c c'"
    and "call_approve Z c a s sp n = Ok c' \<Longrightarrow> chain_rel step c c'"
    and "call_mint Z c a s to n = Ok c' \<Longrightarrow> chain_rel step c c'"
    and "call_burn Z c a s n = Ok c' \<Longrightarrow> chain_rel step c c'"
  unfolding call_transfer_def call_transferFrom_def call_approve_def call_mint_def call_burn_def
  by (erule chain_on_token, auto simp: ledger_mint_def stablecoin_mint_def ledger_burn_def stablecoin_burn_def
        onlyRole_iff andThen_Ok_iff split: token_code.splits
      intro: step_transfer step_transferFrom step_approve step_mint step_burn)+

text \<open>The calls across contracts.\<close>

lemma wrap_steps: "wrap Z c this s to n = Ok c' \<Longrightarrow> chain_rel step c c'"
  by (auto simp: wrap_def on_stablecoin_def andThen_Ok_iff split: option.splits token_code.splits
      intro: chain_trans [OF call_steps(2) chain_on_token] step_mint)

lemma unwrap_steps: "unwrap Z c this s n = Ok c' \<Longrightarrow> chain_rel step c c'"
  by (auto simp: unwrap_def on_stablecoin_def onlyRole_iff andThen_Ok_iff split: option.splits token_code.splits
      intro: chain_trans [OF chain_on_token call_steps(1)] step_burn)

lemma migrate_steps: "completeMigrationToWrapped Z c this s = Ok c' \<Longrightarrow> chain_rel step c c'"
  by (auto simp: completeMigrationToWrapped_def on_stablecoin_def onlyRole_iff split: option.splits token_code.splits
      intro: chain_on_token step_migrate)

lemma handler_mint_steps: "handler_mint Z D c this s sc to n = Ok c' \<Longrightarrow> chain_rel step c c'"
  by (auto simp: handler_mint_def onlyTokenAuthority_def andThen_Ok_iff split: option.splits handler_code.splits
      intro: call_steps(4) chain_trans [OF call_steps(4) chain_trans [OF call_steps(3) wrap_steps]])

lemma handler_burn_steps: "handler_burn Z D c this s sc n = Ok c' \<Longrightarrow> chain_rel step c c'"
  by (auto simp: handler_burn_def onlyTokenAuthority_def andThen_Ok_iff split: option.splits handler_code.splits
      intro: chain_trans [OF call_steps(2) call_steps(5)] chain_trans [OF call_steps(2) chain_trans [OF unwrap_steps call_steps(5)]])

lemma handler_wrap_steps: "handler_wrap Z D c this s sc to n = Ok c' \<Longrightarrow> chain_rel step c c'"
  by (auto simp: handler_wrap_def onlyTokenAuthority_def andThen_Ok_iff split: option.splits handler_code.splits
      intro: chain_trans [OF call_steps(2) chain_trans [OF call_steps(3) wrap_steps]])

lemma handler_unwrap_steps: "handler_unwrap Z D c this s sc to n = Ok c' \<Longrightarrow> chain_rel step c c'"
  by (auto simp: handler_unwrap_def onlyTokenAuthority_def andThen_Ok_iff split: option.splits handler_code.splits
      intro: chain_trans [OF call_steps(2) chain_trans [OF unwrap_steps call_steps(1)]])

lemma authority_steps:
  shows "authority_mint Z D c s sc to n = Ok c' \<Longrightarrow> chain_rel step c c'"
    and "mintBridgeEcosystem Z D c s sc to n = Ok c' \<Longrightarrow> chain_rel step c c'"
    and "authority_burn Z D c s sc n = Ok c' \<Longrightarrow> chain_rel step c c'"
    and "authority_unwrap Z D c s sc n = Ok c' \<Longrightarrow> chain_rel step c c'"
    and "authority_wrap Z D c s sc to n = Ok c' \<Longrightarrow> chain_rel step c c'"
proof -
  have m: "authority_internal_mint Z D d sc to n = Ok c' \<Longrightarrow> chain_rel step d c'" for d
    by (auto simp: authority_internal_mint_def Let_def intro: handler_mint_steps)
  show "authority_mint Z D c s sc to n = Ok c' \<Longrightarrow> chain_rel step c c'"
    by (auto simp: authority_mint_def Let_def chain_authority dest!: m)
  show "mintBridgeEcosystem Z D c s sc to n = Ok c' \<Longrightarrow> chain_rel step c c'"
    by (auto simp: mintBridgeEcosystem_def authority_onlyRole_def dest!: m)
  show "authority_burn Z D c s sc n = Ok c' \<Longrightarrow> chain_rel step c c'"
    by (auto simp: authority_burn_def authority_onlyRole_def Let_def andThen_Ok_iff
        intro: chain_trans [OF call_steps(2) chain_trans [OF call_steps(3) handler_burn_steps]])
  show "authority_unwrap Z D c s sc n = Ok c' \<Longrightarrow> chain_rel step c c'"
    by (auto simp: authority_unwrap_def authority_onlyRole_def Let_def andThen_Ok_iff
        intro: chain_trans [OF call_steps(2) chain_trans [OF call_steps(3) handler_unwrap_steps]])
  show "authority_wrap Z D c s sc to n = Ok c' \<Longrightarrow> chain_rel step c c'"
    by (auto simp: authority_wrap_def Let_def andThen_Ok_iff
        intro: chain_trans [OF call_steps(2) chain_trans [OF call_steps(3) handler_wrap_steps]])
qed

lemma permit_steps: "on_token c a (permit Z owner sp n deadline sig) = Ok c' \<Longrightarrow> chain_rel step c c'"
  by (blast intro: chain_on_token step_permit)

text \<open>The transactions that are none of administration, of an authority's or a registry's setting, or the
  seizure of a blocked balance.\<close>

lemma exec_steps:
  assumes "\<not> administers t" and "\<not> sets_state t" and "\<And>a x. t \<noteq> TokenBurnFromBlocked a x"
    and "exec Z D s t c = Ok c'"
  shows "chain_rel step c c'"
  using assms by (cases t) (auto dest: call_steps wrap_steps unwrap_steps migrate_steps authority_steps permit_steps)

end

section \<open>Authorized moves\<close>

text \<open>The configuration of the token is kept, and a balance changes only for an account that the
  transfer policy lets through, and only while the token runs.\<close>

definition moves_authorized :: "'b tokens_lib \<Rightarrow> registry \<Rightarrow> 'b token \<Rightarrow> 'b token \<Rightarrow> bool" where
  "moves_authorized Z g t t' \<longleftrightarrow>
     tk_code t' = tk_code t \<and> tk_maxSupply t' = tk_maxSupply t \<and> tk_transferPolicyId t' = tk_transferPolicyId t \<and>
     tk_mintRecipientPolicyId t' = tk_mintRecipientPolicyId t \<and> tk_temporaryUnblock t' = tk_temporaryUnblock t \<and>
     tk_initialized t' = tk_initialized t \<and>
     vw_role (tview Z t') = vw_role (tview Z t) \<and> vw_owner (tview Z t') = vw_owner (tview Z t) \<and>
     vw_paused (tview Z t') = vw_paused (tview Z t) \<and>
     (\<forall>a. balanceOf Z t' a \<noteq> balanceOf Z t a \<longrightarrow> passes g t a \<and> \<not> vw_paused (tview Z t))"

lemma moves_trans: "moves_authorized Z g t u \<Longrightarrow> moves_authorized Z g u v \<Longrightarrow> moves_authorized Z g t v"
  unfolding moves_authorized_def passes_def by (intro conjI allI impI; (elim conjE; metis))

lemma update_moves:
  assumes "oz_ok Z" and "token_update Z g from to n t = Ok t'"
  shows "moves_authorized Z g t t'"
proof -
  note u = token_update_Ok [OF assms]
  from u(2) have v: "tview Z t' = (tview Z t)\<lparr>vw_balance := credit to n (debit from n (vw_balance (tview Z t))),
      vw_supply := (vw_supply (tview Z t) + (if from = 0 then n else 0)) - (if to = 0 then n else 0)\<rparr>" by (simp add: update_spec_Some)
  have "passes g t a" if "balanceOf Z t' a \<noteq> balanceOf Z t a" for a
    using that u(3,4) by (auto simp: balanceOf_def v credit_def debit_def split: if_splits)
  moreover have "t' = t\<lparr>tk_base := tk_base t'\<rparr>" by (fact u(1))
  ultimately show ?thesis using u(5) v by (cases t; cases t') (simp add: moves_authorized_def)
qed

lemma allowance_moves:
  assumes "oz_ok Z"
  shows "approve Z owner sp n t = Ok t' \<Longrightarrow> moves_authorized Z g t t'"
    and "spendAllowance Z owner sp n t = Ok t' \<Longrightarrow> moves_authorized Z g t t'"
    and "permit Z owner sp n deadline sig t = Ok t' \<Longrightarrow> moves_authorized Z g t t'"
  by (auto simp: approve_def spendAllowance_def permit_def on_base_iff moves_authorized_def balanceOf_def approve_spec_Some
      dest!: oz_approve_Ok [OF assms] oz_spend_Ok [OF assms] oz_permit_Ok [OF assms] spend_spec_Some(2))

lemma call_moves:
  assumes "oz_ok Z"
  shows "oz_mint Z (token_update Z g) to n t = Ok t' \<Longrightarrow> moves_authorized Z g t t'"
    and "oz_burn Z (token_update Z g) from n t = Ok t' \<Longrightarrow> moves_authorized Z g t t'"
    and "transfer Z g s to n t = Ok t' \<Longrightarrow> moves_authorized Z g t t'"
    and "transferFrom Z g s from to n t = Ok t' \<Longrightarrow> moves_authorized Z g t t'"
  using update_moves [OF assms] moves_trans [OF allowance_moves(2) [OF assms] update_moves [OF assms]]
  by (auto simp: oz_mint_iff [OF assms] oz_burn_iff [OF assms] transfer_def oz_transfer_iff [OF assms]
      transferFrom_def oz_transferFrom_iff [OF assms] andThen_Ok_iff)

lemma moves_refl: "moves_authorized Z g t t" "moves_authorized Z g t (t\<lparr>tk_migrationToWrappedCompleted := b\<rparr>)"
  by (simp_all add: moves_authorized_def balanceOf_def)

interpretation authorized: token_steps Z "\<lambda>g t t'. oz_ok Z \<longrightarrow> moves_authorized Z g t t'" for Z :: "'b tokens_lib"
  by unfold_locales (blast intro: moves_refl moves_trans call_moves allowance_moves)+

text \<open>None of these calls initializes a token.\<close>

lemma moves_version: "moves_authorized Z g t t' \<Longrightarrow> tk_initialized t' = tk_initialized t"
  by (simp add: moves_authorized_def)

interpretation versions: token_steps Z "\<lambda>g t t'. oz_ok Z \<longrightarrow> tk_initialized t' = tk_initialized t" for Z :: "'b tokens_lib"
  by unfold_locales (auto dest: call_moves allowance_moves moves_version)

text \<open>Administration changes no balance.\<close>

lemma exec_administers_balance:
  assumes "oz_ok Z" and "administers t" and "exec Z D s t c = Ok c'" and "ch_token c x = Some u"
  obtains u' where "ch_token c' x = Some u'" "balanceOf Z u' = balanceOf Z u"
proof -
  obtain a f where f: "on_token c a f = Ok c'" "\<And>u u'. f u = Ok u' \<Longrightarrow> vw_balance (tview Z u') = vw_balance (tview Z u)"
    using administers_on_token [OF assms(1-3)] unfolding admin_change_def by metis
  with assms(4) that show thesis
    by (cases "x = a") (auto simp: on_token_def andThen_Ok_iff balanceOf_def fun_eq_iff split: option.splits)
qed

text \<open>No transaction lowers the version of an initializer, of a token or of the authority.\<close>

definition version_kept :: "'b chain \<Rightarrow> 'b chain \<Rightarrow> bool" where
  "version_kept c c' \<longleftrightarrow> ta_initialized (ch_authority c) \<le> ta_initialized (ch_authority c') \<and>
     (\<forall>x u. ch_token c x = Some u \<longrightarrow> (\<exists>u'. ch_token c' x = Some u' \<and> tk_initialized u \<le> tk_initialized u'))"

lemma version_kept_rel:
  assumes "oz_ok Z" and "chain_rel (\<lambda>g t t'. oz_ok Z \<longrightarrow> tk_initialized t' = tk_initialized t) c c'"
  shows "version_kept c c'"
proof -
  have "ta_initialized (ch_authority c') = ta_initialized (ch_authority c)" using assms(2) by (simp add: chain_rel_def)
  then show ?thesis using chain_relD [OF assms(2)] assms(1) unfolding version_kept_def by (metis le_refl)
qed

lemma exec_sets_version:
  "exec Z D s t c = Ok c' \<Longrightarrow> sets_state t \<Longrightarrow> ta_initialized (ch_authority c) \<le> ta_initialized (ch_authority c')"
  by (cases t) (auto simp: setTxnMintLimit_def setMinterAllowance_def setTokenHandler_def registerStablecoin_def
      unregisterStablecoin_def authority_grantRole_def authority_revokeRole_def authority_renounceRole_def authority_onlyRole_def on_registry_def
      authority_upgradeTo_def authority_authorizeUpgrade_def authority_initialize_def andThen_Ok_iff on_authority_def split: sum.splits)

lemma seizure_versions:
  assumes "oz_ok Z" and "call_burnFromBlockedAddress Z c a s x = Ok c'"
  shows "chain_rel (\<lambda>g t t'. oz_ok Z \<longrightarrow> tk_initialized t' = tk_initialized t) c c'"
proof -
  have burn: "oz_burn Z (token_update Z g) x n (t\<lparr>tk_temporaryUnblock := True\<rparr>) = Ok t' \<Longrightarrow> tk_initialized t' = tk_initialized t" for g n t t'
    using versions.step_burn assms(1) by fastforce
  from assms(2) obtain t where t: "ch_token c a = Some t" by (auto simp: call_burnFromBlockedAddress_def split: option.splits)
  show ?thesis
  proof (cases "tk_code t")
    case ReserveLedgerCode
    with assms(2) t have "on_token c a (ledger_burnFromBlockedAddress Z (ch_registry c) s x) = Ok c'"
      by (simp add: call_burnFromBlockedAddress_def)
    then show ?thesis
      by (rule versions.chain_on_token) (auto simp: ledger_burnFromBlockedAddress_def onlyRole_iff andThen_Ok_iff dest!: burn)
  next
    case (StablecoinCode rl)
    with assms(2) t obtain d e where
      "on_token c a (\<lambda>t'. oz_burn Z (token_update Z (ch_registry c)) x (balanceOf Z t x) (t'\<lparr>tk_temporaryUnblock := True\<rparr>)) = Ok d"
      "call_transfer Z d rl a s (balanceOf Z t x) = Ok e" "on_token e a (\<lambda>t. Ok (t\<lparr>tk_temporaryUnblock := False\<rparr>)) = Ok c'"
      by (auto simp: call_burnFromBlockedAddress_def stablecoin_burnFromBlockedAddress_def on_stablecoin_def onlyRole_iff
          Let_def andThen_Ok_iff)
    then show ?thesis
      by (intro versions.chain_trans [OF versions.chain_on_token versions.chain_trans [OF versions.call_steps(1)
            versions.chain_on_token]]) (auto dest!: burn)
  qed
qed

lemma exec_version_kept:
  assumes "oz_ok Z" and "exec Z D s t c = Ok c'"
  shows "version_kept c c'"
proof -
  consider "sets_state t" | "administers t" | a x where "t = TokenBurnFromBlocked a x"
    | "\<not> sets_state t" "\<not> administers t" "\<And>a x. t \<noteq> TokenBurnFromBlocked a x" by blast
  then show ?thesis
  proof cases
    case 1
    with exec_sets_state [OF assms(2)] exec_sets_version [OF assms(2)] show ?thesis by (simp add: version_kept_def)
  next
    case 2
    obtain a f where "on_token c a f = Ok c'" "\<And>u u'. f u = Ok u' \<Longrightarrow> admin_change Z u u'"
      using administers_on_token [OF assms(1) 2 assms(2)] by metis
    then show ?thesis by (auto simp: version_kept_def on_token_def andThen_Ok_iff admin_change_def split: option.splits)
  next
    case 3
    with version_kept_rel [OF assms(1) seizure_versions [OF assms(1)]] assms(2) show ?thesis by simp
  next
    case 4
    from version_kept_rel [OF assms(1) versions.exec_steps [OF 4(2,1,3) assms(2)]] show ?thesis .
  qed
qed

text \<open>
  C11. Tokens move only between authorized accounts: whatever transaction succeeds, other than the
  seizure of a blocked balance, a balance it changes belongs to an account that the token's transfer
  policy authorizes in the registry, and the token was not paused; and what is no administration
  leaves the token's policies, maximum, roles and owner as they were.
\<close>

theorem only_authorized_accounts_move:
  assumes "oz_ok Z" and "exec Z D s t c = Ok c'" and "\<And>a x. t \<noteq> TokenBurnFromBlocked a x"
    and "ch_token c a = Some u" and "\<not> tk_temporaryUnblock u"
  shows "\<exists>u'. ch_token c' a = Some u' \<and>
           (\<forall>x. balanceOf Z u' x \<noteq> balanceOf Z u x \<longrightarrow>
              x \<in> auth_set (ch_registry c) (tk_transferPolicyId u) \<and> \<not> vw_paused (tview Z u)) \<and>
           (administers t \<or> tk_transferPolicyId u' = tk_transferPolicyId u \<and>
              tk_mintRecipientPolicyId u' = tk_mintRecipientPolicyId u \<and> tk_maxSupply u' = tk_maxSupply u \<and>
              vw_role (tview Z u') = vw_role (tview Z u) \<and> vw_owner (tview Z u') = vw_owner (tview Z u))"
proof -
  consider "sets_state t" | "administers t" | "\<not> sets_state t" "\<not> administers t" by blast
  then show ?thesis
  proof cases
    case 1
    with exec_sets_state [OF assms(2)] assms(4) show ?thesis by auto
  next
    case 2
    obtain u' where "ch_token c' a = Some u'" "balanceOf Z u' = balanceOf Z u"
      using exec_administers_balance [OF assms(1) 2 assms(2,4)] .
    with 2 show ?thesis by auto
  next
    case 3
    from chain_relD [OF authorized.exec_steps [OF 3(2,1) assms(3,2)] assms(4)] assms(1) obtain u' where
      "ch_token c' a = Some u'" "moves_authorized Z (ch_registry c) u u'" by blast
    with assms(5) show ?thesis by (auto simp: moves_authorized_def passes_def authorized_in_set)
  qed
qed

text \<open>Account 5 sends 3 of its 10 tokens to 6, under a blacklist with no members.\<close>

definition sample_chain :: "oz_view chain" where
  "sample_chain =
     \<lparr>ch_registry = registry_init\<lparr>rg_policies := (\<lambda>_. no_policy)(2 := no_policy\<lparr>pl_exists := True, pl_policyType := BLACKLIST\<rparr>)\<rparr>,
      ch_token = [1 \<mapsto> \<lparr>tk_code = ReserveLedgerCode, tk_base = empty_view\<lparr>vw_balance := (\<lambda>_. 0)(5 := 10), vw_supply := 10\<rparr>,
        tk_maxSupply = 10, tk_decimals = 6, tk_transferPolicyId = 2, tk_mintRecipientPolicyId = 2,
        tk_migrationToWrappedCompleted = False, tk_temporaryUnblock = False, tk_initialized = 2\<rparr>],
      ch_authority = \<lparr>ta_base = empty_view, ta_minterAllowances = (\<lambda>_ _. 0), ta_mintTxnLimits = (\<lambda>_. 0), ta_tokenHandlers = (\<lambda>_. 0),
        ta_initialized = 1\<rparr>\<rparr>"

theorem only_authorized_accounts_move_witness:
  "\<exists>c' u'. exec sample_oz \<lparr>dy_TokenAuthority = 3, dy_ReserveLedgerToken = 1, dy_handler = Map.empty\<rparr> 5 (TokenTransfer 1 6 3) sample_chain = Ok c' \<and>
     ch_token c' 1 = Some u' \<and> balanceOf sample_oz u' 6 = 3 \<and> 6 \<in> auth_set (ch_registry sample_chain) 2"
proof -
  let ?D = "\<lparr>dy_TokenAuthority = 3, dy_ReserveLedgerToken = 1, dy_handler = Map.empty\<rparr>"
  obtain u where u: "ch_token sample_chain 1 = Some u" "\<not> tk_temporaryUnblock u" "tk_transferPolicyId u = 2" "balanceOf sample_oz u 6 = 0"
    by (simp add: sample_chain_def balanceOf_def sample_oz_def empty_view_def)
  obtain c' u' where c: "exec sample_oz ?D 5 (TokenTransfer 1 6 3) sample_chain = Ok c'" "ch_token c' 1 = Some u'" "balanceOf sample_oz u' 6 = 3"
    by (simp add: sample_chain_def call_transfer_def on_token_def transfer_def token_update_def whenNotInBlockedList_def auth_call_def
        isAuthorized_root on_base_def sample_oz_def of_spec_def update_spec_def empty_view_def balanceOf_def credit_def debit_def
        no_policy_def)
  from only_authorized_accounts_move [OF sample_oz_ok c(1) _ u(1,2)] c(2,3) u(3,4)
  have "6 \<in> auth_set (ch_registry sample_chain) 2" by auto
  with c show ?thesis by blast
qed

end
