(* ===== verification/Initializers.thy ===== *)
theory Initializers
  imports Settlement Authorized_Moves
begin

text \<open>
  The initializers of the proxies: what \<open>initialize\<close>, \<open>reinitialize\<close> and upgrades can do once the
  deployment script has run. The version in the storage is the state of a small machine: 0 for a fresh
  proxy, 1 once \<open>initialize\<close> or the factory has run, 2 after \<open>reinitialize\<close>; no transaction lowers it.
\<close>

lemma version_kept_refl: "version_kept c c"
  by (auto simp: version_kept_def)

lemma version_kept_trans: "version_kept c d \<Longrightarrow> version_kept d e \<Longrightarrow> version_kept c e"
  unfolding version_kept_def by (meson le_trans)

lemma run_version_kept: "oz_ok Z \<Longrightarrow> version_kept c (run_all Z D txs c)"
proof (induction txs arbitrary: c)
  case (Cons p txs)
  then show ?case
    by (cases p) (auto split: res.split intro: version_kept_trans [OF exec_version_kept])
qed (simp add: version_kept_refl)

text \<open>A token at version 2 and an authority at version 1 refuse their initializers, whoever calls.\<close>

lemma initializers_refused:
  assumes "ch_token c a = Some t" and "2 \<le> tk_initialized t"
  shows "exec Z D s (TokenInitialize a nm sy dec adm tp mp) c = Err ''InvalidInitialization''"
    and "exec Z D s (TokenReinitialize a nm sy dec adm tp mp) c = Err ''InvalidInitialization''"
  using assms by (simp_all add: on_token_def initialize_def reinitialize_def reinitializer_def require_def)

lemma authority_refused:
  "1 \<le> ta_initialized (ch_authority c) \<Longrightarrow> exec Z D s (AuthorityInitialize adm) c = Err ''InvalidInitialization''"
  by (simp add: authority_initialize_def require_def)

text \<open>
  C12. The initializers stay closed: after the deployment, whatever transactions are sent by
  whatever accounts, upgrades and changes of owner included, every later call of \<open>initialize\<close> or
  \<open>reinitialize\<close> on either token, and of \<open>initialize\<close> on the token authority, reverts with
  InvalidInitialization: nobody gets the administration of a deployed contract through its initializer.
\<close>

theorem initializers_stay_closed:
  assumes "oz_ok Z" and "distinct [0, rl, sc, th, ta, BANK_A]" and "deploy_demo Z rl sc th ta = Ok (ids, c)"
    and "a = rl \<or> a = sc"
    and "t = TokenInitialize a nm sy dec adm tp mp \<or> t = TokenReinitialize a nm sy dec adm tp mp \<or> t = AuthorityInitialize adm"
  shows "exec Z (demo_deployed rl th ta) s t (run_all Z (demo_deployed rl th ta) txs c) = Err ''InvalidInitialization''"
proof -
  let ?c = "run_all Z (demo_deployed rl th ta) txs c"
  obtain g tr ts au where d: "deploy_demo Z rl sc th ta = Ok ((2, 3, 4), demo_chain g rl tr sc ts au)"
    "deployed_state Z rl sc th ta g tr ts au" using deploy_demo_Ok [OF assms(1,2)] .
  with assms(3) have c: "c = demo_chain g rl tr sc ts au" by simp
  have "\<exists>u. ch_token c a = Some u \<and> tk_initialized u = 2" "ta_initialized (ch_authority c) = 1"
    using d(2) assms(4) by (auto simp: c demo_chain_def deployed_state_def unissued_def)
  with run_version_kept [OF assms(1), of c "demo_deployed rl th ta" txs]
  obtain u where "ch_token ?c a = Some u" "2 \<le> tk_initialized u" "1 \<le> ta_initialized (ch_authority ?c)"
    unfolding version_kept_def by metis
  with assms(5) show ?thesis by (metis initializers_refused authority_refused)
qed

text \<open>Bank A, still the owner, cannot initialize the deposit token again after an upgrade of it.\<close>

theorem initializers_stay_closed_witness:
  "\<exists>ids c. deploy_demo sample_oz 1 2 3 4 = Ok (ids, c) \<and>
     exec sample_oz (demo_deployed 1 3 4) BANK_A (TokenReinitialize 2 ''New'' ''NEW'' 6 BANK_A 2 4)
       (run_all sample_oz (demo_deployed 1 3 4) [(BANK_A, TokenUpgrade 2 (Some (StablecoinCode 1)))] c) = Err ''InvalidInitialization''"
proof -
  have d: "distinct [0, 1, 2, 3, 4, BANK_A]" by (simp add: BANK_A_def)
  obtain ids c where c: "deploy_demo sample_oz 1 2 3 4 = Ok (ids, c)" using deploy_demo_Ok [OF sample_oz_ok d] by metis
  from initializers_stay_closed [OF sample_oz_ok d c disjI2 [OF refl] disjI2 [OF disjI1 [OF refl]]] c show ?thesis by blast
qed

end
