(* ===== verification/Demo_Settlement.thy ===== *)
theory Demo_Settlement
  imports Settlement
begin

text \<open>
  The demo on the chain: the transactions of its writes, run by the contracts on what the
  deployment script leaves, settle the balances the demo reports.
\<close>

section \<open>The demo on the chain\<close>

text \<open>The record the script writes to besu.json, which the services load.\<close>

definition deployment_of :: "address \<Rightarrow> address \<Rightarrow> address \<Rightarrow> address \<Rightarrow> address \<Rightarrow> u64 \<times> u64 \<times> u64 \<Rightarrow> deployment" where
  "deployment_of reg rl sc th ta ids =
     (case ids of (transferPolicyId, rlMintPolicyId, scMintPolicyId) \<Rightarrow>
        \<lparr>dep_AuthRegistry = reg, dep_ReserveLedger = rl, dep_TokenAuthority = ta, dep_TokenHandler = th, dep_DepositToken = sc,
         dep_TransferPolicyID = transferPolicyId, dep_RLMintPolicyID = rlMintPolicyId, dep_SCMintPolicyID = scMintPolicyId,
         dep_ChainID = 1337\<rparr>)"

text \<open>The transactions of the demo's writes with their senders: two onboardings by Bank A, its mint to
  Bank B and Bank B's transfer to the merchant.\<close>

definition onboard_txs :: "deployment \<Rightarrow> address \<Rightarrow> address \<Rightarrow> (address \<times> tx) list" where
  "onboard_txs dep issuer a =
     [(issuer, RegistryWhitelist (dep_TransferPolicyID dep) a True), (issuer, RegistryWhitelist (dep_SCMintPolicyID dep) a True)]"

definition demo_writes :: "('sk, 'stx) lib \<Rightarrow> env \<Rightarrow> deployment \<Rightarrow> (address \<times> tx) list" where
  "demo_writes L env dep =
     (let A = bank_Address (BankA L env); B = bank_Address (BankB L env); M = Merchant L in
      onboard_txs dep A B @ onboard_txs dep A M @
      [(A, AuthorityMint (dep_DepositToken dep) B (1000000 * 1000000)),
       (B, TokenTransfer (dep_DepositToken dep) M (250000 * 1000000))])"

fun exec_all :: "'b tokens_lib \<Rightarrow> deployed \<Rightarrow> (address \<times> tx) list \<Rightarrow> 'b chain \<Rightarrow> 'b chain res" where
  "exec_all Z D [] c = Ok c"
| "exec_all Z D ((s, t) # ts) c = andThen (exec Z D s t c) (exec_all Z D ts)"

text \<open>One whitelisting by the administrator of a root whitelist.\<close>

lemma exec_whitelist_one:
  assumes "root_whitelist BANK_A g i"
  obtains g' where "exec Z D BANK_A (RegistryWhitelist i a True) (demo_chain g rl tr sc ts au) = Ok (demo_chain g' rl tr sc ts au)"
    "\<And>j. root_whitelist BANK_A g' j = root_whitelist BANK_A g j"
    "\<And>j. members g' j = (if j = i then insert a (members g j) else members g j)"
proof -
  obtain g' where "modifyPolicyWhitelist BANK_A i a True g = Inr g'"
    "\<And>j t. root_whitelist t g' j = root_whitelist t g j"
    "\<And>j. members g' j = (if j = i then insert a (members g j) else members g j)"
    using whitelist_one [OF assms, of a] by blast
  then show thesis by (intro that [of g']) (simp_all add: on_registry_def demo_chain_def)
qed

lemma exec_onboard:
  assumes "\<forall>i \<in> {2, 4}. root_whitelist BANK_A g i"
  obtains g' where "exec_all Z D [(BANK_A, RegistryWhitelist 2 a True), (BANK_A, RegistryWhitelist 4 a True)] (demo_chain g rl tr sc ts au) =
      Ok (demo_chain g' rl tr sc ts au)"
    "\<And>j. root_whitelist BANK_A g' j = root_whitelist BANK_A g j"
    "\<And>j. members g' j = (if j = 2 \<or> j = 4 then insert a (members g j) else members g j)"
proof -
  from assms have "root_whitelist BANK_A g 2" by simp
  then obtain h where h: "exec Z D BANK_A (RegistryWhitelist 2 a True) (demo_chain g rl tr sc ts au) = Ok (demo_chain h rl tr sc ts au)"
    "\<And>j. root_whitelist BANK_A h j = root_whitelist BANK_A g j"
    "\<And>j. members h j = (if j = 2 then insert a (members g j) else members g j)"
    using exec_whitelist_one by blast
  with assms have "root_whitelist BANK_A h 4" by simp
  then obtain k where k: "exec Z D BANK_A (RegistryWhitelist 4 a True) (demo_chain h rl tr sc ts au) = Ok (demo_chain k rl tr sc ts au)"
    "\<And>j. root_whitelist BANK_A k j = root_whitelist BANK_A h j"
    "\<And>j. members k j = (if j = 4 then insert a (members h j) else members h j)"
    using exec_whitelist_one by blast
  show thesis by (rule that [of k]) (simp_all add: h k del: exec.simps)
qed

lemma exec_all_append: "exec_all Z D (ts @ us) c = andThen (exec_all Z D ts c) (exec_all Z D us)"
  by (induction ts arbitrary: c) (auto simp: andThen_def split: res.split)

text \<open>The mint on the deployed chain, with the recipient onboarded.\<close>

lemma exec_first_mint:
  assumes "oz_ok Z" and "distinct [0, rl, sc, th, ta, BANK_A]" and "to \<noteq> 0" and "0 < n" and "n \<le> BIG"
    and "unissued Z tr ReserveLedgerCode 2 3 BIG" and "unissued Z ts (StablecoinCode rl) 2 4 BIG" and "hasRole Z tr MINTER_ROLE th"
    and "ta_tokenHandlers au sc = th" and "ta_mintTxnLimits au sc = BIG" and "ta_minterAllowances au sc BANK_A = BIG"
    and "{0, sc, th, to} \<subseteq> auth_set g 2" and "th \<in> auth_set g 3" and "to \<in> auth_set g 4"
  obtains tr' ts' where "exec Z (demo_deployed rl th ta) BANK_A (AuthorityMint sc to n) (demo_chain g rl tr sc ts au) =
      Ok (demo_chain g rl tr' sc ts' (lower_allowance sc BANK_A n au))"
    "based Z tr (collateralized th sc n (tview Z tr)) tr'" "based Z ts (minted to n (tview Z ts)) ts'"
proof -
  let ?c = "demo_chain g rl tr sc ts au" and ?D = "demo_deployed rl th ta"
  note u = assms(6,7) [unfolded unissued_def]
  have big: "BIG < 2 ^ 256" "BIG < ABSOLUTE_MAX" by (simp_all add: BIG_def ABSOLUTE_MAX_def)
  have c: "ch_token ?c rl = Some tr" "ch_token ?c sc = Some ts" "ch_registry ?c = g" "ch_authority ?c = au" "rl \<noteq> sc"
    using assms(2) by (auto simp: demo_chain_def)
  have l: "ledger_ready Z g tr th sc n" using u assms(5,8,12,13) big by (simp add: ledger_ready_def open_for_def totalSupply_def)
  have p: "deposit_ready Z g ts rl to n" using u assms(5,12,14) big by (simp add: deposit_ready_def open_for_def totalSupply_def)
  have "mint_allowed Z ?c BANK_A rl sc to n"
    using assms(3,4,5,9-11) c l p big by (simp add: mint_allowed_def)
  moreover have h: "dy_handler ?D th = Some (ReserveLedgerWrappedHandler rl)" "ta_tokenHandlers (ch_authority ?c) sc = th"
    "tk_code tr = ReserveLedgerCode" "\<not> tk_temporaryUnblock tr" "tk_code ts = StablecoinCode rl" "\<not> tk_temporaryUnblock ts"
    "distinct [0, rl, sc, th]"
    using u c assms(2,9) by (auto simp: demo_deployed_def)
  note exact = issuance_is_exact_lemma [OF assms(1) h(1,2) c(1) h(3,4) c(2) h(5,6,7), of BANK_A to n]
  ultimately obtain tr' ts' where "exec Z ?D BANK_A (AuthorityMint sc to n) ?c =
      Ok (?c\<lparr>ch_token := (ch_token ?c)(rl \<mapsto> tr', sc \<mapsto> ts'), ch_authority := lower_allowance sc BANK_A n (ch_authority ?c)\<rparr>)"
    "based Z tr (collateralized th sc n (tview Z tr)) tr'" "based Z ts (minted to n (tview Z ts)) ts'"
    by (auto split: res.splits simp del: exec.simps)
  moreover have "?c\<lparr>ch_token := (ch_token ?c)(rl \<mapsto> tr', sc \<mapsto> ts'), ch_authority := lower_allowance sc BANK_A n (ch_authority ?c)\<rparr> =
      demo_chain g rl tr' sc ts' (lower_allowance sc BANK_A n au)" for tr' ts'
    using c(5) by (auto simp: demo_chain_def fun_eq_iff)
  ultimately show thesis using that by simp
qed

text \<open>Whom the registry lets through once both counterparties are onboarded.\<close>

lemma exec_onboarding:
  assumes "deployed_state Z rl sc th ta g tr ts au" and "dep_TransferPolicyID dep = 2" and "dep_SCMintPolicyID dep = 4"
  obtains g' where "exec_all Z D (onboard_txs dep BANK_A a @ onboard_txs dep BANK_A b) (demo_chain g rl tr sc ts au) =
      Ok (demo_chain g' rl tr sc ts au)"
    "auth_set g' 2 = insert b (insert a (set (infra sc th ta)))" "auth_set g' 3 = {th}" "auth_set g' 4 = {a, b}"
proof -
  note d = assms(1) [unfolded deployed_state_def]
  from d have w: "\<forall>i \<in> {2, 4}. root_whitelist BANK_A g i" by blast
  obtain h where h: "exec_all Z D (onboard_txs dep BANK_A a) (demo_chain g rl tr sc ts au) = Ok (demo_chain h rl tr sc ts au)"
    "\<And>j. root_whitelist BANK_A h j = root_whitelist BANK_A g j"
    "\<And>j. members h j = (if j = 2 \<or> j = 4 then insert a (members g j) else members g j)"
    unfolding onboard_txs_def assms(2,3) using exec_onboard [OF w, of Z D a rl tr sc ts au] by blast
  from w h(2) have w: "\<forall>i \<in> {2, 4}. root_whitelist BANK_A h i" by blast
  obtain k where k: "exec_all Z D (onboard_txs dep BANK_A b) (demo_chain h rl tr sc ts au) = Ok (demo_chain k rl tr sc ts au)"
    "\<And>j. root_whitelist BANK_A k j = root_whitelist BANK_A h j"
    "\<And>j. members k j = (if j = 2 \<or> j = 4 then insert b (members h j) else members h j)"
    unfolding onboard_txs_def assms(2,3) using exec_onboard [OF w, of Z D b rl tr sc ts au] by blast
  have auth: "auth_set k j = members k j" if "j \<in> {2, 3, 4}" for j
    using root_whitelist_auth_set [of BANK_A k j] d h(2) k(2) that by blast
  have m: "members g 2 = set (infra sc th ta)" "members g 3 = {th}" "members g 4 = {}" using d by blast+
  show thesis
  proof (rule that)
    show "exec_all Z D (onboard_txs dep BANK_A a @ onboard_txs dep BANK_A b) (demo_chain g rl tr sc ts au) =
        Ok (demo_chain k rl tr sc ts au)" by (simp only: exec_all_append h(1) k(1) andThen_simps)
    show "auth_set k 2 = insert b (insert a (set (infra sc th ta)))" "auth_set k 3 = {th}" "auth_set k 4 = {a, b}"
      using auth [of 2] auth [of 3] auth [of 4] m by (simp_all add: k(3) h(3) insert_commute)
  qed
qed

text \<open>The transfer on the chain the mint leaves.\<close>

lemma exec_transfer:
  assumes "oz_ok Z" and "rl \<noteq> sc" and "from \<noteq> 0" and "to \<noteq> 0" and "{from, to} \<subseteq> auth_set g (tk_transferPolicyId ts)"
    and "\<not> vw_paused (tview Z ts)" and "n \<le> vw_balance (tview Z ts) from"
  obtains ts' where "exec Z D from (TokenTransfer sc to n) (demo_chain g rl tr sc ts au) = Ok (demo_chain g rl tr sc ts' au)"
    "based Z ts (moved from to n (tview Z ts)) ts'"
proof -
  have "open_for Z g ts {from, to}" using assms(5,6) by (simp add: open_for_def)
  from transfer_based [OF assms(1) this assms(3,4,7)] obtain ts' where
    t: "transfer Z g from to n ts = Ok ts'" "based Z ts (moved from to n (tview Z ts)) ts'" .
  show thesis
    by (rule that [OF _ t(2)]) (use assms(2) t(1) in \<open>simp add: call_transfer_def on_token_def demo_chain_def fun_upd_twist\<close>)
qed

text \<open>The mint to Bank B and the transfer to the merchant, on the deployed and onboarded chain.\<close>

definition settled :: "'b tokens_lib \<Rightarrow> address \<Rightarrow> address \<Rightarrow> address \<Rightarrow> address \<Rightarrow> 'b chain \<Rightarrow> bool" where
  "settled Z rl sc B M c \<longleftrightarrow>
     (\<exists>tr ts. ch_token c rl = Some tr \<and> ch_token c sc = Some ts \<and>
        (\<forall>a. balanceOf Z ts a = (if a = B then 750000 * 1000000 else if a = M then 250000 * 1000000 else 0)) \<and>
        totalSupply Z ts = 1000000 * 1000000 \<and> totalSupply Z tr = 1000000 * 1000000 \<and>
        (\<forall>a. balanceOf Z tr a = (if a = sc then 1000000 * 1000000 else 0)))"

text \<open>The chain after a first issuance to \<open>B\<close>.\<close>

definition issued :: "'b tokens_lib \<Rightarrow> address \<Rightarrow> address \<Rightarrow> address \<Rightarrow> nat \<Rightarrow> 'b chain \<Rightarrow> bool" where
  "issued Z rl sc B n c \<longleftrightarrow>
     (\<exists>tr ts. ch_token c rl = Some tr \<and> ch_token c sc = Some ts \<and>
        (\<forall>a. balanceOf Z ts a = (if a = B then n else 0)) \<and> totalSupply Z ts = n \<and> totalSupply Z tr = n)"

lemma mint_and_move:
  assumes "oz_ok Z" and "distinct [0, rl, sc, th, ta, BANK_A, B, M]" and "deployed_state Z rl sc th ta g0 tr ts au"
    and "auth_set g 2 = insert M (insert B (set (infra sc th ta)))" and "auth_set g 3 = {th}" and "auth_set g 4 = {B, M}"
  obtains c1 c where "exec Z (demo_deployed rl th ta) BANK_A (AuthorityMint sc B (1000000 * 1000000)) (demo_chain g rl tr sc ts au) = Ok c1"
    "issued Z rl sc B (1000000 * 1000000) c1"
    "exec Z (demo_deployed rl th ta) B (TokenTransfer sc M (250000 * 1000000)) c1 = Ok c"
    "settled Z rl sc B M c" "ch_authority c = lower_allowance sc BANK_A (1000000 * 1000000) au"
proof -
  let ?n = "1000000 * 1000000 :: nat" and ?m = "250000 * 1000000 :: nat" and ?D = "demo_deployed rl th ta"
  note d = assms(3) [unfolded deployed_state_def]
  have r: "unissued Z tr ReserveLedgerCode 2 3 BIG" "unissued Z ts (StablecoinCode rl) 2 4 BIG" using d by blast+
  note u = r [unfolded unissued_def]
  have auth: "{0, sc, th, B} \<subseteq> auth_set g 2" "th \<in> auth_set g 3" "B \<in> auth_set g 4"
    using assms(4-6) by (auto simp: infra_def)
  have ne: "distinct [0, rl, sc, th, ta, BANK_A]" "B \<noteq> 0" "M \<noteq> 0" "rl \<noteq> sc" "B \<noteq> M" "sc \<noteq> th" using assms(2) by auto
  obtain tr' ts' where m: "exec Z ?D BANK_A (AuthorityMint sc B ?n) (demo_chain g rl tr sc ts au) =
      Ok (demo_chain g rl tr' sc ts' (lower_allowance sc BANK_A ?n au))"
    "based Z tr (collateralized th sc ?n (tview Z tr)) tr'" "based Z ts (minted B ?n (tview Z ts)) ts'"
    using exec_first_mint [OF assms(1) ne(1,2) _ _ r _ _ _ _ auth, of ?n au] d by (auto simp: BIG_def)
  note v = based_simps [OF m(3)] and w = based_simps [OF m(2)]
  have "{B, M} \<subseteq> auth_set g (tk_transferPolicyId ts')" using assms(4) u v by auto
  moreover have "\<not> vw_paused (tview Z ts')" "?m \<le> vw_balance (tview Z ts') B" using u by (simp_all add: v minted_def)
  ultimately obtain ts'' where t: "exec Z ?D B (TokenTransfer sc M ?m) (demo_chain g rl tr' sc ts' (lower_allowance sc BANK_A ?n au)) =
      Ok (demo_chain g rl tr' sc ts'' (lower_allowance sc BANK_A ?n au))" "based Z ts' (moved B M ?m (tview Z ts')) ts''"
    using exec_transfer [OF assms(1) ne(4,2,3)] by metis
  note x = based_simps [OF t(2)]
  show thesis
  proof (rule that)
    show "issued Z rl sc B ?n (demo_chain g rl tr' sc ts' (lower_allowance sc BANK_A ?n au))"
      using ne u by (simp add: issued_def demo_chain_def balanceOf_def totalSupply_def v w minted_def collateralized_def credit_def debit_def)
    show "settled Z rl sc B M (demo_chain g rl tr' sc ts'' (lower_allowance sc BANK_A ?n au))"
      using ne u by (simp add: settled_def demo_chain_def balanceOf_def totalSupply_def x v w moved_def minted_def
          collateralized_def credit_def debit_def)
  qed (simp_all only: m(1) t(1), simp add: demo_chain_def)
qed

text \<open>
  C8. The demo settles on the chain: on what the deployment script leaves, the transactions of the
  demo's writes all succeed, in order; afterwards Bank B holds 750,000 tokens, the merchant
  250,000 and nobody else any, the deposit token's supply of a million is matched by the reserve
  ledger's, all of which the deposit token holds, and a mint Bank B sends itself reverts.
\<close>

theorem demo_settles:
  assumes "oz_ok Z" and "bank_Address (BankA L env) = BANK_A"
    and "distinct [0, rl, sc, th, ta, BANK_A, bank_Address (BankB L env), Merchant L]"
  shows "\<exists>ids c c'. deploy_demo Z rl sc th ta = Ok (ids, c) \<and>
           exec_all Z (demo_deployed rl th ta) (demo_writes L env (deployment_of reg rl sc th ta ids)) c = Ok c' \<and>
           settled Z rl sc (bank_Address (BankB L env)) (Merchant L) c' \<and>
           (\<forall>to n. \<not> is_ok (exec Z (demo_deployed rl th ta) (bank_Address (BankB L env)) (AuthorityMint sc to n) c'))"
proof -
  let ?B = "bank_Address (BankB L env)" and ?M = "Merchant L" and ?D = "demo_deployed rl th ta"
    and ?dep = "deployment_of reg rl sc th ta (2, 3, 4)"
  have ne: "distinct [0, rl, sc, th, ta, BANK_A]" "?B \<noteq> BANK_A" using assms(3) by auto
  obtain g tr ts au where d: "deploy_demo Z rl sc th ta = Ok ((2, 3, 4), demo_chain g rl tr sc ts au)"
    "deployed_state Z rl sc th ta g tr ts au" using deploy_demo_Ok [OF assms(1) ne(1)] .
  have dep: "dep_TransferPolicyID ?dep = 2" "dep_SCMintPolicyID ?dep = 4" "dep_DepositToken ?dep = sc"
    by (simp_all add: deployment_of_def)
  obtain k where k: "exec_all Z ?D (onboard_txs ?dep BANK_A ?B @ onboard_txs ?dep BANK_A ?M) (demo_chain g rl tr sc ts au) =
      Ok (demo_chain k rl tr sc ts au)"
    "auth_set k 2 = insert ?M (insert ?B (set (infra sc th ta)))" "auth_set k 3 = {th}" "auth_set k 4 = {?B, ?M}"
    using exec_onboarding [OF d(2) dep(1,2)] .
  obtain c1 c where m: "exec Z ?D BANK_A (AuthorityMint sc ?B (1000000 * 1000000)) (demo_chain k rl tr sc ts au) = Ok c1"
    "exec Z ?D ?B (TokenTransfer sc ?M (250000 * 1000000)) c1 = Ok c"
    and c: "settled Z rl sc ?B ?M c" "ch_authority c = lower_allowance sc BANK_A (1000000 * 1000000) au"
    using mint_and_move [OF assms(1,3) d(2) k(2-4)] by metis
  have writes: "demo_writes L env ?dep = (onboard_txs ?dep BANK_A ?B @ onboard_txs ?dep BANK_A ?M) @
      [(BANK_A, AuthorityMint sc ?B (1000000 * 1000000)), (?B, TokenTransfer sc ?M (250000 * 1000000))]"
    by (simp only: demo_writes_def Let_def assms(2) dep append_assoc)
  have "exec_all Z ?D (demo_writes L env ?dep) (demo_chain g rl tr sc ts au) = Ok c"
    unfolding writes exec_all_append [of Z ?D "onboard_txs ?dep BANK_A ?B @ onboard_txs ?dep BANK_A ?M"] k(1) andThen_simps
    by (simp only: exec_all.simps m andThen_simps)
  moreover have "ta_minterAllowances (ch_authority c) sc ?B = 0"
    using d(2) ne(2) by (simp add: c(2) lower_allowance_def deployed_state_def)
  then have "\<not> is_ok (exec Z ?D ?B (AuthorityMint sc to n) c)" for to n
    by (cases "exec Z ?D ?B (AuthorityMint sc to n) c") (auto simp: authority_mint_iff)
  ultimately show ?thesis using d(1) c(1) by blast
qed

section \<open>The sample's addresses\<close>

lemma sample_bank_addresses:
  "bank_Address (BankA sample_lib e) = BANK_A"
  "bank_Address (BankB sample_lib e) = 0x70997970C51812dc3A010C7d01b50e0d17dc79C8"
  "Merchant sample_lib = 0x3C44CdDdB6a900fa2b585dd299e03d12FA4293BC"
  by (simp_all add: BankA_def BankB_def Merchant_def sample_lib_def sample_HexToAddress_def hex_nat_def hex_val_def BANK_A_def)

text \<open>The demo at four sample addresses.\<close>

theorem demo_settles_witness:
  "\<exists>ids c c'. deploy_demo sample_oz 1 2 3 4 = Ok (ids, c) \<and>
     exec_all sample_oz (demo_deployed 1 3 4) (demo_writes sample_lib empty_env (deployment_of 9 1 2 3 4 ids)) c = Ok c' \<and>
     settled sample_oz 1 2 0x70997970C51812dc3A010C7d01b50e0d17dc79C8 0x3C44CdDdB6a900fa2b585dd299e03d12FA4293BC c'"
proof -
  have "distinct [0, 1, 2, 3, 4, BANK_A, bank_Address (BankB sample_lib empty_env), Merchant sample_lib]"
    by (simp add: sample_bank_addresses BANK_A_def)
  from demo_settles [OF sample_oz_ok sample_bank_addresses(1) this, of 9] show ?thesis by (auto simp: sample_bank_addresses)
qed

section \<open>The issuer's mint, exactly\<close>

text \<open>
  C10. When a mint goes through and what it does: with the wrapped handler registered, a mint of
  \<open>n\<close> to \<open>to\<close> by any account succeeds exactly when the amount is positive and within the minter's
  allowance, the per-transaction limit and the absolute maximum, the ledger lets the handler mint
  it and hand it over, and the recipient is authorized to receive mints and transfers of the running
  deposit token. Then the ledger's supply and its balance of the deposit token grow by \<open>n\<close>, the
  recipient's balance and the deposit token's supply grow by \<open>n\<close>, the minter's allowance shrinks by
  \<open>n\<close>, the ledger allowance the handler gave the deposit token is used up and ends at 0, and nothing
  else changes.
\<close>

theorem issuance_is_exact:
  assumes "oz_ok Z" and "dy_handler D h = Some (ReserveLedgerWrappedHandler rl)" and "ta_tokenHandlers (ch_authority c) sc = h"
    and "ch_token c rl = Some tr" and "tk_code tr = ReserveLedgerCode" and "\<not> tk_temporaryUnblock tr"
    and "ch_token c sc = Some ts" and "tk_code ts = StablecoinCode rl" and "\<not> tk_temporaryUnblock ts"
    and "distinct [0, rl, sc, h]"
  shows "case exec Z D s (AuthorityMint sc to n) c of
           Err _ \<Rightarrow> \<not> mint_allowed Z c s rl sc to n
         | Ok c' \<Rightarrow> mint_allowed Z c s rl sc to n \<and>
             (\<exists>tr' ts'. c' = c\<lparr>ch_token := (ch_token c)(rl \<mapsto> tr', sc \<mapsto> ts'),
                              ch_authority := lower_allowance sc s n (ch_authority c)\<rparr> \<and>
                based Z tr (collateralized h sc n (tview Z tr)) tr' \<and> based Z ts (minted to n (tview Z ts)) ts')"
  using assms by (rule issuance_is_exact_lemma)

text \<open>Two mints of Bank A on the deployed chain with account 7 onboarded: to 7, and to 8.\<close>

theorem issuance_is_exact_witness:
  "\<exists>g tr ts au c'. let c = demo_chain g 1 tr 2 ts au in
     exec sample_oz (demo_deployed 1 3 4) BANK_A (AuthorityMint 2 7 10) c = Ok c' \<and>
     (\<exists>ts'. ch_token c' 2 = Some ts' \<and> balanceOf sample_oz ts' 7 = 10) \<and>
     \<not> is_ok (exec sample_oz (demo_deployed 1 3 4) BANK_A (AuthorityMint 2 8 10) c)"
proof -
  let ?D = "demo_deployed 1 3 4"
  have dis: "distinct [0, 1, 2, 3, 4, BANK_A]" by (simp add: BANK_A_def)
  obtain g0 tr ts au where d: "deployed_state sample_oz 1 2 3 4 g0 tr ts au" using deploy_demo_Ok [OF sample_oz_ok dis] by metis
  have dep: "dep_TransferPolicyID (deployment_of 9 1 2 3 4 (2, 3, 4)) = 2" "dep_SCMintPolicyID (deployment_of 9 1 2 3 4 (2, 3, 4)) = 4"
    by (simp_all add: deployment_of_def)
  obtain g where g: "auth_set g 2 = insert 7 (insert 7 (set (infra 2 3 4)))" "auth_set g 3 = {3}" "auth_set g 4 = {7, 7}"
    using exec_onboarding [OF d dep, of "demo_deployed 1 3 4" 7 7] by metis
  let ?c = "demo_chain g 1 tr 2 ts au"
  note u = d [unfolded deployed_state_def unissued_def]
  have c: "ch_token ?c 1 = Some tr" "ch_token ?c 2 = Some ts" "ch_registry ?c = g" "ch_authority ?c = au"
    by (simp_all add: demo_chain_def)
  have h: "dy_handler ?D 3 = Some (ReserveLedgerWrappedHandler 1)" "ta_tokenHandlers (ch_authority ?c) 2 = 3"
    "tk_code tr = ReserveLedgerCode" "\<not> tk_temporaryUnblock tr" "tk_code ts = StablecoinCode 1" "\<not> tk_temporaryUnblock ts"
    using u c(4) by (auto simp: demo_deployed_def)
  note exact = issuance_is_exact [OF sample_oz_ok h(1,2) c(1) h(3,4) c(2) h(5,6), of BANK_A]
  have no: "\<not> mint_allowed sample_oz ?c BANK_A 1 2 8 10"
    using u g c by (simp add: mint_allowed_def deposit_ready_def)
  have yes: "mint_allowed sample_oz ?c BANK_A 1 2 7 10"
    using u g c by (simp add: mint_allowed_def deposit_ready_def ledger_ready_def open_for_def totalSupply_def infra_def BIG_def ABSOLUTE_MAX_def)
  have 8: "\<not> is_ok (exec sample_oz ?D BANK_A (AuthorityMint 2 8 10) ?c)"
    using exact [of 8 10] no by (auto split: res.splits simp del: exec.simps)
  obtain c' ts' where 7: "exec sample_oz ?D BANK_A (AuthorityMint 2 7 10) ?c = Ok c'" "ch_token c' 2 = Some ts'"
    "based sample_oz ts (minted 7 10 (tview sample_oz ts)) ts'"
    using exact [of 7 10] yes by (auto split: res.splits simp del: exec.simps)
  from 7(3) u have "balanceOf sample_oz ts' 7 = 10" by (simp add: based_def balanceOf_def minted_def)
  with 7 8 show ?thesis unfolding Let_def by blast
qed

end
