(* ===== verification/Broadcast.thy ===== *)
theory Broadcast
  imports Demo_Settlement Completion
begin

text \<open>
  The two sides of a write together: the calldata a deposit service signs and broadcasts is the call
  of a contract function, and the broadcasts of the demo's four writes are, in order, the calls that
  settle the demo on the chain.
\<close>

section \<open>Contract calls\<close>

text \<open>The contract and calldata of a transaction, for those the services can send.\<close>

definition packed :: "address \<Rightarrow> bytes res \<Rightarrow> (address \<times> bytes) option" where
  "packed to r = (case r of Err _ \<Rightarrow> None | Ok data \<Rightarrow> Some (to, data))"

fun call_of :: "('sk, 'stx) lib \<Rightarrow> deployment \<Rightarrow> tx \<Rightarrow> (address \<times> bytes) option" where
  "call_of L dep (RegistryWhitelist i a v) =
     packed (dep_AuthRegistry dep) (Pack L AuthRegistry_abi ''modifyPolicyWhitelist'' [AUint64 i, AAddress a, ABool v])"
| "call_of L dep (AuthorityMint sc to n) =
     packed (dep_TokenAuthority dep) (Pack L TokenAuthority_abi ''mint'' [AAddress sc, AAddress to, ABigInt (int n)])"
| "call_of L dep (TokenTransfer sc to n) = packed sc (Pack L DepositToken_abi ''transfer'' [AAddress to, ABigInt (int n)])"
| "call_of L dep _ = None"

text \<open>A broadcast transaction that is a call by an account: signed for it by its service's router.\<close>

definition carries :: "('sk, 'stx) lib \<Rightarrow> ('e, 'stx) net \<Rightarrow> service list \<Rightarrow> address \<times> tx \<Rightarrow> 'stx \<Rightarrow> bool" where
  "carries L N ss p stx \<longleftrightarrow>
     (\<exists>s \<in> set ss. \<exists>to data. bank_Address (sv_bank s) = fst p \<and> call_of L (sv_dep s) (snd p) = Some (to, data) \<and>
        signed_for L N s to data stx)"

lemma carriesI:
  "s \<in> set ss \<Longrightarrow> bank_Address (sv_bank s) = a \<Longrightarrow> call_of L (sv_dep s) t = Some (to, data) \<Longrightarrow> signed_for L N s to data stx \<Longrightarrow>
     carries L N ss (a, t) stx"
  by (auto simp: carries_def)

lemma authorize_carries:
  assumes "Authorize L N s account w = (Done (Ok rs), w')" and "bank_Role (sv_bank s) = RoleIssuer" and "s \<in> set ss"
  obtains es where "emits w w' es" "list_all2 (carries L N ss) (onboard_txs (sv_dep s) (bank_Address (sv_bank s)) account) (sent es)"
proof -
  from assms(1,2) have "authorize_loop L N s account (authorize_steps s) [] w = (Done (Ok rs), w')"
    by (simp add: Authorize_def requireRole_same)
  from authorize_loop_sent [OF this] obtain es where es: "emits w w' es"
    "list_all2 (whitelists L N s account) (map fst (authorize_steps s)) (sent es)" by auto
  have c: "carries L N ss (bank_Address (sv_bank s), RegistryWhitelist i account True) t" if "whitelists L N s account i t" for i t
    using that assms(3) by (auto simp: whitelists_def packed_def intro!: carriesI [OF assms(3) refl])
  from es(2) have "list_all2 (carries L N ss) (onboard_txs (sv_dep s) (bank_Address (sv_bank s)) account) (sent es)"
    by (auto simp: onboard_txs_def authorize_steps_def list_all2_Cons1 intro: c)
  with es(1) show thesis by (rule that)
qed

lemma one_sent:
  assumes "buildSignBroadcast L N s op to data w = (Done (Ok x), w')"
  obtains es t where "emits w w' es" "sent es = [t]" "signed_for L N s to data t"
  using assms by (cases rule: buildSignBroadcast_sent) auto

lemma mint_carries:
  assumes "Mint L N s to (int n) w = (Done (Ok x), w')" and "bank_Role (sv_bank s) = RoleIssuer" and "s \<in> set ss"
  obtains es t where "emits w w' es" "sent es = [t]"
    "carries L N ss (bank_Address (sv_bank s), AuthorityMint (dep_DepositToken (sv_dep s)) to n) t"
proof -
  let ?p = "Pack L TokenAuthority_abi ''mint'' [AAddress (dep_DepositToken (sv_dep s)), AAddress to, ABigInt (int n)]"
  from assms(1,2) obtain data where d: "?p = Ok data" "buildSignBroadcast L N s ''mint'' (dep_TokenAuthority (sv_dep s)) data w = (Done (Ok x), w')"
    by (cases ?p) (auto simp: Mint_def requireRole_same)
  obtain es t where es: "emits w w' es" "sent es = [t]" "signed_for L N s (dep_TokenAuthority (sv_dep s)) data t"
    using one_sent [OF d(2)] .
  show thesis by (rule that [OF es(1,2) carriesI [OF assms(3) refl _ es(3)]]) (simp add: d(1) packed_def)
qed

lemma transfer_carries:
  assumes "Transfer L N s to (int n) w = (Done (Ok x), w')" and "s \<in> set ss"
  obtains es t where "emits w w' es" "sent es = [t]"
    "carries L N ss (bank_Address (sv_bank s), TokenTransfer (dep_DepositToken (sv_dep s)) to n) t"
proof -
  let ?p = "Pack L DepositToken_abi ''transfer'' [AAddress to, ABigInt (int n)]"
  from assms(1) obtain data where d: "?p = Ok data" "buildSignBroadcast L N s ''transfer'' (dep_DepositToken (sv_dep s)) data w = (Done (Ok x), w')"
    by (cases ?p) (auto simp: Transfer_def)
  obtain es t where es: "emits w w' es" "sent es = [t]" "signed_for L N s (dep_DepositToken (sv_dep s)) data t"
    using one_sent [OF d(2)] .
  show thesis by (rule that [OF es(1,2) carriesI [OF assms(2) refl _ es(3)]]) (simp add: d(1) packed_def)
qed

text \<open>
  C13. The services broadcast what settles: when the four writes of the demo come back from the two
  deposit services with results, the transactions broadcast on the way are exactly six, in the order
  of the settling run, each signed for its sender by that bank's router and with the calldata of
  that contract call.
\<close>

theorem services_broadcast_the_settling_calls:
  assumes "A = bank_service L env dep True" and "B = bank_service L env dep False"
    and "Authorize L N A (bank_Address (BankB L env)) w0 = (Done (Ok r1), w1)" and "Authorize L N A (Merchant L) w1 = (Done (Ok r2), w2)"
    and "Mint L N A (bank_Address (BankB L env)) (1000000 * 1000000) w2 = (Done (Ok r3), w3)"
    and "Transfer L N B (Merchant L) (250000 * 1000000) w3 = (Done (Ok r4), w4)"
  shows "\<exists>es. emits w0 w4 es \<and> list_all2 (carries L N [A, B]) (demo_writes L env dep) (sent es)"
proof -
  have role: "bank_Role (sv_bank A) = RoleIssuer" and A: "sv_dep A = dep" "sv_bank A = BankA L env" "A \<in> set [A, B]"
    and B: "sv_dep B = dep" "sv_bank B = BankB L env" "B \<in> set [A, B]"
    using assms(1,2) by (simp_all add: bank_service_def BankA_def)
  obtain e1 where 1: "emits w0 w1 e1" "list_all2 (carries L N [A, B]) (onboard_txs dep (bank_Address (BankA L env)) (bank_Address (BankB L env))) (sent e1)"
    using authorize_carries [OF assms(3) role A(3)] A by metis
  obtain e2 where 2: "emits w1 w2 e2" "list_all2 (carries L N [A, B]) (onboard_txs dep (bank_Address (BankA L env)) (Merchant L)) (sent e2)"
    using authorize_carries [OF assms(4) role A(3)] A by metis
  have m: "Mint L N A (bank_Address (BankB L env)) (int (1000000 * 1000000)) w2 = (Done (Ok r3), w3)"
    "Transfer L N B (Merchant L) (int (250000 * 1000000)) w3 = (Done (Ok r4), w4)" using assms(5,6) by simp_all
  obtain e3 t3 where 3: "emits w2 w3 e3" "sent e3 = [t3]"
    "carries L N [A, B] (bank_Address (BankA L env), AuthorityMint (dep_DepositToken dep) (bank_Address (BankB L env)) (1000000 * 1000000)) t3"
    using mint_carries [OF m(1) role A(3)] A by metis
  obtain e4 t4 where 4: "emits w3 w4 e4" "sent e4 = [t4]"
    "carries L N [A, B] (bank_Address (BankB L env), TokenTransfer (dep_DepositToken dep) (Merchant L) (250000 * 1000000)) t4"
    using transfer_carries [OF m(2) B(3)] B by metis
  have "emits w0 w4 (e1 @ e2 @ e3 @ e4)" by (rule emits_trans [OF 1(1) emits_trans [OF 2(1) emits_trans [OF 3(1) 4(1)]]])
  moreover have "list_all2 (carries L N [A, B]) (demo_writes L env dep) (sent (e1 @ e2 @ e3 @ e4))"
    unfolding demo_writes_def Let_def sent_simps
    by (rule list_all2_appendI [OF 1(2) list_all2_appendI [OF 2(2)]]) (simp only: 3(2) 4(2) append.simps list_all2_Cons list_all2_Nil 3(3) 4(3) simp_thms)
  ultimately show ?thesis by blast
qed

text \<open>The four writes on the sample node.\<close>

lemma sample_service:
  "bank_service sample_lib empty_env sample_dep True = sample_issuer" "bank_service sample_lib empty_env sample_dep False = sample_holder"
  by (simp_all add: bank_service_def sample_issuer_def sample_holder_def)

lemma sample_mint: "\<exists>x w'. Mint sample_lib sample_net sample_issuer to n w = (Done (Ok x), w')"
proof -
  have "\<exists>d. Pack sample_lib TokenAuthority_abi ''mint'' [AAddress a, AAddress b, ABigInt i] = Ok d" for a b i
    by (simp add: sample_lib_def abi_lookup_def TokenAuthority_abi_def)
  then obtain d where d: "Pack sample_lib TokenAuthority_abi ''mint''
      [AAddress (dep_DepositToken (sv_dep sample_issuer)), AAddress to, ABigInt n] = Ok d" by blast
  have "requireRole sample_lib sample_issuer RoleIssuer ''mint'' = None"
    by (rule requireRole_same) (simp add: sample_issuer_def BankA_def)
  with d sample_run [OF sample_router_urls(1)] show ?thesis by (simp add: Mint_def) blast
qed

lemma sample_transfer: "\<exists>x w'. Transfer sample_lib sample_net sample_holder to n w = (Done (Ok x), w')"
proof -
  have "\<exists>d. Pack sample_lib DepositToken_abi ''transfer'' [AAddress to, ABigInt n] = Ok d"
    by (simp add: sample_lib_def abi_lookup_def DepositToken_abi_def)
  with sample_run [OF sample_router_urls(2)] show ?thesis by (auto simp: Transfer_def) blast
qed

theorem services_broadcast_the_settling_calls_witness:
  "\<exists>w4 es. emits sample_world w4 es \<and>
     list_all2 (carries sample_lib sample_net [sample_issuer, sample_holder]) (demo_writes sample_lib empty_env sample_dep) (sent es)"
proof -
  obtain r1 w1 where 1: "Authorize sample_lib sample_net sample_issuer (bank_Address (BankB sample_lib empty_env)) sample_world = (Done (Ok r1), w1)"
    using sample_authorize by blast
  obtain r2 w2 where 2: "Authorize sample_lib sample_net sample_issuer (Merchant sample_lib) w1 = (Done (Ok r2), w2)"
    using sample_authorize by blast
  obtain r3 w3 where 3: "Mint sample_lib sample_net sample_issuer (bank_Address (BankB sample_lib empty_env)) (1000000 * 1000000) w2 = (Done (Ok r3), w3)"
    using sample_mint by blast
  obtain r4 w4 where 4: "Transfer sample_lib sample_net sample_holder (Merchant sample_lib) (250000 * 1000000) w3 = (Done (Ok r4), w4)"
    using sample_transfer by blast
  show ?thesis
    using services_broadcast_the_settling_calls [OF sample_service [symmetric] 1 2 3 4] by blast
qed

end
