(* ===== verification/Chain_Node.thy ===== *)
theory Chain_Node
  imports Broadcast
begin

text \<open>
  The services on a node that runs the contracts. The environment of the clients stays opaque; what
  is known of it is an observation, the chain it holds, and the documented behaviour of a node as
  named hypotheses: reading leaves the chain alone, a call answers from it, and a transaction that
  is waited for has been executed by the contracts for its sender. With them every write of a
  deposit service is one contract call on that chain, and every read one look at it.
\<close>

section \<open>A node\<close>

text \<open>The amounts of a call fit a uint256.\<close>

fun call_fits :: "tx \<Rightarrow> bool" where
  "call_fits (AuthorityMint sc to n) \<longleftrightarrow> n < 2 ^ 256"
| "call_fits (TokenTransfer sc to n) \<longleftrightarrow> n < 2 ^ 256"
| "call_fits _ \<longleftrightarrow> True"

text \<open>What a read leaves alone: the chain, every account's pending nonce, and every gas estimate.\<close>

definition node_view :: "('e, 'stx) net \<Rightarrow> ('e \<Rightarrow> 'c) \<Rightarrow> 'e \<Rightarrow> 'c \<times> (address \<Rightarrow> u64 res) \<times> (call_msg \<Rightarrow> u64 res)" where
  "node_view N obs e = (obs e, \<lambda>a. fst (PendingNonceAt N a e), \<lambda>m. fst (EstimateGas N m e))"

definition node_keeps :: "('e, 'stx) net \<Rightarrow> ('e \<Rightarrow> 'c) \<Rightarrow> bool" where
  "node_keeps N obs \<longleftrightarrow>
     (\<forall>e. (\<forall>a. node_view N obs (snd (PendingNonceAt N a e)) = node_view N obs e) \<and>
          node_view N obs (snd (HeaderByNumber N e)) = node_view N obs e \<and>
          (\<forall>m. node_view N obs (snd (EstimateGas N m e)) = node_view N obs e \<and>
               node_view N obs (snd (CallContract N m e)) = node_view N obs e))"

text \<open>The node answers the two reads a transaction is built from, and its gas estimates, bounded by
  the block's gas limit, are far from 64 bits.\<close>

definition node_reads :: "('e, 'stx) net \<Rightarrow> bool" where
  "node_reads N \<longleftrightarrow>
     (\<forall>e. (\<forall>a. is_ok (fst (PendingNonceAt N a e))) \<and> is_ok (fst (HeaderByNumber N e)) \<and>
          (\<forall>m g. fst (EstimateGas N m e) = Ok g \<longrightarrow> unat g < 2 ^ 63))"

text \<open>
  A node takes a transaction whose nonce is its sender's pending one and whose gas limit covers what
  the node itself estimates for the call, or 1,600,000 where it has no estimate. Such a transaction,
  sent and waited for, has run the contract call its calldata stands for, as its sender, and its
  receipt says whether the call went through. Of any other transaction nothing is assumed.
\<close>

definition acceptable :: "('sk, 'stx) lib \<Rightarrow> ('e, 'stx) net \<Rightarrow> address \<Rightarrow> address \<Rightarrow> 'stx \<Rightarrow> 'e \<Rightarrow> bool" where
  "acceptable L N s to stx e \<longleftrightarrow>
     fst (PendingNonceAt N s e) = Ok (StxNonce L stx) \<and>
     (case fst (EstimateGas N \<lparr>cm_From = s, cm_To = to, cm_Data = StxData L stx\<rparr> e) of
        Ok g \<Rightarrow> g \<le> StxGas L stx
      | Err _ \<Rightarrow> 1600000 \<le> StxGas L stx)"

definition node_mines :: "'b tokens_lib \<Rightarrow> deployed \<Rightarrow> ('sk, 'stx) lib \<Rightarrow> deployment \<Rightarrow> ('e, 'stx) net \<Rightarrow> ('e \<Rightarrow> 'b chain) \<Rightarrow> bool" where
  "node_mines Z D L dep N obs \<longleftrightarrow>
     (\<forall>stx s t to e. Sender L stx = Ok s \<and> StxTo L stx = Some to \<and> acceptable L N s to stx e \<and>
        call_of L dep t = Some (to, StxData L stx) \<and> call_fits t \<longrightarrow>
        (\<exists>e1 rc e2. SendTransaction N stx e = (Ok (), e1) \<and> WaitMined N stx e1 = (Ok rc, e2) \<and>
           (rc_Status rc = ReceiptStatusSuccessful \<longleftrightarrow> is_ok (exec Z D s t (obs e))) \<and>
           obs e2 = run_all Z D [(s, t)] (obs e)))"

text \<open>What a read of a contract answers.\<close>

definition eth_answers :: "('sk, 'stx) lib \<Rightarrow> ('e, 'stx) net \<Rightarrow> address \<Rightarrow> abi \<Rightarrow> string \<Rightarrow> any list \<Rightarrow> 'e \<Rightarrow> any \<Rightarrow> bool" where
  "eth_answers L N to a m args e v \<longleftrightarrow>
     (\<exists>data out. Pack L a m args = Ok data \<and> fst (CallContract N \<lparr>cm_From = 0, cm_To = to, cm_Data = data\<rparr> e) = Ok out \<and>
        Unpack L a m out = Ok [v])"

definition shows_supply :: "'b tokens_lib \<Rightarrow> ('sk, 'stx) lib \<Rightarrow> ('e, 'stx) net \<Rightarrow> ('e \<Rightarrow> 'b chain) \<Rightarrow> address \<Rightarrow> abi \<Rightarrow> bool" where
  "shows_supply Z L N obs to a \<longleftrightarrow>
     (\<forall>e t. ch_token (obs e) to = Some t \<and> totalSupply Z t < 2 ^ 256 \<longrightarrow>
        eth_answers L N to a ''totalSupply'' [] e (ABigInt (int (totalSupply Z t))))"

definition shows_token :: "'b tokens_lib \<Rightarrow> ('sk, 'stx) lib \<Rightarrow> ('e, 'stx) net \<Rightarrow> ('e \<Rightarrow> 'b chain) \<Rightarrow> address \<Rightarrow> bool" where
  "shows_token Z L N obs to \<longleftrightarrow>
     (\<forall>e t. ch_token (obs e) to = Some t \<longrightarrow>
        (\<exists>n. eth_answers L N to DepositToken_abi ''name'' [] e (AString n)) \<and>
        eth_answers L N to DepositToken_abi ''decimals'' [] e (AUint8 (tk_decimals t)) \<and>
        (\<forall>a. balanceOf Z t a < 2 ^ 256 \<longrightarrow>
           eth_answers L N to DepositToken_abi ''balanceOf'' [AAddress a] e (ABigInt (int (balanceOf Z t a)))))"

definition node_views :: "'b tokens_lib \<Rightarrow> ('sk, 'stx) lib \<Rightarrow> deployment \<Rightarrow> ('e, 'stx) net \<Rightarrow> ('e \<Rightarrow> 'b chain) \<Rightarrow> bool" where
  "node_views Z L dep N obs \<longleftrightarrow>
     shows_token Z L N obs (dep_DepositToken dep) \<and>
     shows_supply Z L N obs (dep_DepositToken dep) DepositToken_abi \<and>
     shows_supply Z L N obs (dep_ReserveLedger dep) ReserveLedger_abi"

text \<open>A bank's key is the key of its address: a transaction signed with it is that account's, and
  has the fields it was built with.\<close>

definition signers_ok :: "('sk, 'stx) lib \<Rightarrow> env \<Rightarrow> bool" where
  "signers_ok L env \<longleftrightarrow>
     (\<forall>b \<in> {BankA L env, BankB L env}. \<forall>k. loadKey L (bank_KeyID b) = Ok k \<longrightarrow> key_address k = bank_Address b \<and>
        (\<forall>tx sig stx. cryptoSign L (SignerHash L tx) (key_priv k) = Ok sig \<and> WithSignature L tx sig = Ok stx \<longrightarrow>
           Sender L stx = Ok (bank_Address b) \<and> StxTo L stx = Some (tx_To tx) \<and> StxData L stx = tx_Data tx \<and>
           StxNonce L stx = tx_Nonce tx \<and> StxGas L stx = tx_Gas tx))"

text \<open>An address's text is not empty and has no ampersand.\<close>

definition address_text_ok :: "('sk, 'stx) lib \<Rightarrow> bool" where
  "address_text_ok L \<longleftrightarrow> (\<forall>a. AddressHex L a \<noteq> [] \<and> CHR ''&'' \<notin> set (AddressHex L a))"

text \<open>The demo's system on such a node.\<close>

definition live_system :: "'b tokens_lib \<Rightarrow> deployed \<Rightarrow> ('sk, 'stx) lib \<Rightarrow> env \<Rightarrow> 'sk routers \<Rightarrow> deployment \<Rightarrow> ('e, 'stx) net
    \<Rightarrow> ('e \<Rightarrow> 'b chain) \<Rightarrow> bool" where
  "live_system Z D L env R dep N obs \<longleftrightarrow>
     hexutil_ok L \<and> signer_ok L \<and> signing_ok L \<and> pack_ok L \<and> unpack_ok L \<and> address_hex_ok L \<and> address_text_ok L \<and>
     signers_ok L env \<and> urls_apart L env \<and> urls_parse L env \<and> routers_started L env R \<and>
     node_reads N \<and> node_keeps N obs \<and> node_mines Z D L dep N obs \<and> node_views Z L dep N obs"

section \<open>Reads\<close>

lemma call_keeps_chain:
  "node_keeps N obs \<Longrightarrow> call L N to a m args w = (r, w') \<Longrightarrow> obs (w_env w') = obs (w_env w)"
  unfolding node_keeps_def node_view_def call_def net_call_def
  by (auto simp: Let_def split: res.splits prod.splits) (metis snd_conv)+

lemma readUint_keeps_chain:
  "node_keeps N obs \<Longrightarrow> readUint L N to a m args w = (r, w') \<Longrightarrow> obs (w_env w') = obs (w_env w)"
  by (auto simp: readUint_def split: res.splits prod.splits dest: call_keeps_chain)

lemma readString_keeps_chain:
  "node_keeps N obs \<Longrightarrow> readString L N to a m w = (r, w') \<Longrightarrow> obs (w_env w') = obs (w_env w)"
  by (auto simp: readString_def split: res.splits prod.splits dest: call_keeps_chain)

lemma call_answers:
  assumes "eth_answers L N to a m args (w_env w) v"
  obtains w' where "call L N to a m args w = (Ok [v], w')"
proof -
  from assms obtain data out where a: "Pack L a m args = Ok data" "Unpack L a m out = Ok [v]"
    "fst (CallContract N \<lparr>cm_From = 0, cm_To = to, cm_Data = data\<rparr> (w_env w)) = Ok out"
    unfolding eth_answers_def by blast
  then show thesis
    using that by (cases "CallContract N \<lparr>cm_From = 0, cm_To = to, cm_Data = data\<rparr> (w_env w)") (simp add: call_def net_call_def)
qed

text \<open>Reading a number or a text the contract answers, with the chain as it was.\<close>

lemma readUint_answers:
  assumes "node_keeps N obs" and "eth_answers L N to a m args (w_env w) v" and "uint_value [v] = Done (Ok i)"
  obtains w' where "readUint L N to a m args w = (Done (Ok i), w')" "obs (w_env w') = obs (w_env w)"
proof -
  obtain w' where "call L N to a m args w = (Ok [v], w')" using call_answers [OF assms(2)] .
  with assms(3) have "readUint L N to a m args w = (Done (Ok i), w')" by (simp add: readUint_def)
  from that [OF this readUint_keeps_chain [OF assms(1) this]] show thesis .
qed

lemma readString_answers:
  assumes "node_keeps N obs" and "eth_answers L N to a m [] (w_env w) (AString n)"
  obtains w' where "readString L N to a m w = (Done (Ok n), w')" "obs (w_env w') = obs (w_env w)"
proof -
  obtain w' where "call L N to a m [] w = (Ok [AString n], w')" using call_answers [OF assms(2)] .
  then have "readString L N to a m w = (Done (Ok n), w')" by (simp add: readString_def)
  from that [OF this readString_keeps_chain [OF assms(1) this]] show thesis .
qed

section \<open>Writes\<close>

lemma node_call:
  assumes "\<forall>e. is_ok (fst (f e))" and "\<forall>e. V (snd (f e)) = V e"
  obtains x v where "net_call ev f w = (Ok x, v)" "f (w_env w) = (Ok x, w_env v)" "V (w_env v) = V (w_env w)"
proof -
  obtain x e where f: "f (w_env w) = (Ok x, e)" using assms(1) by (metis is_ok_iff prod.collapse)
  moreover have "V e = V (w_env w)" using assms(2) f by (metis snd_conv)
  ultimately show thesis
    by (intro that [of x "\<lparr>w_env = e, w_trace = w_trace w @ [ev]\<rparr>"]) (simp_all add: net_call_def)
qed

text \<open>Assembling and broadcasting a signed transaction.\<close>

lemma assemble_mines:
  assumes "node_mines Z D L dep N obs" and "WithSignature L tx sig = Ok stx"
    and "Sender L stx = Ok s" and "StxTo L stx = Some (tx_To tx)" and "StxData L stx = tx_Data tx"
    and "acceptable L N s (tx_To tx) stx (w_env w)"
    and "call_of L dep t = Some (tx_To tx, tx_Data tx)" and "call_fits t"
  shows "\<exists>x v. assembleBroadcast L N op tx sig addr w = (Ok x, v) \<and> tr_Op x = op \<and> tr_SignedBy x = addr \<and>
           (tr_Status x = ''success'' \<longleftrightarrow> is_ok (exec Z D s t (obs (w_env w)))) \<and>
           obs (w_env v) = run_all Z D [(s, t)] (obs (w_env w))"
proof -
  have "Sender L stx = Ok s \<and> StxTo L stx = Some (tx_To tx) \<and> acceptable L N s (tx_To tx) stx (w_env w) \<and>
      call_of L dep t = Some (tx_To tx, StxData L stx) \<and> call_fits t"
    using assms(3-8) by simp
  from assms(1) [unfolded node_mines_def, rule_format, OF this] obtain e1 rc e2 where m: "SendTransaction N stx (w_env w) = (Ok (), e1)" "WaitMined N stx e1 = (Ok rc, e2)"
    "rc_Status rc = ReceiptStatusSuccessful \<longleftrightarrow> is_ok (exec Z D s t (obs (w_env w)))"
    "obs e2 = run_all Z D [(s, t)] (obs (w_env w))"
    by blast
  show ?thesis
    unfolding m(4) [symmetric] m(3) [symmetric] by (simp add: assembleBroadcast_def assms(2) net_call_def m(1,2))
qed

lemma router_net_assemble: "assembleBroadcast L (router_net L env R N) op tx sig addr w = assembleBroadcast L N op tx sig addr w"
  unfolding assembleBroadcast_def router_net_fields ..

text \<open>The gas limit a service asks for covers the estimate it is doubled from.\<close>

lemma gas_limit_covers:
  assumes "\<forall>g. est = Ok g \<longrightarrow> unat g < 2 ^ 63" and "tx = unsigned_tx nonce fee (ok_or 800000 est) to data"
  shows "case est of Ok g \<Rightarrow> g \<le> tx_Gas tx | Err _ \<Rightarrow> 1600000 \<le> tx_Gas tx"
  using gas_limit_is_twice_the_estimate [OF assms(1), of nonce fee to data] assms(2)
  by (cases est) (simp_all add: word_le_nat_alt)

text \<open>The whole pipeline of a bank's service: the call runs on the chain, sent by the bank.\<close>

lemma live_write:
  assumes "live_system Z D L env R dep N obs" and "call_of L dep t = Some (to, data)" and "call_fits t"
  shows "\<exists>x v. buildSignBroadcast L (router_net L env R N) (bank_service L env dep issuer) op to data w = (Done (Ok x), v) \<and>
           tr_Op x = op \<and> tr_SignedBy x = AddressHex L (bank_Address (bank_of L env issuer)) \<and>
           (tr_Status x = ''success'' \<longleftrightarrow> is_ok (exec Z D (bank_Address (bank_of L env issuer)) t (obs (w_env w)))) \<and>
           obs (w_env v) = run_all Z D [(bank_Address (bank_of L env issuer), t)] (obs (w_env w))"
proof -
  let ?N = "router_net L env R N" and ?s = "bank_service L env dep issuer" and ?b = "bank_of L env issuer"
  let ?a = "bank_Address ?b" and ?m = "est_msg ?s to data" and ?V = "node_view N obs"
  note l = assms(1) [unfolded live_system_def]
  have node: "node_reads N" "node_keeps N obs" "node_mines Z D L dep N obs" using l by blast+
  have ok: "\<forall>e. is_ok (fst (PendingNonceAt N ?a e))" "\<forall>e. is_ok (fst (HeaderByNumber N e))"
    and bound: "\<forall>g. fst (EstimateGas N m e) = Ok g \<longrightarrow> unat g < 2 ^ 63" for m e
    using node(1) unfolding node_reads_def by blast+
  have keep: "\<forall>e. ?V (snd (PendingNonceAt N ?a e)) = ?V e" "\<forall>e. ?V (snd (HeaderByNumber N e)) = ?V e"
    "\<forall>e. ?V (snd (EstimateGas N ?m e)) = ?V e"
    using node(2) unfolding node_keeps_def by blast+
  obtain nonce w1 where c1: "net_call (ENonce ?a) (PendingNonceAt N ?a) w = (Ok nonce, w1)"
    "PendingNonceAt N ?a (w_env w) = (Ok nonce, w_env w1)" "?V (w_env w1) = ?V (w_env w)"
    by (rule node_call [OF ok(1) keep(1)])
  obtain head w2 where c2: "net_call EHead (HeaderByNumber N) w1 = (Ok head, w2)" "?V (w_env w2) = ?V (w_env w1)"
    by (rule node_call [OF ok(2) keep(2)])
  obtain est w3 where c3: "net_call (EEstimate ?m) (EstimateGas N ?m) w2 = (est, w3)" by fastforce
  then have e3: "EstimateGas N ?m (w_env w2) = (est, w_env w3)" by (auto simp: net_call_def split: prod.splits)
  with keep(3) have k3: "?V (w_env w3) = ?V (w_env w2)" by (metis snd_conv)
  define tx where "tx = unsigned_tx nonce (base_fee head) (ok_or 800000 est) to data"
  have tx: "tx_To tx = to" "tx_Data tx = data" "tx_Nonce tx = nonce" by (simp_all add: tx_def unsigned_tx_def)
  have len: "length (SignerHash L tx) = 32" using l by (simp add: signer_ok_def)
  obtain k sig w4 where k: "loadKey L (bank_KeyID ?b) = Ok k" "cryptoSign L (SignerHash L tx) (key_priv k) = Ok sig"
    "routerSign L ?N ?s (SignerHash L tx) w3 = (Done (Ok (sig, AddressHex L (key_address k))), w4)" "w_env w4 = w_env w3"
    using router_net_routerSign [OF _ _ _ refl len, where env = env and R = R and issuer = issuer and dep = dep and N = N and w = w3] l
    by (metis sv_bank_service(1))
  obtain stx where stx: "WithSignature L tx sig = Ok stx"
    using l k(2) unfolding signing_ok_def is_ok_iff by blast
  have "?b \<in> {BankA L env, BankB L env}" by (simp add: bank_of_def)
  then have own: "key_address k = ?a" "Sender L stx = Ok ?a" "StxTo L stx = Some (tx_To tx)" "StxData L stx = tx_Data tx"
    "StxNonce L stx = tx_Nonce tx" "StxGas L stx = tx_Gas tx"
    using l k(1,2) stx unfolding signers_ok_def by blast+
  have same: "?V (w_env w4) = ?V (w_env w)" "?V (w_env w4) = ?V (w_env w2)" using c1(3) c2(2) k3 k(4) by simp_all
  then have "fst (PendingNonceAt N ?a (w_env w4)) = Ok nonce" and est: "fst (EstimateGas N ?m (w_env w4)) = est"
    using c1(2) e3 unfolding node_view_def by (metis fst_conv Pair_inject)+
  moreover have "case est of Ok g \<Rightarrow> g \<le> tx_Gas tx | Err _ \<Rightarrow> 1600000 \<le> tx_Gas tx"
    using gas_limit_covers [OF _ tx_def] bound [of ?m "w_env w4"] unfolding est by blast
  ultimately have acc: "acceptable L N ?a (tx_To tx) stx (w_env w4)"
    using own(4-6) tx by (cases est) (simp_all add: acceptable_def)
  have "buildSignBroadcast L ?N ?s op to data w =
      (case assembleBroadcast L N op tx sig (AddressHex L ?a) w4 of (r, w) \<Rightarrow> (Done r, w))"
    using c1(1) c2(1) c3 k(3) own(1) by (simp add: buildSignBroadcast_def Let_def tx_def router_net_assemble)
  moreover have "obs (w_env w4) = obs (w_env w)" using same(1) by (simp add: node_view_def)
  ultimately show ?thesis
    using assemble_mines [OF node(3) stx own(2-4) acc, of t op "AddressHex L ?a"] assms(2,3) tx by auto
qed

text \<open>A write that the contracts let through.\<close>

definition receipted :: "('sk, 'stx) lib \<Rightarrow> bank \<Rightarrow> string \<Rightarrow> tx_result \<Rightarrow> bool" where
  "receipted L b op x \<longleftrightarrow> tr_Op x = op \<and> tr_Status x = ''success'' \<and> tr_SignedBy x = AddressHex L (bank_Address b)"

lemma live_write_Ok:
  assumes "live_system Z D L env R dep N obs" and "call_of L dep t = Some (to, data)" and "call_fits t"
    and "exec Z D (bank_Address (bank_of L env issuer)) t (obs (w_env w)) = Ok c"
  obtains x v where "buildSignBroadcast L (router_net L env R N) (bank_service L env dep issuer) op to data w = (Done (Ok x), v)"
    "receipted L (bank_of L env issuer) op x" "obs (w_env v) = c"
  using live_write [OF assms(1-3), of issuer op w] assms(4) that by (auto simp: receipted_def simp del: exec.simps)

lemma exec_all_Cons_Ok:
  "exec_all Z D ((s, t) # ts) c = Ok c' \<longleftrightarrow> (\<exists>d. exec Z D s t c = Ok d \<and> exec_all Z D ts d = Ok c')"
  by (simp add: andThen_Ok_iff del: exec.simps)

text \<open>Packing what the demo sends.\<close>

lemma live_packs:
  assumes "live_system Z D L env R dep N obs"
  shows "\<exists>data. call_of L dep (RegistryWhitelist i a True) = Some (dep_AuthRegistry dep, data) \<and>
           Pack L AuthRegistry_abi ''modifyPolicyWhitelist'' [AUint64 i, AAddress a, ABool True] = Ok data"
    and "n < 2 ^ 256 \<Longrightarrow> \<exists>data. call_of L dep (AuthorityMint sc a n) = Some (dep_TokenAuthority dep, data) \<and>
           Pack L TokenAuthority_abi ''mint'' [AAddress sc, AAddress a, ABigInt (int n)] = Ok data"
    and "n < 2 ^ 256 \<Longrightarrow> \<exists>data. call_of L dep (TokenTransfer sc a n) = Some (sc, data) \<and>
           Pack L DepositToken_abi ''transfer'' [AAddress a, ABigInt (int n)] = Ok data"
proof -
  have p: "pack_ok L" using assms by (simp add: live_system_def)
  then obtain d where "Pack L AuthRegistry_abi ''modifyPolicyWhitelist'' [AUint64 i, AAddress a, ABool True] = Ok d"
    unfolding pack_ok_def is_ok_iff by blast
  then show "\<exists>data. call_of L dep (RegistryWhitelist i a True) = Some (dep_AuthRegistry dep, data) \<and>
      Pack L AuthRegistry_abi ''modifyPolicyWhitelist'' [AUint64 i, AAddress a, ABool True] = Ok data"
    by (simp add: packed_def)
  assume "n < 2 ^ 256"
  then have "int n < int (2 ^ 256)" by (simp only: of_nat_less_iff)
  then have n: "0 \<le> int n \<and> int n < 2 ^ 256" by (simp only: of_nat_power of_nat_numeral) simp
  with p obtain d1 d2 where d: "Pack L TokenAuthority_abi ''mint'' [AAddress sc, AAddress a, ABigInt (int n)] = Ok d1"
    "Pack L DepositToken_abi ''transfer'' [AAddress a, ABigInt (int n)] = Ok d2"
    unfolding pack_ok_def is_ok_iff by blast
  show "\<exists>data. call_of L dep (AuthorityMint sc a n) = Some (dep_TokenAuthority dep, data) \<and>
      Pack L TokenAuthority_abi ''mint'' [AAddress sc, AAddress a, ABigInt (int n)] = Ok data"
    by (simp add: packed_def d(1))
  show "\<exists>data. call_of L dep (TokenTransfer sc a n) = Some (sc, data) \<and>
      Pack L DepositToken_abi ''transfer'' [AAddress a, ABigInt (int n)] = Ok data"
    by (simp add: packed_def d(2))
qed

text \<open>The loop of \<open>Authorize\<close>.\<close>

lemma live_authorize_loop:
  assumes "live_system Z D L env R dep N obs"
    and "exec_all Z D (map (\<lambda>(p, tag). (bank_Address (bank_of L env issuer), RegistryWhitelist p a True)) steps) (obs (w_env w)) = Ok c"
  shows "\<exists>xs v. authorize_loop L (router_net L env R N) (bank_service L env dep issuer) a steps out w = (Done (Ok (out @ xs)), v) \<and>
           list_all2 (\<lambda>(p, tag). receipted L (bank_of L env issuer) tag) steps xs \<and> obs (w_env v) = c"
  using assms(2)
proof (induction steps arbitrary: out w)
  case (Cons st steps)
  obtain p tag where st: "st = (p, tag)" by (cases st)
  obtain data where d: "call_of L dep (RegistryWhitelist p a True) = Some (dep_AuthRegistry dep, data)"
    "Pack L AuthRegistry_abi ''modifyPolicyWhitelist'' [AUint64 p, AAddress a, ABool True] = Ok data"
    using live_packs(1) [OF assms(1)] by blast
  from Cons.prems obtain c1 where c1: "exec Z D (bank_Address (bank_of L env issuer)) (RegistryWhitelist p a True) (obs (w_env w)) = Ok c1"
    "exec_all Z D (map (\<lambda>(p, tag). (bank_Address (bank_of L env issuer), RegistryWhitelist p a True)) steps) c1 = Ok c"
    unfolding st by (auto simp: exec_all_Cons_Ok simp del: exec.simps exec_all.simps)
  obtain x v where b: "buildSignBroadcast L (router_net L env R N) (bank_service L env dep issuer) tag (dep_AuthRegistry dep) data w = (Done (Ok x), v)"
    "receipted L (bank_of L env issuer) tag x" "obs (w_env v) = c1"
    using live_write_Ok [OF assms(1) d(1) _ c1(1)] by auto
  with c1(2) Cons.IH [of v "out @ [x]"] obtain xs u where
    "authorize_loop L (router_net L env R N) (bank_service L env dep issuer) a steps (out @ [x]) v = (Done (Ok (out @ [x] @ xs)), u)"
    "list_all2 (\<lambda>(p, tag). receipted L (bank_of L env issuer) tag) steps xs" "obs (w_env u) = c" by auto
  with b d(2) show ?case by (intro exI [of _ "x # xs"] exI [of _ u]) (simp add: st)
qed simp

end
