(* ===== verification/Live_Steps.thy ===== *)
theory Live_Steps
  imports Chain_Node
begin

text \<open>
  What the demo's requests do to the chain, one lemma per request: the composed system of Network
  on a node that runs the contracts answers each with what the chain holds and leaves the chain the
  contracts make of it.
\<close>

section \<open>The writes\<close>

lemma rs_body_writeJSON [simp]: "rs_body (writeJSON s v) = Json v"
  by (simp add: writeJSON_def)

text \<open>What the demo decodes of a result.\<close>

definition tx_seen :: "tx_result \<Rightarrow> demo_tx" where
  "tx_seen x = \<lparr>dt_Op = tr_Op x, dt_TxHash = tr_TxHash x, dt_Status = tr_Status x, dt_BlockNumber = tr_BlockNumber x,
     dt_SignedBy = tr_SignedBy x\<rparr>"

lemma tx_result_decodes:
  "\<exists>v. decode txResult (tx_result_json x) (zero_val txResult) = (v, False) \<and> demo_tx_of v = tx_seen x"
proof -
  let ?fs = "[(''op'', SStr), (''txHash'', SStr), (''status'', SStr), (''blockNumber'', SStr), (''signedBy'', SStr)]"
  have "match_field ?fs ''op'' = Some (''op'', SStr)" "match_field ?fs ''txHash'' = Some (''txHash'', SStr)"
    "match_field ?fs ''status'' = Some (''status'', SStr)" "match_field ?fs ''blockNumber'' = Some (''blockNumber'', SStr)"
    "match_field ?fs ''signedBy'' = Some (''signedBy'', SStr)" "match_field ?fs ''gasUsed'' = None"
    by (simp_all add: match_field_def upper_char_def capitals)
  then show ?thesis by (simp add: txResult_def tx_result_json_def demo_tx_of_def tx_seen_def)
qed

lemma tx_results_decode:
  "\<exists>vs. decode_elems txResult (map tx_result_json xs) = (vs, False) \<and> map demo_tx_of vs = map tx_seen xs"
proof (induction xs)
  case (Cons x xs)
  obtain v where "decode txResult (tx_result_json x) (zero_val txResult) = (v, False)" "demo_tx_of v = tx_seen x"
    using tx_result_decodes by blast
  with Cons show ?case by auto
qed simp


text \<open>The JSON of a write's body and what its handler decodes.\<close>

lemma to_amount_decodes:
  "decodeToAmount L \<lparr>rq_method = m, rq_path = p, rq_query = q,
     rq_body = Json (jmap [(''to'', JStr a), (''amount'', JStr (big_String n))])\<rparr> = Ok (HexToAddress L a, n)"
proof -
  have "Json (jmap [(''to'', JStr a), (''amount'', JStr (big_String n))]) =
      Json (JObj [(''amount'', JStr (big_String n)), (''to'', JStr a)])" by (simp add: jmap_def)
  then show ?thesis by (simp add: decodeToAmount_client big_SetString_String)
qed

text \<open>\<open>/authorize\<close>: the account is let into both policies.\<close>

lemma live_authorize:
  assumes "live_system Z D L env R dep N obs"
    and "exec_all Z D (onboard_txs dep (bank_Address (BankA L env)) a) (obs e) = Ok c"
  shows "\<exists>xs e'. HttpDo (demo_net L env R dep N)
             (post_req (bank_DepositSvcURL (BankA L env) @ ''/authorize'') (jmap [(''account'', JStr (AddressHex L a))])) e =
           (Ok (writeJSON 200 (JArr (map tx_result_json xs))), e') \<and>
         list_all2 (receipted L (BankA L env)) [''authorize:transfer'', ''authorize:mint-recipient''] xs \<and> obs e' = c"
proof -
  let ?s = "bank_service L env dep True" and ?b = "Json (jmap [(''account'', JStr (AddressHex L a))])"
  let ?r = "\<lparr>rq_method = ''POST'', rq_path = ''/authorize'', rq_query = query_value [], rq_body = ?b\<rparr>"
  note l = assms(1) [unfolded live_system_def]
  have dec: "decode_body account_body (rq_body ?r) = (DStruct [(''account'', DStr (AddressHex L a))], None)"
    by (simp add: jmap_def decode_body_def account_body_def match_field_def)
  have A: "bank_of L env True = BankA L env" by (simp add: bank_of_def)
  have role: "requireRole L ?s RoleIssuer ''authorize'' = None"
    by (rule requireRole_same) (simp add: bank_of_def BankA_def)
  have "map (\<lambda>(p, tag). (bank_Address (bank_of L env True), RegistryWhitelist p a True)) (authorize_steps ?s) =
      onboard_txs dep (bank_Address (BankA L env)) a"
    by (simp add: authorize_steps_def onboard_txs_def A)
  then obtain xs v where v: "authorize_loop L (router_net L env R N) ?s a (authorize_steps ?s) [] \<lparr>w_env = e, w_trace = []\<rparr> = (Done (Ok ([] @ xs)), v)"
    "list_all2 (\<lambda>(p, tag). receipted L (BankA L env) tag) (authorize_steps ?s) xs" "obs (w_env v) = c"
    using live_authorize_loop [OF assms(1), of True a "authorize_steps ?s" "\<lparr>w_env = e, w_trace = []\<rparr>" c "[]"] assms(2) A by auto
  have "h_authorize L (router_net L env R N) ?s ?r \<lparr>w_env = e, w_trace = []\<rparr> = (Done (writeJSON 200 (JArr (map tx_result_json xs))), v)"
    using dec role v(1) l by (simp add: h_authorize_def Authorize_def respond_def address_hex_ok_def)
  moreover have "list_all2 (receipted L (BankA L env)) [''authorize:transfer'', ''authorize:mint-recipient''] xs"
    using v(2) by (auto simp: authorize_steps_def list_all2_Cons1)
  moreover have "HttpDo (demo_net L env R dep N) (post_req (bank_DepositSvcURL (BankA L env) @ ''/authorize'') (jmap [(''account'', JStr (AddressHex L a))])) e =
      serve_deposit L (router_net L env R N) ?s ?r e"
    using demo_net_deposit [of L env "''/authorize''" R dep N "''POST''" True ?b e] l A by (simp add: post_req_def)
  ultimately show ?thesis using v(3) by (auto simp: serve_deposit_def deposit_routes)
qed

text \<open>\<open>/mint\<close> at the issuer and \<open>/transfer\<close> at either bank.\<close>

lemma live_mint:
  assumes "live_system Z D L env R dep N obs" and "n < 2 ^ 256"
    and "exec Z D (bank_Address (BankA L env)) (AuthorityMint (dep_DepositToken dep) a n) (obs e) = Ok c"
  shows "\<exists>x e'. HttpDo (demo_net L env R dep N) (post_req (bank_DepositSvcURL (BankA L env) @ ''/mint'')
             (jmap [(''to'', JStr (AddressHex L a)), (''amount'', JStr (big_String (int n)))])) e =
           (Ok (writeJSON 200 (tx_result_json x)), e') \<and> receipted L (BankA L env) ''mint'' x \<and> obs e' = c"
proof -
  let ?s = "bank_service L env dep True" and ?b = "Json (jmap [(''to'', JStr (AddressHex L a)), (''amount'', JStr (big_String (int n)))])"
  let ?r = "\<lparr>rq_method = ''POST'', rq_path = ''/mint'', rq_query = query_value [], rq_body = ?b\<rparr>"
  note l = assms(1) [unfolded live_system_def]
  have A: "bank_of L env True = BankA L env" by (simp add: bank_of_def)
  have role: "requireRole L ?s RoleIssuer ''mint'' = None"
    by (rule requireRole_same) (simp add: bank_of_def BankA_def)
  obtain data where d: "call_of L dep (AuthorityMint (dep_DepositToken dep) a n) = Some (dep_TokenAuthority dep, data)"
    "Pack L TokenAuthority_abi ''mint'' [AAddress (dep_DepositToken dep), AAddress a, ABigInt (int n)] = Ok data"
    using live_packs(2) [OF assms(1,2)] by blast
  have "call_fits (AuthorityMint (dep_DepositToken dep) a n)" using assms(2) by simp
  from live_write_Ok [OF assms(1) d(1) this, of True "\<lparr>w_env = e, w_trace = []\<rparr>" c "''mint''"] assms(3)
  obtain x v where v: "buildSignBroadcast L (router_net L env R N) ?s ''mint'' (dep_TokenAuthority dep) data \<lparr>w_env = e, w_trace = []\<rparr> = (Done (Ok x), v)"
    "receipted L (BankA L env) ''mint'' x" "obs (w_env v) = c"
    unfolding A world.select_convs by blast
  have "h_mint L (router_net L env R N) ?s ?r \<lparr>w_env = e, w_trace = []\<rparr> = (Done (writeJSON 200 (tx_result_json x)), v)"
    using role d(2) v(1) l by (simp add: h_mint_def to_amount_decodes Mint_def respond_def address_hex_ok_def)
  moreover have "HttpDo (demo_net L env R dep N) (post_req (bank_DepositSvcURL (BankA L env) @ ''/mint'')
      (jmap [(''to'', JStr (AddressHex L a)), (''amount'', JStr (big_String (int n)))])) e = serve_deposit L (router_net L env R N) ?s ?r e"
    using demo_net_deposit [of L env "''/mint''" R dep N "''POST''" True ?b e] l A by (simp add: post_req_def)
  ultimately show ?thesis using v(2,3) by (auto simp: serve_deposit_def deposit_routes)
qed

lemma live_transfer:
  assumes "live_system Z D L env R dep N obs" and "n < 2 ^ 256"
    and "exec Z D (bank_Address (bank_of L env issuer)) (TokenTransfer (dep_DepositToken dep) a n) (obs e) = Ok c"
  shows "\<exists>x e'. HttpDo (demo_net L env R dep N) (post_req (bank_DepositSvcURL (bank_of L env issuer) @ ''/transfer'')
             (jmap [(''to'', JStr (AddressHex L a)), (''amount'', JStr (big_String (int n)))])) e =
           (Ok (writeJSON 200 (tx_result_json x)), e') \<and> receipted L (bank_of L env issuer) ''transfer'' x \<and> obs e' = c"
proof -
  let ?s = "bank_service L env dep issuer" and ?b = "Json (jmap [(''to'', JStr (AddressHex L a)), (''amount'', JStr (big_String (int n)))])"
  let ?r = "\<lparr>rq_method = ''POST'', rq_path = ''/transfer'', rq_query = query_value [], rq_body = ?b\<rparr>"
  note l = assms(1) [unfolded live_system_def]
  obtain data where d: "call_of L dep (TokenTransfer (dep_DepositToken dep) a n) = Some (dep_DepositToken dep, data)"
    "Pack L DepositToken_abi ''transfer'' [AAddress a, ABigInt (int n)] = Ok data"
    using live_packs(3) [OF assms(1,2)] by blast
  have "call_fits (TokenTransfer (dep_DepositToken dep) a n)" using assms(2) by simp
  from live_write_Ok [OF assms(1) d(1) this, of issuer "\<lparr>w_env = e, w_trace = []\<rparr>" c "''transfer''"] assms(3)
  obtain x v where v: "buildSignBroadcast L (router_net L env R N) ?s ''transfer'' (dep_DepositToken dep) data \<lparr>w_env = e, w_trace = []\<rparr> = (Done (Ok x), v)"
    "receipted L (bank_of L env issuer) ''transfer'' x" "obs (w_env v) = c"
    unfolding world.select_convs by blast
  have "h_transfer L (router_net L env R N) ?s ?r \<lparr>w_env = e, w_trace = []\<rparr> = (Done (writeJSON 200 (tx_result_json x)), v)"
    using d(2) v(1) l by (simp add: h_transfer_def to_amount_decodes Transfer_def respond_def address_hex_ok_def)
  moreover have "HttpDo (demo_net L env R dep N) (post_req (bank_DepositSvcURL (bank_of L env issuer) @ ''/transfer'')
      (jmap [(''to'', JStr (AddressHex L a)), (''amount'', JStr (big_String (int n)))])) e = serve_deposit L (router_net L env R N) ?s ?r e"
    using demo_net_deposit [of L env "''/transfer''" R dep N "''POST''" issuer ?b e] l by (simp add: post_req_def)
  ultimately show ?thesis using v(2,3) by (auto simp: serve_deposit_def deposit_routes)
qed

section \<open>The reads\<close>

text \<open>What the chain says of the deposit token and the ledger, in amounts a uint256 holds.\<close>

definition holds :: "'b tokens_lib \<Rightarrow> deployment \<Rightarrow> (address \<Rightarrow> nat) \<Rightarrow> nat \<Rightarrow> nat \<Rightarrow> 'b chain \<Rightarrow> bool" where
  "holds Z dep bal supply backing c \<longleftrightarrow> supply < 2 ^ 256 \<and> backing < 2 ^ 256 \<and> (\<forall>a. bal a < 2 ^ 256) \<and>
     (\<exists>ts tr. ch_token c (dep_DepositToken dep) = Some ts \<and> ch_token c (dep_ReserveLedger dep) = Some tr \<and>
        balanceOf Z ts = bal \<and> totalSupply Z ts = supply \<and> totalSupply Z tr = backing)"

lemma query_account: "CHR ''&'' \<notin> set a \<Longrightarrow> query_value (''account='' @ a) ''account'' = a"
  by (simp add: query_value_def strings_Split_no_sep)

lemma demo_net_balance:
  assumes "urls_apart L env" and "CHR ''&'' \<notin> set a"
  shows "HttpDo (demo_net L env R dep N) \<lparr>hq_method = ''GET'', hq_url = bank_DepositSvcURL (BankA L env) @ ''/balance?account='' @ a, hq_body = Text []\<rparr> e =
           serve_deposit L (router_net L env R N) (bank_service L env dep True)
             \<lparr>rq_method = ''GET'', rq_path = ''/balance'', rq_query = query_value (''account='' @ a), rq_body = Text []\<rparr> e"
  by (simp add: demo_net_def Let_def deliver_def)

text \<open>\<open>/balance\<close>: the balance the token contract has.\<close>

lemma live_balance:
  assumes "live_system Z D L env R dep N obs" and "holds Z dep bal supply backing (obs e)"
  shows "\<exists>e' j. HttpDo (demo_net L env R dep N)
      \<lparr>hq_method = ''GET'', hq_url = bank_DepositSvcURL (BankA L env) @ ''/balance?account='' @ AddressHex L a, hq_body = Text []\<rparr> e =
        (Ok (writeJSON 200 (jmap [(''account'', JStr j), (''raw'', JStr (big_String (int (bal a))))])), e') \<and> obs e' = obs e"
proof -
  let ?s = "bank_service L env dep True" and ?q = "query_value (''account='' @ AddressHex L a)"
  let ?r = "\<lparr>rq_method = ''GET'', rq_path = ''/balance'', rq_query = ?q, rq_body = Text []\<rparr>"
  note l = assms(1) [unfolded live_system_def]
  have at: "AddressHex L a \<noteq> []" "CHR ''&'' \<notin> set (AddressHex L a)"
    using l unfolding address_text_ok_def by blast+
  note q = query_account [OF at(2)] at
  from assms(2) obtain ts where ts: "ch_token (obs e) (dep_DepositToken dep) = Some ts" "balanceOf Z ts a = bal a" "bal a < 2 ^ 256"
    unfolding holds_def by auto
  then have answers: "eth_answers L N (dep_DepositToken dep) DepositToken_abi ''balanceOf'' [AAddress a] (w_env \<lparr>w_env = e, w_trace = []\<rparr>) (ABigInt (int (bal a)))"
    using l unfolding node_views_def shows_token_def world.select_convs by metis
  have k: "node_keeps N obs" using l by blast
  obtain w' where w': "readUint L N (dep_DepositToken dep) DepositToken_abi ''balanceOf'' [AAddress a] \<lparr>w_env = e, w_trace = []\<rparr> =
      (Done (Ok (int (bal a))), w')" "obs (w_env w') = obs e"
    using readUint_answers [OF k answers] by auto
  have "h_balance L (router_net L env R N) ?s ?r \<lparr>w_env = e, w_trace = []\<rparr> =
      (Done (writeJSON 200 (jmap [(''account'', JStr (AddressHex L a)), (''raw'', JStr (big_String (int (bal a))))])), w')"
    using q w'(1) l by (simp add: h_balance_def BalanceOf_def address_hex_ok_def)
  with w'(2) show ?thesis
    using demo_net_balance [OF _ at(2), of L env R dep N e] l by (auto simp: serve_deposit_def deposit_routes)
qed

text \<open>\<open>/info\<close>: the two supplies.\<close>

lemma live_info:
  assumes "live_system Z D L env R dep N obs" and "holds Z dep bal supply backing (obs e)"
  shows "\<exists>i t e'. HttpDo (demo_net L env R dep N) \<lparr>hq_method = ''GET'', hq_url = bank_DepositSvcURL (BankA L env) @ ''/info'', hq_body = Text []\<rparr> e =
      (Ok (writeJSON 200 (jmap
         [(''bank'', JStr (bank_Label (BankA L env))), (''address'', JStr (AddressHex L (bank_Address (BankA L env)))),
          (''token'', token_info_json i), (''balance'', JStr t)])), e') \<and>
      ti_TotalSupply i = big_String (int supply) \<and> ti_ReserveLedgerSupply i = big_String (int backing) \<and> obs e' = obs e"
proof -
  let ?s = "bank_service L env dep True" and ?dt = "dep_DepositToken dep" and ?w = "\<lparr>w_env = e, w_trace = []\<rparr>" and ?N = "router_net L env R N"
  let ?r = "\<lparr>rq_method = ''GET'', rq_path = ''/info'', rq_query = query_value [], rq_body = Text []\<rparr>"
  note l = assms(1) [unfolded live_system_def]
  have u: "unpack_ok L" and k: "node_keeps N obs" using l by blast+
  from assms(2) obtain ts tr where c: "ch_token (obs e) ?dt = Some ts" "ch_token (obs e) (dep_ReserveLedger dep) = Some tr"
    "totalSupply Z ts = supply" "totalSupply Z tr = backing" "supply < 2 ^ 256" "backing < 2 ^ 256" unfolding holds_def by auto
  have answers: "\<exists>n. eth_answers L N ?dt DepositToken_abi ''name'' [] e' (AString n)"
    "eth_answers L N ?dt DepositToken_abi ''decimals'' [] e' (AUint8 (tk_decimals ts))"
    "eth_answers L N ?dt DepositToken_abi ''totalSupply'' [] e' (ABigInt (int supply))"
    "eth_answers L N (dep_ReserveLedger dep) ReserveLedger_abi ''totalSupply'' [] e' (ABigInt (int backing))" if "obs e' = obs e" for e'
    using l c that unfolding node_views_def shows_token_def shows_supply_def by metis+
  obtain n w1 where n: "readString L N ?dt DepositToken_abi ''name'' ?w = (Done (Ok n), w1)" "obs (w_env w1) = obs e"
    using answers(1) [of "w_env ?w"] readString_answers [OF k] by (metis world.select_convs(1))
  obtain y w2 where y: "readString L N ?dt DepositToken_abi ''symbol'' w1 = (Done y, w2)"
    using readString_cases [OF u] token_outputs by blast
  have e2: "obs (w_env w2) = obs e" using readString_keeps_chain [OF k y] n(2) by simp
  obtain w3 where d: "readUint L N ?dt DepositToken_abi ''decimals'' [] w2 = (Done (Ok (uint (tk_decimals ts))), w3)" "obs (w_env w3) = obs e"
    using readUint_answers [OF k answers(2) [OF e2]] e2 by auto
  obtain w4 where s: "readUint L N ?dt DepositToken_abi ''totalSupply'' [] w3 = (Done (Ok (int supply)), w4)" "obs (w_env w4) = obs e"
    using readUint_answers [OF k answers(3) [OF d(2)]] d(2) by auto
  obtain w5 where b: "readUint L N (dep_ReserveLedger dep) ReserveLedger_abi ''totalSupply'' [] w4 = (Done (Ok (int backing)), w5)" "obs (w_env w5) = obs e"
    using readUint_answers [OF k answers(4) [OF s(2)]] s(2) by auto
  obtain i where i: "TokenInfo L ?N ?s ?w = (Done (Ok i), w5)"
    "ti_TotalSupply i = big_String (int supply)" "ti_ReserveLedgerSupply i = big_String (int backing)"
    using n(1) y d(1) s(1) b(1) by (simp add: TokenInfo_def bigp_String_def)
  obtain t w6 where t: "BalanceOf L ?N ?s (bank_Address (BankA L env)) w5 = (Done t, w6)"
    unfolding BalanceOf_def using readUint_cases [OF u] token_outputs by blast
  have e6: "obs (w_env w6) = obs e"
    using t b(2) readUint_keeps_chain [OF k] unfolding BalanceOf_def router_net_reads by metis
  have A: "bank_of L env True = BankA L env" by (simp add: bank_of_def)
  have "h_info L ?N ?s ?r ?w = (Done (writeJSON 200 (jmap
         [(''bank'', JStr (bank_Label (BankA L env))), (''address'', JStr (AddressHex L (bank_Address (BankA L env)))),
          (''token'', token_info_json i), (''balance'', JStr (bigp_String (ptr t)))])), w6)"
    using i(1) t by (simp add: h_info_def A)
  with i(2,3) e6 show ?thesis
    using demo_net_deposit [of L env "''/info''" R dep N "''GET''" True "Text []" e] l A by (auto simp: serve_deposit_def deposit_routes)
qed

end
