(* ===== verification/Sample_Node.thy ===== *)
theory Sample_Node
  imports Chain_Node
begin

text \<open>
  A computable node for the witness of the live demo: its environment is the chain with the next
  nonce of every account. It refuses a transaction with another nonce, lets one run out of gas whose
  limit is below its estimate, and for the others reads the calldata of the sample library back and
  runs the contracts on it.
\<close>

section \<open>The node\<close>

definition decode_call :: "address \<Rightarrow> bytes \<Rightarrow> tx option" where
  "decode_call to data =
     (if take 4 data = name_bytes ''modifyPolicyWhitelist'' then
        (case args_values [arg ''policyId'' (UintTy 64), arg ''account'' AddressTy, arg ''allowed'' BoolTy] (drop 4 data) of
           Ok [AUint64 i, AAddress a, ABool v] \<Rightarrow> Some (RegistryWhitelist i a v)
         | _ \<Rightarrow> None)
      else if take 4 data = name_bytes ''mint'' then
        (case args_values [arg ''stablecoin'' AddressTy, arg ''to'' AddressTy, arg ''amount'' (UintTy 256)] (drop 4 data) of
           Ok [AAddress sc, AAddress a, ABigInt n] \<Rightarrow> Some (AuthorityMint sc a (nat n))
         | _ \<Rightarrow> None)
      else
        (case args_values [arg ''to'' AddressTy, arg ''amount'' (UintTy 256)] (drop 4 data) of
           Ok [AAddress a, ABigInt n] \<Rightarrow> Some (TokenTransfer to a (nat n))
         | _ \<Rightarrow> None))"

definition read_token :: "'b tokens_lib \<Rightarrow> 'b token \<Rightarrow> bytes \<Rightarrow> bytes" where
  "read_token Z t data =
     (if take 4 data = name_bytes ''balanceOf'' then uint_bytes (int (balanceOf Z t (word_of_int (big_SetBytes (drop 4 data)))))
      else if take 4 data = name_bytes ''totalSupply'' then uint_bytes (int (totalSupply Z t))
      else if take 4 data = name_bytes ''decimals'' then uint_bytes (uint (tk_decimals t))
      else replicate 32 87)"

type_synonym 'b node_env = "'b chain \<times> (address \<Rightarrow> u64)"

definition sample_receipt :: "bool \<Rightarrow> receipt" where
  "sample_receipt went_through = \<lparr>rc_Status = (if went_through then 1 else 0), rc_BlockNumber = Some 309,
     rc_BlockHash = [], rc_GasUsed = 21000, rc_EffectiveGasPrice = None, rc_Logs = []\<rparr>"

text \<open>The sender of a transaction the node takes: its nonce is the next one.\<close>

definition takes :: "DynamicFeeTx \<times> bytes \<Rightarrow> 'b node_env \<Rightarrow> address res" where
  "takes stx e =
     (case Sender sample_lib stx of
        Err x \<Rightarrow> Err x
      | Ok s \<Rightarrow> if tx_Nonce (fst stx) = snd e s then Ok s else Err ''nonce too low'')"

definition mine :: "'b tokens_lib \<Rightarrow> deployed \<Rightarrow> DynamicFeeTx \<times> bytes \<Rightarrow> 'b node_env \<Rightarrow> receipt res \<times> 'b node_env" where
  "mine Z D stx e =
     (case takes stx e of
        Err x \<Rightarrow> (Err x, e)
      | Ok s \<Rightarrow>
          (let n = (snd e)(s := snd e s + 1) in
           case decode_call (tx_To (fst stx)) (tx_Data (fst stx)) of
             None \<Rightarrow> (Ok (sample_receipt False), (fst e, n))
           | Some t \<Rightarrow>
               if tx_Gas (fst stx) < 21000 then (Ok (sample_receipt False), (fst e, n))
               else (Ok (sample_receipt (is_ok (exec Z D s t (fst e)))), (run_all Z D [(s, t)] (fst e), n))))"

definition live_node :: "'b tokens_lib \<Rightarrow> deployed \<Rightarrow> ('b node_env, DynamicFeeTx \<times> bytes) net" where
  "live_node Z D = \<lparr>
     PendingNonceAt = (\<lambda>a e. (Ok (snd e a), e)),
     HeaderByNumber = (\<lambda>e. (Ok \<lparr>hd_BaseFee = None, hd_Time = 0\<rparr>, e)),
     HeaderByHash = (\<lambda>_ e. (Ok None, e)),
     EstimateGas = (\<lambda>_ e. (Ok 21000, e)),
     SendTransaction = (\<lambda>stx e. (case takes stx e of Ok _ \<Rightarrow> Ok () | Err x \<Rightarrow> Err x, e)),
     WaitMined = mine Z D,
     CallContract = (\<lambda>m e. (case ch_token (fst e) (cm_To m) of None \<Rightarrow> Err ''execution reverted'' | Some t \<Rightarrow> Ok (read_token Z t (cm_Data m)), e)),
     BlockNumber = (\<lambda>e. (Ok 309, e)),
     BlockByNumber = (\<lambda>_ e. (Err ''not found'', e)),
     TransactionByHash = (\<lambda>_ e. (Err ''not found'', e)),
     TransactionReceipt = (\<lambda>_ e. (Err ''not found'', e)),
     HttpDo = (\<lambda>_ e. (Err ''connection refused'', e))\<rparr>"

section \<open>It satisfies the hypotheses\<close>

lemma sample_Pack:
  "Pack sample_lib a m args = (case abi_lookup a m of None \<Rightarrow> Err ''method not found''
     | Some e \<Rightarrow> if length args = length (inputs e) then Ok (name_bytes m @ concat (map any_bytes args))
                 else Err ''argument count mismatch'')"
  by (simp add: sample_lib_def)

lemma sample_Unpack:
  "Unpack sample_lib a m bs = (case abi_lookup a m of None \<Rightarrow> Err ''method not found'' | Some e \<Rightarrow> args_values (outputs e) bs)"
  by (simp add: sample_lib_def)

lemma nat_fits: "n < 2 ^ 256 \<Longrightarrow> int n < 2 ^ 256"
  by (metis of_nat_less_iff of_nat_numeral of_nat_power)

lemma decode_call_of:
  assumes "call_of sample_lib dep t = Some (to, data)" and "call_fits t"
  shows "decode_call to data = Some t"
proof -
  note d = sample_Pack abi_lookup_def AuthRegistry_abi_def TokenAuthority_abi_def DepositToken_abi_def packed_def
  show ?thesis
  proof (cases t)
    case (RegistryWhitelist i a v)
    with assms(1) have "data = name_bytes ''modifyPolicyWhitelist'' @ concat (map any_bytes [AUint64 i, AAddress a, ABool v])"
      by (simp add: d)
    moreover have "args_values [arg ''policyId'' (UintTy 64), arg ''account'' AddressTy, arg ''allowed'' BoolTy]
        (concat (map any_bytes [AUint64 i, AAddress a, ABool v])) = Ok [AUint64 i, AAddress a, ABool v]"
      by (rule args_values_bytes) simp
    ultimately show ?thesis
      using RegistryWhitelist by (simp del: any_bytes.simps args_values.simps concat.simps list.map add: decode_call_def)
  next
    case (AuthorityMint sc a n)
    with assms(1) have "data = name_bytes ''mint'' @ concat (map any_bytes [AAddress sc, AAddress a, ABigInt (int n)])"
      by (simp add: d)
    moreover have "args_values [arg ''stablecoin'' AddressTy, arg ''to'' AddressTy, arg ''amount'' (UintTy 256)]
        (concat (map any_bytes [AAddress sc, AAddress a, ABigInt (int n)])) = Ok [AAddress sc, AAddress a, ABigInt (int n)]"
      by (rule args_values_bytes) (use assms(2) AuthorityMint nat_fits in simp)
    ultimately show ?thesis
      using AuthorityMint by (simp del: any_bytes.simps args_values.simps concat.simps list.map add: decode_call_def sample_names)
  next
    case (TokenTransfer sc a n)
    with assms(1) have "to = sc" "data = name_bytes ''transfer'' @ concat (map any_bytes [AAddress a, ABigInt (int n)])"
      by (simp_all add: d)
    moreover have "args_values [arg ''to'' AddressTy, arg ''amount'' (UintTy 256)]
        (concat (map any_bytes [AAddress a, ABigInt (int n)])) = Ok [AAddress a, ABigInt (int n)]"
      by (rule args_values_bytes) (use assms(2) TokenTransfer nat_fits in simp)
    ultimately show ?thesis
      using TokenTransfer by (simp del: any_bytes.simps args_values.simps concat.simps list.map add: decode_call_def sample_names)
  qed (use assms(1) in simp_all)
qed

lemma live_node_mines: "node_mines (Z :: 'b tokens_lib) D sample_lib dep (live_node Z D) fst"
  unfolding node_mines_def
proof (intro allI impI, elim conjE)
  fix stx :: "DynamicFeeTx \<times> bytes" and s t to and e :: "'b node_env"
  assume s: "Sender sample_lib stx = Ok s" and t: "StxTo sample_lib stx = Some to"
    and a: "acceptable sample_lib (live_node Z D) s to stx e"
    and call: "call_of sample_lib dep t = Some (to, StxData sample_lib stx)" "call_fits t"
  obtain tx sig where stx: "stx = (tx, sig)" by (cases stx)
  have f: "StxTo sample_lib (tx, sig) = Some (tx_To tx)" "StxData sample_lib (tx, sig) = tx_Data tx"
    "StxNonce sample_lib (tx, sig) = tx_Nonce tx" "StxGas sample_lib (tx, sig) = tx_Gas tx"
    by (simp_all add: sample_lib_def)
  have gas: "\<not> tx_Gas tx < 21000" and nonce: "tx_Nonce tx = snd e s"
    using a by (simp_all add: acceptable_def live_node_def stx f not_less)
  have "decode_call (tx_To tx) (tx_Data tx) = Some t" using decode_call_of [OF call] t by (simp add: stx f)
  moreover have "takes stx e = Ok s" using s nonce by (simp add: takes_def stx)
  ultimately have "SendTransaction (live_node Z D) stx e = (Ok (), e)"
    "WaitMined (live_node Z D) stx e = (Ok (sample_receipt (is_ok (exec Z D s t (fst e)))),
       (run_all Z D [(s, t)] (fst e), (snd e)(s := snd e s + 1)))"
    using gas by (simp_all add: live_node_def mine_def stx Let_def del: exec.simps run_all.simps)
  then show "\<exists>e1 rc e2. SendTransaction (live_node Z D) stx e = (Ok (), e1) \<and> WaitMined (live_node Z D) stx e1 = (Ok rc, e2) \<and>
      (rc_Status rc = ReceiptStatusSuccessful \<longleftrightarrow> is_ok (exec Z D s t (fst e))) \<and> fst e2 = run_all Z D [(s, t)] (fst e)"
    by (simp add: sample_receipt_def ReceiptStatusSuccessful_def del: exec.simps run_all.simps)
qed

lemma live_node_answers:
  "eth_answers sample_lib (live_node Z D) to a m args e v \<longleftrightarrow>
     (\<exists>data t. Pack sample_lib a m args = Ok data \<and> ch_token (fst e) to = Some t \<and> Unpack sample_lib a m (read_token Z t data) = Ok [v])"
  by (auto simp: eth_answers_def live_node_def split: option.split)

lemma take_any_bytes [simp]: "take 32 (any_bytes v) = any_bytes v"
  by simp

lemma live_node_views: "node_views Z sample_lib dep (live_node Z D) fst"
proof -
  note d = sample_Pack sample_Unpack abi_lookup_def DepositToken_abi_def ReserveLedger_abi_def
  have n: "name_bytes ''balanceOf'' \<noteq> name_bytes ''totalSupply''" "name_bytes ''balanceOf'' \<noteq> name_bytes ''decimals''"
    "name_bytes ''balanceOf'' \<noteq> name_bytes ''name''" "name_bytes ''totalSupply'' \<noteq> name_bytes ''decimals''"
    "name_bytes ''totalSupply'' \<noteq> name_bytes ''name''" "name_bytes ''decimals'' \<noteq> name_bytes ''name''"
    by (simp_all add: name_bytes_def)
  have amount: "n < 2 ^ 256 \<Longrightarrow> big_SetBytes (uint_bytes (int n)) = int n" for n
    by (simp add: big_SetBytes_uint_bytes nat_fits)
  have addr: "word_of_int (big_SetBytes (uint_bytes (uint a))) = a" for a :: address
    by (simp add: big_SetBytes_uint_bytes word_of_uint_mod [where 'a = 160, simplified])
  have byte: "word_of_int (big_SetBytes (uint_bytes (uint b))) = b" for b :: "8 word"
    by (simp add: big_SetBytes_uint_bytes word_of_uint_mod [where 'a = 8, simplified])
  have "shows_supply Z sample_lib (live_node Z D) fst to a" if "a = DepositToken_abi \<or> a = ReserveLedger_abi" for to a
    using that n amount by (auto simp: shows_supply_def live_node_answers d read_token_def)
  moreover have "shows_token Z sample_lib (live_node Z D) fst to" for to
    using n amount addr byte by (auto simp: shows_token_def live_node_answers d read_token_def)
  ultimately show ?thesis by (simp add: node_views_def)
qed

lemma sample_signers_ok: "signers_ok sample_lib empty_env"
proof -
  define ka where "ka = ''ac0974bec39a17e36ba4a6b4d238ff944bacb478cbed5efcae784d7bf4f2ff80''"
  define kb where "kb = ''59c6995e998f97a5a0044966f0945389dc9e86dae88c7a8412f4603b6b78690d''"
  have keys: "key_bytes ka = key_bytes ''ac0974bec39a17e36ba4a6b4d238ff94''" "key_bytes kb = key_bytes ''59c6995e998f97a5a0044966f0945389''"
    "key_bytes ka \<noteq> key_bytes kb" "length (key_bytes k) = 32" for k
    by (simp_all add: key_bytes_def ka_def kb_def)
  have sender: "Sender sample_lib (tx, sig) = (if take 32 (drop 32 sig) = key_bytes ka then Ok BANK_A
      else if take 32 (drop 32 sig) = key_bytes kb then Ok 0x70997970C51812dc3A010C7d01b50e0d17dc79C8 else Err ''invalid signature'')" for tx sig
    by (simp add: sample_lib_def keys(1,2) BANK_A_def)
  have sign: "cryptoSign sample_lib h k = (if length h = 32 then Ok (h @ key_bytes k @ [0])
      else Err ''hash is required to be exactly 32 bytes'')"
    and with_sig: "WithSignature sample_lib tx sig = (if length sig = 65 then Ok (tx, sig) else Err ''wrong size for signature'')"
    and stx: "StxTo sample_lib (tx, sig) = Some (tx_To tx)" "StxData sample_lib (tx, sig) = tx_Data tx"
      "StxNonce sample_lib (tx, sig) = tx_Nonce tx" "StxGas sample_lib (tx, sig) = tx_Gas tx" for h k tx sig
    by (simp_all add: sample_lib_def)
  have load: "loadKey sample_lib ''key://bank-a/issuer'' = Ok \<lparr>key_priv = ka, key_address = BANK_A\<rparr>"
    "loadKey sample_lib ''key://bank-b/holder'' = Ok \<lparr>key_priv = kb, key_address = 0x70997970C51812dc3A010C7d01b50e0d17dc79C8\<rparr>"
    by (simp_all add: loadKey_def keystore_def sample_lib_def sample_PubkeyToAddress_def ka_def kb_def BANK_A_def)
  have ids: "bank_KeyID (BankA sample_lib empty_env) = ''key://bank-a/issuer''" "bank_KeyID (BankB sample_lib empty_env) = ''key://bank-b/holder''"
    by (simp_all add: BankA_def BankB_def)
  show ?thesis
    unfolding signers_ok_def
    by (auto simp: ids load sample_bank_addresses sign with_sig stx sender keys(4) keys(3) [symmetric] split: if_splits)
qed

lemma sample_address_text_ok: "address_text_ok sample_lib"
  using hex_fixed_chars by (auto simp: address_text_ok_def sample_lib_def sample_AddressHex_def)

lemma sample_live_system: "live_system Z D sample_lib empty_env sample_routers dep (live_node Z D) fst"
proof -
  have "node_reads (live_node Z D)" by (simp add: node_reads_def live_node_def)
  moreover have "node_keeps (live_node Z D) fst" by (simp add: node_keeps_def node_view_def live_node_def)
  ultimately show ?thesis
    unfolding live_system_def
    by (intro conjI sample_hexutil_ok sample_signer_ok sample_signing_ok sample_pack_ok sample_unpack_ok sample_address_hex_ok
        sample_address_text_ok sample_signers_ok sample_urls_apart sample_urls_parse sample_routers_started live_node_mines live_node_views)
qed

end
