(* ===== verification/Live_Demo.thy ===== *)
theory Live_Demo
  imports Live_Steps Sample_Node
begin

text \<open>
  The demo, live: a run of the orchestrator against the whole system on a node that runs the
  contracts, from the chain the deployment script leaves to the settled one, with the report it
  prints. \<open>live\<close> is a total-correctness triple over the chain and the printed lines; its rules
  follow the monad, and one lemma per step of the scenario discharges them.
\<close>

section \<open>Triples\<close>

lemma printed_append [simp]: "printed (es @ fs) = printed es @ printed fs"
  by (simp add: printed_def List.map_filter_def)

text \<open>Some of the lines, in their order, are the described ones.\<close>

definition reports :: "(string \<Rightarrow> bool) list \<Rightarrow> string list \<Rightarrow> bool" where
  "reports S ls \<longleftrightarrow> (\<exists>ts. subseq ts ls \<and> list_all2 (\<lambda>d t. d t) S ts)"

lemma reports_Nil [simp]: "reports [] ls"
  by (auto simp: reports_def)

lemma reports_append: "reports S ls \<Longrightarrow> reports T ks \<Longrightarrow> reports (S @ T) (ls @ ks)"
  unfolding reports_def by (meson list_all2_appendI list_emb_append_mono)

lemma reports_one: "d t \<Longrightarrow> reports [d] [t]"
  by (auto simp: reports_def)

text \<open>\<open>live obs c m P S c'\<close>: from the chain \<open>c\<close> the program \<open>m\<close> returns a value with \<open>P\<close>, prints lines
  that the descriptions \<open>S\<close> fit, in order and among others, and leaves the chain \<open>c'\<close>.\<close>

definition live :: "('e \<Rightarrow> 'c) \<Rightarrow> 'c \<Rightarrow> ('e, 'stx, 'a) io \<Rightarrow> ('a \<Rightarrow> bool) \<Rightarrow> (string \<Rightarrow> bool) list \<Rightarrow> 'c \<Rightarrow> bool" where
  "live obs c m P S c' \<longleftrightarrow>
     (\<forall>w. obs (w_env w) = c \<longrightarrow>
        (\<exists>r w' es. run_state m w = (r, w') \<and> P r \<and> obs (w_env w') = c' \<and> emits w w' es \<and>
           reports S (printed es)))"

definition says :: "string \<Rightarrow> string \<Rightarrow> bool" where
  "says t s \<longleftrightarrow> s = t"

text \<open>The line of a write that went through, with its operation and signer.\<close>

definition successful :: "string \<Rightarrow> string \<Rightarrow> demo_tx \<Rightarrow> bool" where
  "successful signer op t \<longleftrightarrow> dt_Op t = op \<and> dt_Status t = ''success'' \<and> dt_SignedBy t = signer"

definition went_through :: "string \<Rightarrow> string \<Rightarrow> string \<Rightarrow> string \<Rightarrow> bool" where
  "went_through colour signer op s \<longleftrightarrow> (\<exists>t. successful signer op t \<and> s = tx_line colour t)"

lemma live_return: "P x \<Longrightarrow> live obs c (State_Monad.return x) P [] c"
  by (auto simp: live_def intro: exI [of _ "[]"])

lemma live_bind:
  fixes m :: "('e, 'stx, 'a) io" and f :: "'a \<Rightarrow> ('e, 'stx, 'b) io"
  assumes "live obs c m P S c1" and "\<And>x. P x \<Longrightarrow> live obs c1 (f x) Q T c2"
  shows "live obs c (State_Monad.bind m f) Q (S @ T) c2"
  unfolding live_def
proof (intro allI impI)
  fix w :: "('e, 'stx) world"
  assume "obs (w_env w) = c"
  with assms(1) obtain r v es where m: "run_state m w = (r, v)" "P r" "obs (w_env v) = c1" "emits w v es"
    "reports S (printed es)" unfolding live_def by blast
  with assms(2) [of r] obtain r' u fs where f: "run_state (f r) v = (r', u)" "Q r'" "obs (w_env u) = c2" "emits v u fs"
    "reports T (printed fs)" unfolding live_def by blast
  show "\<exists>r w' es. run_state (State_Monad.bind m f) w = (r, w') \<and> Q r \<and> obs (w_env w') = c2 \<and> emits w w' es \<and>
      reports (S @ T) (printed es)"
    using m(1) f(1-3) emits_trans [OF m(4) f(4)] reports_append [OF m(5) f(5)]
    by (intro exI [of _ r'] exI [of _ u] exI [of _ "es @ fs"]) simp
qed

lemma live_then: "live obs c m P S c1 \<Longrightarrow> live obs c1 k Q T c2 \<Longrightarrow> live obs c (State_Monad.bind m (\<lambda>_. k)) Q (S @ T) c2"
  by (rule live_bind)

lemma live_weaken: "live obs c m P S c' \<Longrightarrow> (\<And>x. P x \<Longrightarrow> Q x) \<Longrightarrow> live obs c m Q S c'"
  unfolding live_def by blast

lemma live_unsaid: "live obs c m P S c' \<Longrightarrow> live obs c m P [] c'"
  unfolding live_def by (blast intro: reports_Nil)

lemma live_printf: "live obs c (printf t) (\<lambda>_. True) [says t] c"
  by (auto simp: live_def emits_def says_def intro: reports_one)

lemmas live_quiet = live_printf [THEN live_unsaid]

lemma live_act: "(\<And>e. obs e = c \<Longrightarrow> P (fst (f e)) \<and> obs (snd (f e)) = c') \<Longrightarrow> live obs c (act ev f) P [] c'"
  unfolding live_def act_def net_call_def emits_def by (auto split: prod.split) (metis fst_conv, metis snd_conv)

text \<open>The same, of a program that does not panic.\<close>

abbreviation live_ok :: "('e \<Rightarrow> 'c) \<Rightarrow> 'c \<Rightarrow> ('e, 'stx, 'a outcome) io \<Rightarrow> ('a \<Rightarrow> bool) \<Rightarrow> (string \<Rightarrow> bool) list \<Rightarrow> 'c \<Rightarrow> bool" where
  "live_ok obs c m P S c' \<equiv> live obs c m (\<lambda>r. \<exists>x. r = Done x \<and> P x) S c'"

lemma live_done: "P x \<Longrightarrow> live_ok obs c (State_Monad.return (Done x)) P [] c"
  by (rule live_return) simp

lemma live_proceed:
  "live_ok obs c m P S c1 \<Longrightarrow> (\<And>x. P x \<Longrightarrow> live obs c1 (f x) Q T c2) \<Longrightarrow> live obs c (proceed m f) Q (S @ T) c2"
  unfolding proceed_def by (erule live_bind) auto

lemma live_http:
  fixes N :: "('e, 'stx) net"
  assumes "url_parses (hq_url q)" and "\<And>e. obs e = c \<Longrightarrow> \<exists>r e'. HttpDo N q e = (Ok r, e') \<and> P r \<and> obs e' = c'"
  shows "live_ok obs c (http_do N q) (\<lambda>x. \<exists>r. x = Ok r \<and> P r) [] c'"
  unfolding live_def
proof (intro allI impI)
  fix w :: "('e, 'stx) world" assume "obs (w_env w) = c"
  from assms(2) [OF this] obtain r e' where "HttpDo N q (w_env w) = (Ok r, e')" "P r" "obs e' = c'" by blast
  then show "\<exists>r w' es. run_state (http_do N q) w = (r, w') \<and> (\<exists>x. r = Done x \<and> (\<exists>r. x = Ok r \<and> P r)) \<and> obs (w_env w') = c' \<and>
      emits w w' es \<and> reports [] (printed es)"
    by (simp add: http_do_run [OF assms(1)] emits_def)
qed

lemma live_guard: "e = None \<Longrightarrow> live obs c k Q S c' \<Longrightarrow> live obs c (guard_ok e k) Q S c'"
  by (simp add: guard_ok_def)

lemma live_getJSON:
  assumes "url_parses url" and "\<And>e. obs e = c \<Longrightarrow> \<exists>r e'. HttpDo N \<lparr>hq_method = ''GET'', hq_url = url, hq_body = Text []\<rparr> e = (Ok r, e') \<and>
       (\<exists>v. decode_body out (rs_body r) = (v, None) \<and> P v) \<and> obs e' = c'"
  shows "live_ok obs c (getJSON L N url out) (\<lambda>p. snd p = None \<and> P (fst p)) [] c'"
  unfolding getJSON_def
  by (rule live_proceed [OF live_http [OF _ assms(2)], where T = "[]", unfolded append_Nil]) (auto simp: assms(1) intro!: live_return)

lemma live_postJSON:
  assumes "url_parses url" and "\<And>e. obs e = c \<Longrightarrow> \<exists>r e'. HttpDo N (post_req url b) e = (Ok r, e') \<and>
       (rs_status r = 200 \<and> (\<exists>v. decode_body out (rs_body r) = (v, None) \<and> P v)) \<and> obs e' = c'"
  shows "live_ok obs c (postJSON L N url b out) (\<lambda>p. snd p = None \<and> P (fst p)) [] c'"
  unfolding postJSON_def post_req_def [symmetric]
  by (rule live_proceed [OF live_http [OF _ assms(2)], where T = "[]", unfolded append_Nil])
    (auto simp: post_answer_def post_req_def assms(1) intro!: live_return)

section \<open>Reading and reporting\<close>

lemma live_wait_all:
  assumes "urls_apart L env" and "set us \<subseteq> set (service_urls L env)" and "demo_urls_parse L env"
  shows "live_ok obs c (wait_all (demo_net L env R dep N) H us) (\<lambda>e. e = None) [] c"
  using assms(2)
proof (induction us)
  case (Cons u us)
  then have u: "u \<in> set (service_urls L env)" by simp
  have ok: "\<exists>r e'. HttpDo (demo_net L env R dep N) \<lparr>hq_method = ''GET'', hq_url = u @ ''/health'', hq_body = Text []\<rparr> e = (Ok r, e') \<and>
      rs_status r = 200 \<and> obs e' = obs e" for e
  proof -
    from u have "u = bank_SigningRouterURL (bank_of L env True) \<or> u = bank_SigningRouterURL (bank_of L env False) \<or>
        u = bank_DepositSvcURL (bank_of L env True) \<or> u = bank_DepositSvcURL (bank_of L env False)"
      by (auto simp: service_urls_def bank_of_def)
    then consider b where "u = bank_SigningRouterURL (bank_of L env b)" | b where "u = bank_DepositSvcURL (bank_of L env b)"
      by blast
    then show ?thesis
    proof cases
      case 1
      from demo_net_router_health [OF assms(1) 1, of R dep N e] show ?thesis by auto
    next
      case 2
      then show ?thesis
        by (simp add: demo_net_deposit [OF assms(1)] serve_deposit_def deposit_routes h_health_def)
    qed
  qed
  have "live_ok obs c (http_do (demo_net L env R dep N) \<lparr>hq_method = ''GET'', hq_url = u @ ''/health'', hq_body = Text []\<rparr>)
      (\<lambda>x. \<exists>r. x = Ok r \<and> rs_status r = 200) [] c"
    by (intro live_http) (use ok demo_urls_parseD(1) [OF assms(3) u] in \<open>simp, metis\<close>)
  then have "live_ok obs c (wait_loop (demo_net L env R dep N) H u (Suc 79)) (\<lambda>e. e = None) ([] @ []) c"
    unfolding wait_loop.simps by (rule live_proceed) (auto intro: live_return)
  then have "live_ok obs c (waitHealthy (demo_net L env R dep N) H u) (\<lambda>e. e = None) [] c" by (simp add: waitHealthy_def)
  then have "live_ok obs c (wait_all (demo_net L env R dep N) H (u # us)) (\<lambda>e. e = None) ([] @ []) c"
    unfolding wait_all.simps by (rule live_proceed) (use Cons in auto)
  then show ?case by simp
qed (simp add: live_return)

lemma live_urls_parse: "live_system Z D L env R dep N obs \<Longrightarrow> demo_urls_parse L env"
  by (simp add: live_system_def urls_parse_def)

lemma live_demo_balanceOf:
  assumes "live_system Z D L env R dep N obs" and "holds Z dep bal supply backing c"
    and "AddressHex L a = bankB_hex L env \<or> AddressHex L a = merchant_hex L"
  shows "live_ok obs c (demo_balanceOf L (demo_net L env R dep N) env (AddressHex L a)) (\<lambda>s. s = big_String (int (bal a))) [] c"
proof -
  let ?P = "\<lambda>v. str_field ''raw'' v = big_String (int (bal a))"
  have d: "\<exists>v. decode_body raw_body (Json (jmap [(''account'', JStr j), (''raw'', JStr (big_String (int (bal a))))])) = (v, None) \<and> ?P v" for j
    by (simp add: jmap_def decode_body_def raw_body_def match_field_def)
  have "live_ok obs c (getJSON L (demo_net L env R dep N) (bank_DepositSvcURL (BankA L env) @ ''/balance?account='' @ AddressHex L a) raw_body)
      (\<lambda>p. snd p = None \<and> ?P (fst p)) [] c"
  proof (rule live_getJSON [OF demo_urls_parseD(3) [OF live_urls_parse [OF assms(1)] assms(3)]])
    fix e assume e: "obs e = c"
    with assms(2) have "holds Z dep bal supply backing (obs e)" by simp
    from live_balance [OF assms(1) this, of a] obtain e' j where
      "HttpDo (demo_net L env R dep N) \<lparr>hq_method = ''GET'', hq_url = bank_DepositSvcURL (BankA L env) @ ''/balance?account='' @ AddressHex L a, hq_body = Text []\<rparr> e =
        (Ok (writeJSON 200 (jmap [(''account'', JStr j), (''raw'', JStr (big_String (int (bal a))))])), e')" "obs e' = obs e" by blast
    with d [of j] e show "\<exists>r e'. HttpDo (demo_net L env R dep N)
        \<lparr>hq_method = ''GET'', hq_url = bank_DepositSvcURL (BankA L env) @ ''/balance?account='' @ AddressHex L a, hq_body = Text []\<rparr> e = (Ok r, e') \<and>
        (\<exists>v. decode_body raw_body (rs_body r) = (v, None) \<and> ?P v) \<and> obs e' = c"
      by (simp only: prod.inject res.inject rs_body_writeJSON ex_simps simp_thms) (metis rs_body_writeJSON)
  qed
  then have "live_ok obs c (demo_balanceOf L (demo_net L env R dep N) env (AddressHex L a)) (\<lambda>s. s = big_String (int (bal a))) ([] @ []) c"
    unfolding demo_balanceOf_def by (rule live_proceed) (auto simp: Let_def port_text intro: live_return)
  then show ?thesis by simp
qed

text \<open>What the demo decodes of \<open>/info\<close>.\<close>

lemma supplies_decoded_fields:
  "\<exists>v. decode_body supplies_body (Json (jmap
       [(''bank'', JStr a), (''address'', JStr b), (''token'', token_info_json i), (''balance'', JStr t)])) = (v, None) \<and>
     str_field ''totalSupply'' (struct_field ''token'' v) = ti_TotalSupply i \<and>
     str_field ''reserveLedgerSupply'' (struct_field ''token'' v) = ti_ReserveLedgerSupply i"
proof -
  have j: "jmap [(''bank'', JStr a), (''address'', JStr b), (''token'', token_info_json i), (''balance'', JStr t)] =
      JObj [(''address'', JStr b), (''balance'', JStr t), (''bank'', JStr a), (''token'', token_info_json i)]"
    by (simp add: jmap_def)
  have m: "match_field [(''totalSupply'', SStr), (''reserveLedgerSupply'', SStr)] ''name'' = None"
    "match_field [(''totalSupply'', SStr), (''reserveLedgerSupply'', SStr)] ''symbol'' = None"
    "match_field [(''totalSupply'', SStr), (''reserveLedgerSupply'', SStr)] ''decimals'' = None"
    "match_field [(''totalSupply'', SStr), (''reserveLedgerSupply'', SStr)] ''totalSupply'' = Some (''totalSupply'', SStr)"
    "match_field [(''totalSupply'', SStr), (''reserveLedgerSupply'', SStr)] ''reserveLedgerSupply'' = Some (''reserveLedgerSupply'', SStr)"
    "match_field [(''token'', SStruct fs)] ''token'' = Some (''token'', SStruct fs)"
    "match_field [(''token'', SStruct fs)] ''address'' = None"
    "match_field [(''token'', SStruct fs)] ''balance'' = None"
    "match_field [(''token'', SStruct fs)] ''bank'' = None" for fs
    by (simp_all add: match_field_def upper_char_def capitals)
  show ?thesis
    unfolding j by (simp add: decode_body_def supplies_body_def token_info_json_def m)
qed

text \<open>The four lines of a balance report, by the amounts as they are shown.\<close>

definition balance_report :: "('sk, 'stx) lib \<Rightarrow> env \<Rightarrow> string \<Rightarrow> string \<Rightarrow> string \<Rightarrow> string \<Rightarrow> string \<Rightarrow> (string \<Rightarrow> bool) list" where
  "balance_report L env title wallet merchant supply backing = map says
     [nl @ bold @ ''  '' @ title @ reset @ nl,
      ''    '' @ tint teal ''Bank B wallet'' @ ''   '' @ pad_left 16 wallet @ ''   '' @ dim @ bankB_hex L env @ reset @ nl,
      ''    Merchant          '' @ pad_left 16 merchant @ ''   '' @ dim @ merchant_hex L @ reset @ nl,
      dim @ ''    '' @ bar @ '' deposit-token supply '' @ supply @ ''  '' @ middle_dot @ ''  ReserveLedger backing '' @ backing @ reset @ nl]"

definition shown :: "nat \<Rightarrow> string" where
  "shown n = fmtWFUSD (big_String (int n))"

lemma live_supplies:
  assumes "live_system Z D L env R dep N obs" and "holds Z dep bal supply backing c"
  shows "live_ok obs c (getJSON L (demo_net L env R dep N) (bank_DepositSvcURL (BankA L env) @ ''/info'') supplies_body)
     (\<lambda>p. snd p = None \<and> (str_field ''totalSupply'' (struct_field ''token'' (fst p)) = big_String (int supply) \<and>
        str_field ''reserveLedgerSupply'' (struct_field ''token'' (fst p)) = big_String (int backing))) [] c"
proof (rule live_getJSON [OF demo_urls_parseD(2) [OF live_urls_parse [OF assms(1)]]])
  fix e assume "obs e = c"
  with assms(2) have "holds Z dep bal supply backing (obs e)" by simp
  from live_info [OF assms(1) this] \<open>obs e = c\<close>
  show "\<exists>r e'. HttpDo (demo_net L env R dep N) \<lparr>hq_method = ''GET'', hq_url = bank_DepositSvcURL (BankA L env) @ ''/info'', hq_body = Text []\<rparr> e = (Ok r, e') \<and>
      (\<exists>v. decode_body supplies_body (rs_body r) = (v, None) \<and> str_field ''totalSupply'' (struct_field ''token'' v) = big_String (int supply) \<and>
        str_field ''reserveLedgerSupply'' (struct_field ''token'' v) = big_String (int backing)) \<and> obs e' = c"
    using supplies_decoded_fields by (metis rs_body_writeJSON)
qed

lemma live_token:
  assumes "live_system Z D L env R dep N obs" and "holds Z dep bal supply backing c"
  shows "live_ok obs c (getJSON L (demo_net L env R dep N) (bank_DepositSvcURL (BankA L env) @ ''/info'') token_body) (\<lambda>p. snd p = None \<and> True) [] c"
proof (rule live_getJSON [OF demo_urls_parseD(2) [OF live_urls_parse [OF assms(1)]]])
  fix e assume "obs e = c"
  with assms(2) have "holds Z dep bal supply backing (obs e)" by simp
  from live_info [OF assms(1) this] \<open>obs e = c\<close>
  show "\<exists>r e'. HttpDo (demo_net L env R dep N) \<lparr>hq_method = ''GET'', hq_url = bank_DepositSvcURL (BankA L env) @ ''/info'', hq_body = Text []\<rparr> e = (Ok r, e') \<and>
      (\<exists>v. decode_body token_body (rs_body r) = (v, None) \<and> True) \<and> obs e' = c"
    using token_body_decodes by (metis rs_body_writeJSON prod.collapse)
qed

lemma live_showBalances:
  assumes "live_system Z D L env R dep N obs" and "holds Z dep bal supply backing c"
  shows "live_ok obs c (showBalances L (demo_net L env R dep N) env title) (\<lambda>p. p = (big_String (int supply), big_String (int backing)))
    (balance_report L env title (shown (bal (bank_Address (BankB L env)))) (shown (bal (Merchant L))) (shown supply) (shown backing)) c"
proof -
  have "live_ok obs c (demo_balanceOf L (demo_net L env R dep N) env (bankB_hex L env)) (\<lambda>s. s = big_String (int (bal (bank_Address (BankB L env))))) [] c"
    unfolding bankB_hex_def by (rule live_demo_balanceOf [OF assms]) (simp add: bankB_hex_def)
  note b = this
  have "live_ok obs c (demo_balanceOf L (demo_net L env R dep N) env (merchant_hex L)) (\<lambda>s. s = big_String (int (bal (Merchant L)))) [] c"
    unfolding merchant_hex_def by (rule live_demo_balanceOf [OF assms]) (simp add: merchant_hex_def)
  note m = this
  have "live_ok obs c (showBalances L (demo_net L env R dep N) env title) (\<lambda>p. p = (big_String (int supply), big_String (int backing)))
    ([] @ [] @ [] @ balance_report L env title (shown (bal (bank_Address (BankB L env)))) (shown (bal (Merchant L))) (shown supply) (shown backing)) c"
    unfolding showBalances_def balance_report_def shown_def list.map
  proof (rule live_proceed [OF b], rule live_proceed [OF m], rule live_proceed [OF live_supplies [OF assms]], goal_cases)
    case (1 bB mer p)
    from 1 show ?case
      by (auto simp: Let_def intro!: live_then [where S = "[_]", OF live_printf, unfolded append_Cons append_Nil] live_return)
  qed
  then show ?thesis by simp
qed

section \<open>Writing\<close>

lemma live_print_tx: "successful signer op t \<Longrightarrow> live obs c (print_tx colour t) (\<lambda>_. True) [went_through colour signer op] c"
  unfolding print_tx_def live_def
  by (auto simp: emits_def intro!: reports_one) (auto simp: went_through_def)

lemma live_print_txs:
  assumes "list_all2 (successful signer) ops ts"
  shows "live obs c (print_txs colour ts) (\<lambda>_. True) (map (went_through colour signer) ops) c"
  using assms
proof (induction rule: list_all2_induct)
  case (Cons op ops t ts)
  then show ?case using live_then [OF live_print_tx Cons.IH, of signer op t] by simp
qed (simp add: live_return)

lemma receipted_seen: "receipted L b op x \<Longrightarrow> successful (AddressHex L (bank_Address b)) op (tx_seen x)"
  by (simp add: receipted_def successful_def tx_seen_def)

text \<open>One write, posted and printed.\<close>

lemma live_write_step:
  assumes "url_parses url" and "\<And>e. obs e = c \<Longrightarrow> \<exists>x e'. HttpDo N (post_req url (jmap [(''to'', JStr a), (''amount'', JStr n)])) e =
        (Ok (writeJSON 200 (tx_result_json x)), e') \<and> receipted L b op x \<and> obs e' = c'"
  shows "live_ok obs c (write_step L' N url a n colour) (\<lambda>e. e = None) [went_through colour (AddressHex L (bank_Address b)) op] c'"
proof -
  let ?P = "\<lambda>v. successful (AddressHex L (bank_Address b)) op (demo_tx_of v)"
  have "live_ok obs c (postJSON L' N url (jmap [(''to'', JStr a), (''amount'', JStr n)]) txResult) (\<lambda>p. snd p = None \<and> ?P (fst p)) [] c'"
  proof (rule live_postJSON [OF assms(1)])
    fix e assume "obs e = c"
    from assms(2) [OF this] obtain x e' where x: "HttpDo N (post_req url (jmap [(''to'', JStr a), (''amount'', JStr n)])) e =
        (Ok (writeJSON 200 (tx_result_json x)), e')" "receipted L b op x" "obs e' = c'" by blast
    obtain v where "decode txResult (tx_result_json x) (zero_val txResult) = (v, False)" "demo_tx_of v = tx_seen x"
      using tx_result_decodes by blast
    with receipted_seen [OF x(2)] have "\<exists>v. decode_body txResult (Json (tx_result_json x)) = (v, None) \<and> ?P v"
      by (simp add: decode_body_def)
    with x(1,3) show "\<exists>r e'. HttpDo N (post_req url (jmap [(''to'', JStr a), (''amount'', JStr n)])) e = (Ok r, e') \<and>
        (rs_status r = 200 \<and> (\<exists>v. decode_body txResult (rs_body r) = (v, None) \<and> ?P v)) \<and> obs e' = c'" by simp
  qed
  then have "live_ok obs c (write_step L' N url a n colour) (\<lambda>e. e = None) ([] @ [went_through colour (AddressHex L (bank_Address b)) op] @ []) c'"
    unfolding write_step_def by (rule live_proceed) (auto intro!: live_then live_print_tx live_return simp del: append.simps append_Nil2)
  then show ?thesis by simp
qed

text \<open>Onboarding, for accounts by their addresses.\<close>

definition onboarded :: "('sk, 'stx) lib \<Rightarrow> env \<Rightarrow> string \<Rightarrow> (string \<Rightarrow> bool) list" where
  "onboarded L env who = says (dim @ ''    onboarded '' @ who @ reset @ nl) #
     map (went_through amber (AddressHex L (bank_Address (BankA L env)))) [''authorize:transfer'', ''authorize:mint-recipient'']"

lemma live_onboard:
  assumes "live_system Z D L env R dep N obs"
    and "exec_all Z D (concat (map (onboard_txs dep (bank_Address (BankA L env)) \<circ> snd) ts)) c = Ok c'"
  shows "live_ok obs c (onboard_loop L (demo_net L env R dep N) env (map (apsnd (AddressHex L)) ts)) (\<lambda>e. e = None)
           (concat (map (onboarded L env \<circ> fst) ts)) c'"
  using assms(2)
proof (induction ts arbitrary: c)
  case (Cons t ts)
  obtain who a where t: "t = (who, a)" by (cases t)
  let ?A = "bank_Address (BankA L env)" and ?ops = "[''authorize:transfer'', ''authorize:mint-recipient'']"
  let ?P = "\<lambda>v. list_all2 (successful (AddressHex L ?A)) ?ops (map demo_tx_of (slice_elems v))"
  let ?url = "bank_DepositSvcURL (BankA L env) @ ''/authorize''" and ?j = "jmap [(''account'', JStr (AddressHex L a))]"
  from Cons.prems obtain d where d: "exec_all Z D (onboard_txs dep ?A a) c = Ok d"
    "exec_all Z D (concat (map (onboard_txs dep ?A \<circ> snd) ts)) d = Ok c'"
    by (auto simp: t exec_all_append andThen_Ok_iff comp_def)
  have post: "live_ok obs c (postJSON L (demo_net L env R dep N) ?url ?j (SSlice txResult)) (\<lambda>p. snd p = None \<and> ?P (fst p)) [] d"
  proof (rule live_postJSON [OF demo_urls_parseD(4) [OF live_urls_parse [OF assms(1)]]])
    fix e assume "obs e = c"
    with d(1) have "exec_all Z D (onboard_txs dep ?A a) (obs e) = Ok d" by simp
    from live_authorize [OF assms(1) this] obtain xs e' where x: "HttpDo (demo_net L env R dep N) (post_req ?url ?j) e =
        (Ok (writeJSON 200 (JArr (map tx_result_json xs))), e')" "list_all2 (receipted L (BankA L env)) ?ops xs" "obs e' = d" by blast
    obtain vs where vs: "decode_elems txResult (map tx_result_json xs) = (vs, False)" "map demo_tx_of vs = map tx_seen xs"
      using tx_results_decode by blast
    have "list_all2 (successful (AddressHex L ?A)) ?ops (map demo_tx_of vs)"
      unfolding vs(2) list_all2_map2 using x(2) by (rule list_all2_mono) (rule receipted_seen)
    with vs(1) have "\<exists>v. decode_body (SSlice txResult) (Json (JArr (map tx_result_json xs))) = (v, None) \<and> ?P v"
      by (simp add: decode_body_def)
    with x(1,3) show "\<exists>r e'. HttpDo (demo_net L env R dep N) (post_req ?url ?j) e = (Ok r, e') \<and>
        (rs_status r = 200 \<and> (\<exists>v. decode_body (SSlice txResult) (rs_body r) = (v, None) \<and> ?P v)) \<and> obs e' = d" by simp
  qed
  have rest: "live_ok obs d (do { _ \<leftarrow> printf (dim @ ''    onboarded '' @ who @ reset @ nl);
          _ \<leftarrow> print_txs amber (map demo_tx_of (slice_elems v));
          onboard_loop L (demo_net L env R dep N) env (map (apsnd (AddressHex L)) ts) }) (\<lambda>e. e = None)
      ([says (dim @ ''    onboarded '' @ who @ reset @ nl)] @ map (went_through amber (AddressHex L ?A)) ?ops @
        concat (map (onboarded L env \<circ> fst) ts)) c'" if "?P v" for v
    by (rule live_then [OF live_printf live_then [OF live_print_txs [OF that] Cons.IH [OF d(2)]]])
  have "live_ok obs c (onboard_loop L (demo_net L env R dep N) env (map (apsnd (AddressHex L)) (t # ts))) (\<lambda>e. e = None)
      ([] @ ([says (dim @ ''    onboarded '' @ who @ reset @ nl)] @ map (went_through amber (AddressHex L ?A)) ?ops @
        concat (map (onboarded L env \<circ> fst) ts))) c'"
    unfolding t list.map apsnd_conv onboard_loop.simps
    by (rule live_proceed [OF post]) (use rest in \<open>auto split: option.split\<close>)
  then show ?case by (simp add: t onboarded_def comp_def)
qed (simp add: live_return)

section \<open>The checks\<close>

text \<open>Bank B's mint is refused by its own service, with the reason.\<close>

lemma refusal: "\<exists>e. requireRole L (bank_service L env dep False) RoleIssuer ''mint'' = Some e \<and> e \<noteq> []"
  by (simp add: requireRole_def bank_service_def BankB_def RoleHolder_def RoleIssuer_def)

lemma live_refused_mint:
  assumes "urls_apart L env" and "requireRole L (bank_service L env dep False) RoleIssuer ''mint'' = Some t" and "t \<noteq> []"
    and "demo_urls_parse L env"
  shows "live_ok obs c (postJSON L (demo_net L env R dep N) (bank_DepositSvcURL (BankB L env) @ ''/mint'')
            (jmap [(''to'', JStr a), (''amount'', JStr (big_String n))]) (SStruct [])) (\<lambda>p. snd p = Some t) [] c"
proof -
  let ?s = "bank_service L env dep False" and ?b = "Json (jmap [(''to'', JStr a), (''amount'', JStr (big_String n))])"
  let ?r = "\<lparr>rq_method = ''POST'', rq_path = ''/mint'', rq_query = query_value [], rq_body = ?b\<rparr>"
  have B: "bank_of L env False = BankB L env" by (simp add: bank_of_def)
  have "h_mint L (router_net L env R N) ?s ?r w = (Done (writeErr 400 t), w)" for w
    using assms(2) by (simp add: h_mint_def to_amount_decodes Mint_def respond_def)
  then have post: "HttpDo (demo_net L env R dep N) (post_req (bank_DepositSvcURL (BankB L env) @ ''/mint'')
      (jmap [(''to'', JStr a), (''amount'', JStr (big_String n))])) e = (Ok (writeErr 400 t), e)" for e
    using demo_net_deposit [OF assms(1), of "''/mint''" R dep N "''POST''" False ?b e] B
    by (simp add: post_req_def serve_deposit_def deposit_routes)
  have answer: "post_answer L (SStruct []) (writeErr 400 t) = (zero_val (SStruct []), Some t)"
    using assms(3) by (simp add: post_answer_def writeErr_def jmap_def decode_body_def error_body_def match_field_def Let_def)
  have "live_ok obs c (postJSON L (demo_net L env R dep N) (bank_DepositSvcURL (BankB L env) @ ''/mint'')
            (jmap [(''to'', JStr a), (''amount'', JStr (big_String n))]) (SStruct [])) (\<lambda>p. snd p = Some t) ([] @ []) c"
    unfolding postJSON_def post_req_def [symmetric]
  proof (rule live_proceed [OF live_http])
    show "url_parses (hq_url (post_req (bank_DepositSvcURL (BankB L env) @ ''/mint'') (jmap [(''to'', JStr a), (''amount'', JStr (big_String n))])))"
      using demo_urls_parseD(7) [OF assms(4)] by (simp add: post_req_def)
  next
    fix e assume "obs e = c"
    then show "\<exists>r e'. HttpDo (demo_net L env R dep N) (post_req (bank_DepositSvcURL (BankB L env) @ ''/mint'')
        (jmap [(''to'', JStr a), (''amount'', JStr (big_String n))])) e = (Ok r, e') \<and> r = writeErr 400 t \<and> obs e' = c"
      by (simp add: post)
  qed (auto simp: answer intro: live_return)
  then show ?thesis by simp
qed

lemma live_wrong_key:
  assumes "urls_apart L env" and "routers_started L env R" and "demo_urls_parse L env"
  shows "live_ok obs c (signWithWrongKey L (demo_net L env R dep N) env) (\<lambda>n. n = 403) [] c"
proof -
  have "live_ok obs c (http_do (demo_net L env R dep N) (wrong_key_req L env)) (\<lambda>x. \<exists>r. x = Ok r \<and> rs_status r = 403) [] c"
    by (rule live_http) (use demo_urls_parseD(8) [OF assms(3)] demo_net_wrong_key [OF assms(1,2)] in \<open>simp add: wrong_key_req_def, metis\<close>)
  then have "live_ok obs c (signWithWrongKey L (demo_net L env R dep N) env) (\<lambda>n. n = 403) ([] @ []) c"
    unfolding signWithWrongKey_def by (rule live_proceed) (auto intro: live_return)
  then show ?thesis by simp
qed

lemma live_checks:
  assumes "urls_apart L env" and "routers_started L env R" and "demo_urls_parse L env"
  shows "live_ok obs c (checks L (demo_net L env R dep N) env supply backing) (\<lambda>_. True)
     [says (reconcile_line supply backing), says (mint_check_line (requireRole L (bank_service L env dep False) RoleIssuer ''mint'')),
      says (key_check_line 403)] c"
proof -
  have one: "big_String 1 = ''1''" by (simp add: big_String_def nat_text.simps digit_char_def) code_simp
  obtain t where t: "requireRole L (bank_service L env dep False) RoleIssuer ''mint'' = Some t" "t \<noteq> []" using refusal by blast
  note mint = live_refused_mint [OF assms(1) t assms(3), where n = 1, unfolded one]
  have "live_ok obs c (checks L (demo_net L env R dep N) env supply backing) (\<lambda>_. True)
     ([] @ [says (reconcile_line supply backing)] @ [] @ [says (mint_check_line (Some t))] @ [] @ [says (key_check_line 403)] @ [] @ []) c"
    unfolding checks_def
  proof (rule live_then [OF live_quiet live_then [OF live_printf live_proceed [OF mint]]], goal_cases)
    case (1 p)
    then have p: "snd p = Some t" .
    show ?case
      unfolding p by (intro live_then [OF live_printf] live_proceed [OF live_wrong_key [OF assms]])
        (simp only:, intro live_then [OF live_printf] live_then [OF live_quiet] live_done TrueI)
  qed
  then show ?thesis by (simp add: t(1))
qed

section \<open>Processes\<close>

text \<open>Starting and killing processes and sleeping leave the chain alone.\<close>

definition host_keeps :: "'e host \<Rightarrow> ('e \<Rightarrow> 'c) \<Rightarrow> bool" where
  "host_keeps H obs \<longleftrightarrow>
     (\<forall>e. (\<forall>p vs. obs (snd (hs_start H p vs e)) = obs e) \<and> (\<forall>p. obs (snd (hs_kill H p e)) = obs e) \<and>
          (\<forall>ms. obs (snd (hs_sleep H ms e)) = obs e))"

lemma live_bind_quiet:
  "live obs c m P [] c1 \<Longrightarrow> (\<And>x. P x \<Longrightarrow> live obs c1 (f x) Q T c2) \<Longrightarrow> live obs c (State_Monad.bind m f) Q T c2"
  using live_bind [of obs c m P "[]" c1 f Q T c2] by simp

lemma live_proceed_quiet:
  "live_ok obs c m P [] c1 \<Longrightarrow> (\<And>x. P x \<Longrightarrow> live obs c1 (f x) Q T c2) \<Longrightarrow> live obs c (proceed m f) Q T c2"
  using live_proceed [of obs c m P "[]" c1 f Q T c2] by simp

lemma live_spawn:
  assumes "host_keeps H obs"
  shows "live obs c (spawn H dir bin vars) (\<lambda>_. True) [] c"
  unfolding spawn_def
proof (rule live_bind_quiet [OF live_act [where P = "\<lambda>_. True"]])
  fix r :: "unit res"
  show "live obs c (case r of Ok _ \<Rightarrow> State_Monad.return (bin, True)
      | Err e \<Rightarrow> do {
          _ \<leftarrow> printf (red @ ''  '' @ cross_mark @ '' failed to start '' @ bin @ '': '' @ e @ reset @ nl);
          State_Monad.return (bin, False) }) (\<lambda>_. True) [] c"
    by (cases r) (auto intro: live_return live_bind_quiet [OF live_quiet])
qed (use assms in \<open>simp add: host_keeps_def\<close>)

lemma live_spawn_services:
  "host_keeps H obs \<Longrightarrow> live obs c (spawn_services L H env dir) (\<lambda>_. True) [] c"
  unfolding spawn_services_def Let_def by (intro live_bind_quiet [OF live_spawn] live_return) simp_all

lemma live_kill_all:
  assumes "host_keeps H obs"
  shows "live obs c (kill_all H ps) (\<lambda>_. True) [] c"
proof (induction ps)
  case (Cons p ps)
  obtain name started where p: "p = (name, started)" by (cases p)
  have "live obs c (if started then act (EKill name) (hs_kill H name) else State_Monad.return ()) (\<lambda>_. True) [] c"
    using assms by (auto simp: host_keeps_def intro: live_act live_return)
  then show ?case unfolding p kill_all.simps by (rule live_bind_quiet) (rule Cons.IH)
qed (simp add: live_return)

lemma live_sleep: "host_keeps H obs \<Longrightarrow> live obs c (sleep H ms) (\<lambda>_. True) [] c"
  unfolding sleep_def by (rule live_act) (simp add: host_keeps_def)

lemma live_print_banner: "live obs c (print_banner L dep) (\<lambda>_. True) [] c"
  unfolding print_banner_def by (rule live_bind_quiet [OF live_quiet])+ (rule live_quiet)

text \<open>A run of the demo around its scenario.\<close>

lemma live_demo_Run:
  assumes "host_keeps H obs" and "env ''DEMO_SPAWN'' = ''false'' \<or> is_ok (hs_Executable H)"
    and "live obs c (scenario L N H env) (\<lambda>r. r = Done None) S c'"
  shows "live obs c (demo_Run L N H env (Ok dep)) (\<lambda>r. r = Done None) S c'"
proof -
  have spawned: "live obs c (State_Monad.bind (spawn_services L H env dir) (\<lambda>procs. State_Monad.bind (scenario L N H env)
      (\<lambda>r. State_Monad.bind (kill_all H procs) (\<lambda>_. State_Monad.return r)))) (\<lambda>r. r = Done None) S c'" for dir
  proof (rule live_bind_quiet [OF live_spawn_services [OF assms(1)]])
    fix procs
    have "live obs c (State_Monad.bind (scenario L N H env) (\<lambda>r. State_Monad.bind (kill_all H procs) (\<lambda>_. State_Monad.return r)))
        (\<lambda>r. r = Done None) (S @ []) c'"
      by (rule live_bind [OF assms(3)], rule live_bind_quiet [OF live_kill_all [OF assms(1)]], rule live_return)
    then show "live obs c (State_Monad.bind (scenario L N H env) (\<lambda>r. State_Monad.bind (kill_all H procs) (\<lambda>_. State_Monad.return r)))
        (\<lambda>r. r = Done None) S c'" by simp
  qed
  show ?thesis
    unfolding demo_Run_def binDir_def res.case
    by (rule live_bind_quiet [OF live_print_banner]) (use assms(2,3) spawned in \<open>auto simp: is_ok_iff\<close>)
qed

section \<open>The chain along the run\<close>

text \<open>The amounts after the mint and after the transfer.\<close>

definition after_mint :: "address \<Rightarrow> address \<Rightarrow> nat" where
  "after_mint B a = (if a = B then 1000000 * 1000000 else 0)"

definition after_transfer :: "address \<Rightarrow> address \<Rightarrow> address \<Rightarrow> nat" where
  "after_transfer B M a = (if a = B then 750000 * 1000000 else if a = M then 250000 * 1000000 else 0)"

lemma holds_unissued:
  assumes "deployed_state Z rl sc th ta g tr ts au" and "dep = deployment_of reg rl sc th ta (2, 3, 4)" and "rl \<noteq> sc"
  shows "holds Z dep (\<lambda>_. 0) 0 0 (demo_chain g' rl tr sc ts au)"
  using assms by (simp add: holds_def deployed_state_def unissued_def demo_chain_def deployment_of_def balanceOf_def totalSupply_def fun_eq_iff)

lemma holds_issued:
  "issued Z rl sc B (1000000 * 1000000) c \<Longrightarrow> dep = deployment_of reg rl sc th ta ids \<Longrightarrow>
     holds Z dep (after_mint B) (1000000 * 1000000) (1000000 * 1000000) c"
  by (auto simp: issued_def holds_def after_mint_def deployment_of_def fun_eq_iff split: prod.splits)

lemma holds_settled:
  "settled Z rl sc B M c \<Longrightarrow> dep = deployment_of reg rl sc th ta ids \<Longrightarrow>
     holds Z dep (after_transfer B M) (1000000 * 1000000) (1000000 * 1000000) c"
  by (auto simp: settled_def holds_def after_transfer_def deployment_of_def fun_eq_iff split: prod.splits)

lemma demo_path:
  assumes "oz_ok Z" and "distinct [0, rl, sc, th, ta, BANK_A, B, M]" and "deploy_demo Z rl sc th ta = Ok (ids, c)"
    and "dep = deployment_of reg rl sc th ta ids" and "D = demo_deployed rl th ta"
  obtains co c1 c2 where "exec_all Z D (onboard_txs dep BANK_A B @ onboard_txs dep BANK_A M) c = Ok co"
    "exec Z D BANK_A (AuthorityMint (dep_DepositToken dep) B (1000000 * 1000000)) co = Ok c1"
    "exec Z D B (TokenTransfer (dep_DepositToken dep) M (250000 * 1000000)) c1 = Ok c2"
    "holds Z dep (\<lambda>_. 0) 0 0 c" "holds Z dep (after_mint B) (1000000 * 1000000) (1000000 * 1000000) c1"
    "holds Z dep (after_transfer B M) (1000000 * 1000000) (1000000 * 1000000) c2" "settled Z rl sc B M c2"
proof -
  have ne: "distinct [0, rl, sc, th, ta, BANK_A]" "rl \<noteq> sc" using assms(2) by auto
  obtain g tr ts au where d: "ids = (2, 3, 4)" "c = demo_chain g rl tr sc ts au" "deployed_state Z rl sc th ta g tr ts au"
    using deploy_demo_Ok [OF assms(1) ne(1)] assms(3) by (metis prod.inject res.inject(1))
  note dep = assms(4) [unfolded d(1)]
  have i: "dep_TransferPolicyID dep = 2" "dep_SCMintPolicyID dep = 4" "dep_DepositToken dep = sc"
    by (simp_all add: dep deployment_of_def)
  obtain k where k: "exec_all Z D (onboard_txs dep BANK_A B @ onboard_txs dep BANK_A M) c = Ok (demo_chain k rl tr sc ts au)"
    "auth_set k 2 = insert M (insert B (set (infra sc th ta)))" "auth_set k 3 = {th}" "auth_set k 4 = {B, M}"
    using exec_onboarding [OF d(3) i(1,2)] unfolding d(2) by metis
  obtain c1 c2 where m: "exec Z D BANK_A (AuthorityMint sc B (1000000 * 1000000)) (demo_chain k rl tr sc ts au) = Ok c1"
    "issued Z rl sc B (1000000 * 1000000) c1" "exec Z D B (TokenTransfer sc M (250000 * 1000000)) c1 = Ok c2" "settled Z rl sc B M c2"
    using mint_and_move [OF assms(1,2) d(3) k(2-4)] unfolding assms(5) by metis
  show thesis
    by (rule that [unfolded i(3), OF k(1) m(1,3) _ holds_issued [OF m(2) assms(4)] holds_settled [OF m(4) assms(4)] m(4)])
      (simp only: d(2) holds_unissued [OF d(3) dep ne(2)])
qed

section \<open>The report\<close>

definition full_report :: "('sk, 'stx) lib \<Rightarrow> env \<Rightarrow> deployment \<Rightarrow> (string \<Rightarrow> bool) list" where
  "full_report L env dep =
     (let A = AddressHex L (bank_Address (BankA L env)); B = AddressHex L (bank_Address (BankB L env)) in
      balance_report L env ''Opening balances'' ''0 WFUSD'' ''0 WFUSD'' ''0 WFUSD'' ''0 WFUSD'' @
      onboarded L env ''Bank B wallet'' @ onboarded L env ''Merchant'' @
      [went_through amber A ''mint''] @
      balance_report L env ''After mint'' ''1,000,000 WFUSD'' ''0 WFUSD'' ''1,000,000 WFUSD'' ''1,000,000 WFUSD'' @
      [went_through teal B ''transfer''] @
      balance_report L env ''After transfer'' ''750,000 WFUSD'' ''250,000 WFUSD'' ''1,000,000 WFUSD'' ''1,000,000 WFUSD'' @
      [says (''    '' @ green @ check_mark @ reset @ '' ReserveLedger backing 1,000,000 WFUSD == deposit-token supply 1,000,000 WFUSD'' @ nl),
       says (mint_check_line (requireRole L (bank_service L env dep False) RoleIssuer ''mint'')),
       says (key_check_line 403)])"

lemma shown_amounts:
  "shown 0 = ''0 WFUSD''" "shown (1000000 * 1000000) = ''1,000,000 WFUSD''" "shown (750000 * 1000000) = ''750,000 WFUSD''"
  "shown (250000 * 1000000) = ''250,000 WFUSD''"
proof -
  have e: "shown n = thousands (big_String (big_Quo (int n) 1000000)) @ '' WFUSD''" for n
    by (simp add: shown_def fmtWFUSD_def big_SetString_String)
  have q: "big_Quo (int (n * 1000000)) 1000000 = int n" for n using big_Quo_mult [of "int n"] by simp
  have "char_of (48 :: nat) = CHR ''0''" "char_of (49 :: nat) = CHR ''1''" "char_of (50 :: nat) = CHR ''2''"
    "char_of (53 :: nat) = CHR ''5''" "char_of (55 :: nat) = CHR ''7''" by code_simp+
  then have d: "digit_char 0 = CHR ''0''" "digit_char (Suc 0) = CHR ''1''" "digit_char 2 = CHR ''2''" "digit_char 5 = CHR ''5''"
    "digit_char 7 = CHR ''7''" by (simp_all add: digit_char_def)
  have n: "big_String (int 0) = ''0''" "big_String (int 1000000) = ''1000000''" "big_String (int 750000) = ''750000''" "big_String (int 250000) = ''250000''"
    by (simp_all add: big_String_def nat_text.simps d)
  have t: "thousands ''0'' = ''0''" "thousands ''1000000'' = ''1,000,000''" "thousands ''750000'' = ''750,000''" "thousands ''250000'' = ''250,000''"
    by (simp_all add: thousands_def group_loop_short group_loop_long)
  show "shown 0 = ''0 WFUSD''" using q [of 0] by (simp add: e n(1) [simplified] t)
  show "shown (1000000 * 1000000) = ''1,000,000 WFUSD''" unfolding e q n t by simp
  show "shown (750000 * 1000000) = ''750,000 WFUSD''" unfolding e q n t by simp
  show "shown (250000 * 1000000) = ''250,000 WFUSD''" unfolding e q n t by simp
qed

lemma reconciled:
  "reconcile_line (big_String (int (1000000 * 1000000))) (big_String (int (1000000 * 1000000))) =
     ''    '' @ green @ check_mark @ reset @ '' ReserveLedger backing 1,000,000 WFUSD == deposit-token supply 1,000,000 WFUSD'' @ nl"
  unfolding reconcile_line_def shown_def [symmetric] shown_amounts by simp

section \<open>The run\<close>

lemma live_print_token: "live obs c (print_token info) (\<lambda>_. True) [] c"
  unfolding print_token_def Let_def by (rule live_quiet)

lemma live_scenario:
  assumes "live_system Z D L env R dep N obs" and "host_keeps H obs"
    and "A = bank_Address (BankA L env)" and "B = bank_Address (BankB L env)" and "M = Merchant L"
    and "exec_all Z D (onboard_txs dep A B @ onboard_txs dep A M) c = Ok co"
    and "exec Z D A (AuthorityMint (dep_DepositToken dep) B (1000000 * 1000000)) co = Ok c1"
    and "exec Z D B (TokenTransfer (dep_DepositToken dep) M (250000 * 1000000)) c1 = Ok c2"
    and "holds Z dep (\<lambda>_. 0) 0 0 c" and "holds Z dep (after_mint B) (1000000 * 1000000) (1000000 * 1000000) c1"
    and "holds Z dep (after_transfer B M) (1000000 * 1000000) (1000000 * 1000000) c2" and "B \<noteq> M"
  shows "live obs c (scenario L (demo_net L env R dep N) H env) (\<lambda>r. r = Done None) (full_report L env dep) c2"
proof -
  let ?N = "demo_net L env R dep N" and ?million = "1000000 * 1000000 :: nat"
  have u: "urls_apart L env" and r: "routers_started L env R" using assms(1) by (simp_all add: live_system_def)
  note ok = live_urls_parse [OF assms(1)]
  have onboard: "live_ok obs c (onboard_loop L ?N env (onboard_targets L env)) (\<lambda>e. e = None)
      (onboarded L env ''Bank B wallet'' @ onboarded L env ''Merchant'') co"
    using live_onboard [OF assms(1), where ts = "[(''Bank B wallet'', B), (''Merchant'', M)]" and c = c and c' = co] assms(3-6)
    by (simp add: onboard_targets_def bankB_hex_def merchant_hex_def)
  have amounts: "int (1000000 * 1000000) = 1000000 * 1000000" "int (250000 * 1000000) = 250000 * 1000000" by simp_all
  have "live_ok obs co (write_step L ?N (bank_DepositSvcURL (BankA L env) @ ''/mint'') (AddressHex L B) (big_String (int ?million)) amber)
      (\<lambda>e. e = None) [went_through amber (AddressHex L (bank_Address (BankA L env))) ''mint''] c1"
    by (rule live_write_step [OF demo_urls_parseD(5) [OF ok]], rule live_mint [OF assms(1)]) (use assms(3,7) in simp_all)
  then have mint: "live_ok obs co (write_step L ?N (bank_DepositSvcURL (BankA L env) @ ''/mint'') (bankB_hex L env) (big_String (1000000 * 1000000)) amber)
      (\<lambda>e. e = None) [went_through amber (AddressHex L (bank_Address (BankA L env))) ''mint''] c1"
    unfolding amounts assms(4) bankB_hex_def .
  have b: "bank_of L env False = BankB L env" by (simp add: bank_of_def)
  have "live_ok obs c1 (write_step L ?N (bank_DepositSvcURL (BankB L env) @ ''/transfer'') (AddressHex L M) (big_String (int (250000 * 1000000))) teal)
      (\<lambda>e. e = None) [went_through teal (AddressHex L (bank_Address (BankB L env))) ''transfer''] c2"
    by (rule live_write_step [OF demo_urls_parseD(6) [OF ok]], rule live_transfer [OF assms(1), where issuer = False, unfolded b]) (use assms(4,8) in simp_all)
  then have move: "live_ok obs c1 (write_step L ?N (bank_DepositSvcURL (BankB L env) @ ''/transfer'') (merchant_hex L) (big_String (250000 * 1000000)) teal)
      (\<lambda>e. e = None) [went_through teal (AddressHex L (bank_Address (BankB L env))) ''transfer''] c2"
    unfolding amounts assms(5) merchant_hex_def .
  note show0 = live_showBalances [OF assms(1,9), of "''Opening balances''", unfolded shown_amounts]
  have "after_mint B B = ?million" "after_mint B M = 0" "after_transfer B M B = 750000 * 1000000" "after_transfer B M M = 250000 * 1000000"
    using assms(12) by (simp_all add: after_mint_def after_transfer_def)
  note held = this [unfolded assms(4,5)]
  note show1 = live_showBalances [OF assms(1) assms(10) [unfolded assms(4)], of "''After mint''", unfolded held shown_amounts]
    and show2 = live_showBalances [OF assms(1) assms(11) [unfolded assms(4,5)], of "''After transfer''", unfolded held shown_amounts]
  note last = live_checks [OF u r ok, of obs c2 dep N "big_String (int ?million)" "big_String (int ?million)", unfolded reconciled]
  have "live obs c (scenario L ?N H env) (\<lambda>r. r = Done None)
      (balance_report L env ''Opening balances'' ''0 WFUSD'' ''0 WFUSD'' ''0 WFUSD'' ''0 WFUSD'' @
       (onboarded L env ''Bank B wallet'' @ onboarded L env ''Merchant'') @
       [went_through amber (AddressHex L (bank_Address (BankA L env))) ''mint''] @
       balance_report L env ''After mint'' ''1,000,000 WFUSD'' ''0 WFUSD'' ''1,000,000 WFUSD'' ''1,000,000 WFUSD'' @
       [went_through teal (AddressHex L (bank_Address (BankB L env))) ''transfer''] @
       balance_report L env ''After transfer'' ''750,000 WFUSD'' ''250,000 WFUSD'' ''1,000,000 WFUSD'' ''1,000,000 WFUSD'' @
       [says (''    '' @ green @ check_mark @ reset @ '' ReserveLedger backing 1,000,000 WFUSD == deposit-token supply 1,000,000 WFUSD'' @ nl),
        says (mint_check_line (requireRole L (bank_service L env dep False) RoleIssuer ''mint'')),
        says (key_check_line 403)] @ []) c2"
    unfolding scenario_def wfusd_literals proceed_Done
    apply (rule live_proceed_quiet [OF live_wait_all [OF u subset_refl ok]], rule live_guard, assumption)
    apply (rule live_bind_quiet [OF live_sleep [OF assms(2)]], rule live_proceed_quiet [OF live_token [OF assms(1,9)]], rule live_guard, erule conjunct1)
    apply (rule live_bind_quiet [OF live_print_token], rule live_proceed [OF show0], rule live_bind_quiet [OF live_quiet])
    apply (rule live_proceed [OF onboard], rule live_guard, assumption, rule live_bind_quiet [OF live_quiet])
    apply (rule live_proceed [OF mint], rule live_guard, assumption, rule live_proceed [OF show1], rule live_bind_quiet [OF live_quiet])
    apply (rule live_proceed [OF move], rule live_guard, assumption, rule live_proceed [OF show2])
    apply (simp only: fst_conv snd_conv, rule live_proceed [OF last], rule live_return, rule refl)
    done
  then show ?thesis by (simp add: full_report_def Let_def)
qed

text \<open>
  C1. The demo, live: on a node that runs the contracts, from the chain the deployment script leaves,
  a run of the demo against its whole system succeeds and leaves the settled chain: Bank B with
  750,000 tokens, the merchant with 250,000, and a million of both tokens issued. The report it
  prints is true to the chain: it shows the balances and supplies of each stage, every write as
  successful and signed by its bank, the supplies as equal, Bank B's mint as refused and the foreign
  key as not held. The node takes only transactions with the sender's next nonce and enough gas;
  that the services broadcast such ones is part of what is proved.
\<close>

theorem demo_settles_live:
  assumes "oz_ok Z" and "live_system Z D L env R dep N obs" and "D = demo_deployed rl th ta"
    and "host_keeps H obs" and "env ''DEMO_SPAWN'' = ''false'' \<or> is_ok (hs_Executable H)"
    and "bank_Address (BankA L env) = BANK_A"
    and "distinct [0, rl, sc, th, ta, BANK_A, bank_Address (BankB L env), Merchant L]"
    and "deploy_demo Z rl sc th ta = Ok (ids, obs (w_env w))" and "dep = deployment_of reg rl sc th ta ids"
  shows "\<exists>w' es. run_state (demo_Run L (demo_net L env R dep N) H env (Ok dep)) w = (Done None, w') \<and>
           settled Z rl sc (bank_Address (BankB L env)) (Merchant L) (obs (w_env w')) \<and>
           emits w w' es \<and> reports (full_report L env dep) (printed es)"
proof -
  let ?B = "bank_Address (BankB L env)" and ?M = "Merchant L" and ?c = "obs (w_env w)"
  obtain co c1 c2 where p: "exec_all Z D (onboard_txs dep BANK_A ?B @ onboard_txs dep BANK_A ?M) ?c = Ok co"
    "exec Z D BANK_A (AuthorityMint (dep_DepositToken dep) ?B (1000000 * 1000000)) co = Ok c1"
    "exec Z D ?B (TokenTransfer (dep_DepositToken dep) ?M (250000 * 1000000)) c1 = Ok c2"
    "holds Z dep (\<lambda>_. 0) 0 0 ?c" "holds Z dep (after_mint ?B) (1000000 * 1000000) (1000000 * 1000000) c1"
    "holds Z dep (after_transfer ?B ?M) (1000000 * 1000000) (1000000 * 1000000) c2" "settled Z rl sc ?B ?M c2"
    by (rule demo_path [OF assms(1,7,8,9,3)])
  have "?B \<noteq> ?M" using assms(7) by simp
  from live_scenario [OF assms(2,4) assms(6) [symmetric] refl refl p(1-6) this]
  have "live obs ?c (demo_Run L (demo_net L env R dep N) H env (Ok dep)) (\<lambda>r. r = Done None) (full_report L env dep) c2"
    by (rule live_demo_Run [where env = env, OF assms(4,5)])
  then show ?thesis using p(7) unfolding live_def by blast
qed

text \<open>The sample system on the sample node, with a host that starts nothing.\<close>

theorem demo_settles_live_witness:
  "\<exists>ids c w' es. deploy_demo sample_oz 1 2 3 4 = Ok (ids, c) \<and>
     run_state (demo_Run sample_lib
         (demo_net sample_lib empty_env sample_routers (deployment_of 9 1 2 3 4 ids) (live_node sample_oz (demo_deployed 1 3 4)))
         \<lparr>hs_Executable = Ok ''/bin/demo'', hs_start = (\<lambda>_ _ e. (Ok (), e)), hs_kill = (\<lambda>_. Pair ()), hs_sleep = (\<lambda>_. Pair ())\<rparr>
         empty_env (Ok (deployment_of 9 1 2 3 4 ids))) \<lparr>w_env = (c, \<lambda>_. 0), w_trace = []\<rparr> = (Done None, w') \<and>
     settled sample_oz 1 2 0x70997970C51812dc3A010C7d01b50e0d17dc79C8 0x3C44CdDdB6a900fa2b585dd299e03d12FA4293BC (fst (w_env w')) \<and>
     emits \<lparr>w_env = (c, \<lambda>_. 0), w_trace = []\<rparr> w' es \<and> reports (full_report sample_lib empty_env (deployment_of 9 1 2 3 4 ids)) (printed es)"
proof -
  let ?H = "\<lparr>hs_Executable = Ok ''/bin/demo'', hs_start = (\<lambda>_ _ e. (Ok (), e)), hs_kill = (\<lambda>_. Pair ()), hs_sleep = (\<lambda>_. Pair ())\<rparr>
    :: oz_view node_env host"
  have "distinct [0, 1, 2, 3, 4, BANK_A]" by (simp add: BANK_A_def)
  then obtain ids c where c: "deploy_demo sample_oz 1 2 3 4 = Ok (ids, c)" using deploy_demo_Ok [OF sample_oz_ok] by metis
  then have d: "deploy_demo sample_oz 1 2 3 4 = Ok (ids, fst (w_env \<lparr>w_env = (c, \<lambda>_ :: address. 0 :: u64), w_trace = [] :: (DynamicFeeTx \<times> bytes) event list\<rparr>))" by simp
  have h: "host_keeps ?H fst" "empty_env ''DEMO_SPAWN'' = ''false'' \<or> is_ok (hs_Executable ?H)"
    by (simp_all add: host_keeps_def)
  have ne: "distinct [0, 1, 2, 3, 4, BANK_A, bank_Address (BankB sample_lib empty_env), Merchant sample_lib]"
    by (simp add: sample_bank_addresses BANK_A_def)
  from demo_settles_live [OF sample_oz_ok sample_live_system refl h sample_bank_addresses(1) ne d refl, of 9] c
  show ?thesis unfolding sample_bank_addresses by blast
qed

end
