(* ===== verification/Spec2Isabelle.thy ===== *)
theory Spec2Isabelle
  imports Amounts Wire_Types Initializers Live_Demo
begin

text \<open>
  A model of besu-interbank-demo: two banks move a tokenised deposit on a Hyperledger Besu chain
  (chain id 1337). Each bank runs a signing router, the only process that holds its private key,
  and a deposit service, which holds no key. The demo orchestrator starts them and drives a
  scenario through their HTTP interfaces, the web console shows balances, blocks and transactions
  and forwards writes to the deposit services. On the chain, the AuthRegistry contract decides who
  may hold and receive the tokens, the token authority limits what the issuer mints, and a handler
  mints reserve ledger tokens and wraps them into the deposit token.

  How the parts interact. A write (mint, authorize, transfer) reaches a deposit service as an
  HTTP request. The service checks its bank's role, packs the calldata, reads nonce, base fee and
  gas estimate from the node, sends the hash of the unsigned transaction to its bank's router,
  assembles the transaction with the returned signature, broadcasts it and waits for the receipt.
  The router answers only for the keys it was started with. The broadcast transactions are calls
  of the contracts, whose effect on the tokens is modelled too.

  The theories, in the order of their imports, and the code they model.

  \<^item> Prelude: types (addresses, bytes, results, the outcome of a call that may panic), the
    fact collection \<open>wire_simps\<close>, generic lemmas.
  \<^item> Go_Numbers, Go_Strings, Go_Path, Go_Url, Go_Json, Http: the parts of Go's standard library the
    program uses: decimal text of big.Int and strconv, strings.Split, TrimSpace, TrimRight and
    Repeat, filepath.Clean, Dir and Join, the URLs net/url.Parse accepts (\<open>url_parses\<close>, after Go 1.23),
    encoding/json decoding into a struct (field matching, nulls, wrong types) above the lexical
    level, the ServeMux choice of a handler. Json_Types: the types of decoded values, which decoding
    preserves.
  \<^item> Chainx (internal/chainx/abis.go), Config (internal/config/config.go), Lib: the ABI tables, the
    configuration as a function of the environment, and the go-ethereum library as the record
    \<open>lib\<close> of its functions, an argument of every definition that calls them. Sample_Lib is one
    concrete instance of it, on which the witnesses run.
  \<^item> Keystore, Signing_Router (internal/signrouter, cmd/signing-router): \<open>loadKey\<close>, \<open>router_New\<close>,
    \<open>handleSign\<close>, the routes, and \<open>router_main\<close> from the environment. Its locale states what a
    signing service promises, interpreted on the router.
  \<^item> World: the outside as a record \<open>net\<close> of functions (node calls and the HTTP client) over an
    arbitrary environment, each call recorded in a trace; \<open>emits w w' es\<close> says which calls a run
    made. Nothing is assumed of the node or the peers unless a property says so. \<open>http_call\<close> is a
    request as every client of the program makes it, with the error of \<open>http.NewRequestWithContext\<close>
    dropped: a URL that does not parse leaves a nil request, whose use panics.
  \<^item> Deposit_Service (internal/depositsvc/service.go): \<open>buildSignBroadcast\<close> and the operations over
    it, one definition per method; Deposit_Properties: the order of the pipeline, what is signed
    and broadcast, what each operation sends, roles, results and gas.
    Deposit_Server (internal/depositsvc/server.go, cmd/deposit-svc): handlers, body decoding, main.
  \<^item> Amounts: \<open>wfusd\<close>, \<open>fmtWFUSD\<close> of demo.go and \<open>humanWFUSD\<close> of webui/server.go.
  \<^item> Webui, Webui_Properties (internal/webui/server.go, cmd/webui): the console's handlers, the
    explorer's decoding of calldata and logs, the labels and the proxy; that it only reads and
    forwards, in which three cases it panics instead of answering, and that it shows what the
    services packed.
  \<^item> Demo, Demo_Properties (internal/demo/demo.go, cmd/demo): the orchestrator as a program in the
    state monad over the world, a panic ending the run (\<open>proceed\<close>); a small trace logic (\<open>io_spec\<close>)
    proves which requests it posts.
  \<^item> Network: the services composed. A request is delivered to the modelled service whose base
    URL it starts with, so the deposit services talk to the modelled routers and the demo to the
    modelled services. Here the isolation of the keys is proved end to end.
  \<^item> Boot: the environments the demo gives its children, and the state each child's main
    reaches in it, which discharges the assumption of Network that the routers were started.
  \<^item> Completion: the whole demo against the composed system; a small logic of results
    (\<open>returns\<close>, \<open>gives\<close>) proves that, when the node answers, the URLs parse and the token is
    deployed, the run succeeds.
    Wire_Types: every answer of a service has the types its clients declare.
  \<^item> AuthRegistry (contracts/lib/auth-registry/src/AuthRegistry.sol): the policy registry with its
    transactions as a step relation, the invariant of its reachable states, the refinement of the
    documented sets, and the locale \<open>access_registry\<close> a client relies on.
    Onboarding: the effect on it of the transactions one Authorize broadcasts. Deployment
    (contracts/scripts/DeployDemo.s.sol): the registry a fresh deployment leaves.
  \<^item> OpenZeppelin, Tokens, Token_Authority (contracts/src/v3, contracts/src/tokenAuthority): the
    inherited contracts as the record \<open>oz\<close> of their functions; the two tokens, the token authority
    and its handlers as functions of the chain's state, every call between contracts included,
    and an account's transactions as \<open>tx\<close>, run by \<open>exec\<close>. Token_Properties: what the functions of
    one token do. Backing: the reserve ledger backs the deposit token, call by call. Authorized_Moves:
    the locale \<open>token_steps\<close> lifts a relation on one token to every call across contracts, here that
    only authorized accounts' balances move. Issuance: when a mint succeeds and what it changes.
  \<^item> Settlement (contracts/scripts/DeployAll.s.sol, DeployDemo.s.sol): the deployment script as the
    transactions the deployer sends, the chain it leaves, and runs of arbitrary transactions on
    it. Initializers: no later transaction can initialize a deployed contract again.
    Demo_Settlement: the transactions of the demo, run there. Broadcast: they are what the
    deposit services broadcast.
  \<^item> Chain_Node, Live_Steps, Live_Demo: the two halves composed. Of the node's environment only the
    chain it holds is observed (\<open>obs\<close>); \<open>live_system\<close> says that the node runs the contracts on the
    transactions it takes (\<open>acceptable\<close>: the sender's pending nonce, and the gas the node itself
    estimates) and answers reads from them. That the services broadcast acceptable transactions is
    proved. A total-correctness triple over the chain and the printed lines (\<open>live\<close>) carries the demo
    from the deployed chain to the settled one, with its report. Sample_Node is a computable node,
    counting nonces and refusing a wrong one, that satisfies these hypotheses.

  Correspondence of state and operations. A Go struct is a record with a prefix per type, a
  method a definition of the same name; an error result is \<open>Err\<close>, a nil dereference, an index
  out of range or another run-time panic is \<open>Panic\<close>, a pointer that may be nil is an option, and a contract call that reverts is \<open>Inl\<close> with the reason. A uint256 of a contract is a
  natural number with its checked arithmetic written out. 64-bit
  nonces and gas are words, big.Int is int, a byte slice a list of 8-bit words, an address a
  160-bit word. HTTP bodies are JSON values or text.

  Bounds. The health probe loops over the remaining of its 80 attempts and the block list over the
  remaining of its at most 50, both as in the code, so no fuel is involved. Doubling the gas
  estimate does not wrap below 2^63, and block heights are read as int64, exact below 2^63.
  \<open>isAuthorized\<close> recurses along parents as a partial function; that it returns is proved for every
  reachable registry, by the order of the policy ids.

  Named hypotheses, each a documented fact and each shown to hold for the sample library (\<open>oz_ok\<close>,
  the documented behaviour of the OpenZeppelin functions, for the sample contracts \<open>sample_oz\<close>):
  \<open>hexutil_ok\<close>, \<open>address_hex_ok\<close>, \<open>signer_ok\<close>, \<open>signing_ok\<close>, \<open>keystore_ok\<close>, \<open>pack_ok\<close>,
  \<open>unpack_ok\<close>, the ABI facts of Webui_Properties; \<open>signers_ok\<close>,
  \<open>address_text_ok\<close>; \<open>node_ok\<close>, \<open>token_answers\<close>, \<open>urls_apart\<close> and \<open>urls_parse\<close> describe a deployment, and
  \<open>node_reads\<close>, \<open>node_keeps\<close>, \<open>node_mines\<close>, \<open>node_views\<close> and \<open>host_keeps\<close> one whose node runs the contracts:
  it takes an acceptable transaction and mines it before the next one is sent, as the demo's single
  client waits for each. Of a transaction with another nonce or less gas nothing is assumed; the fee
  cap and the chain id are not part of that condition, they are stated by the property on what is
  broadcast.

  Not modelled. The lexical level of JSON, ECDSA, ABI encoding and hex texts beyond the named
  hypotheses (libraries); sockets, headers, logging and the ports' binding; path cleaning and
  percent-decoding in the server; the static file server;
  the interleaving of the children's copied output with the report and a cancelled interrupt
  context; the file system under LoadDeployment. Of the contracts: which signatures a permit
  accepts, upgrades to code outside the repository and the calls sent along with an upgrade, events,
  constructors and the proxy factory, whose addresses are arguments; other
  contracts than the modelled ones that call them (an account is any address, and a handler is one of
  the two modelled kinds); ReserveStore, ReserveLedgerBackedHandler and the sample upgrade, which
  neither script deploys. The chain's set-up files and the browser page hold no program logic.
\<close>

end
